(* ===== verification/Prelude.thy ===== *)
theory Prelude
  imports Main "HOL-Library.Monad_Syntax" "HOL-Library.AList" "HOL-Library.Multiset"
begin

text \<open>
  Shared vocabulary of the development: Go error values, the two loop shapes of the code
  (a loop that stops at the first error, a loop whose body changes the state), Go maps as
  association lists, and the lemmas on them that every component uses.

  A call that changes state has a result of type \<open>option\<close>: \<open>None\<close> is a call that does not
  return, because of a panic (nil dereference, index out of range, closing a closed channel)
  or because a loop never ends. An \<open>error\<close> a Go function returns is a value of a sum type,
  \<open>Inl\<close> the error.
\<close>

named_theorems go_loops \<open>rewrite rules for the loops of the code\<close>
named_theorems go_maps \<open>rewrite rules for Go maps\<close>

subsection \<open>Errors\<close>

text \<open>\<open>Errs m\<close> is \<open>errors.New m\<close> or an error a library returned with text \<open>m\<close>;
  \<open>Wrap m e\<close> is \<open>fmt.Errorf("m: %w", e)\<close>.\<close>

datatype go_error = Errs string | Wrap string go_error

text \<open>\<open>y, err := f(); if err != nil { return err }; ...\<close>, and an error wrapped on the way out.\<close>

definition ebind :: "'e + 'a \<Rightarrow> ('a \<Rightarrow> 'e + 'b) \<Rightarrow> 'e + 'b" where
  "ebind r f = (case r of Inl e \<Rightarrow> Inl e | Inr x \<Rightarrow> f x)"

definition wrap :: "string \<Rightarrow> go_error + 'a \<Rightarrow> go_error + 'a" where
  "wrap m r = (case r of Inl e \<Rightarrow> Inl (Wrap m e) | Inr x \<Rightarrow> Inr x)"

lemma ebind_simps [simp]: "ebind (Inl e) f = Inl e" "ebind (Inr x) f = f x"
  by (simp_all add: ebind_def)

lemma ebind_Inr_iff: "ebind r f = Inr y \<longleftrightarrow> (\<exists>x. r = Inr x \<and> f x = Inr y)"
  by (cases r) auto

lemma ebind_succeeds_iff: "(\<exists>y. ebind r f = Inr y) \<longleftrightarrow> (\<exists>x. r = Inr x \<and> (\<exists>y. f x = Inr y))"
  by (cases r) auto

lemma wrap_simps [simp]: "wrap m (Inl e) = Inl (Wrap m e)" "wrap m (Inr x) = Inr x"
  by (simp_all add: wrap_def)

lemma wrap_Inr_iff [simp]: "wrap m r = Inr x \<longleftrightarrow> r = Inr x"
  by (cases r) auto

subsection \<open>Loops\<close>

text \<open>\<open>for _, x := range xs { y, err := f(x); if err != nil { return err }; ys = append(ys, y) }\<close>\<close>

fun collect :: "('a \<Rightarrow> 'e + 'b) \<Rightarrow> 'a list \<Rightarrow> 'e + 'b list" where
  "collect f [] = Inr []"
| "collect f (x # xs) =
     (case f x of
        Inl e \<Rightarrow> Inl e
      | Inr y \<Rightarrow> (case collect f xs of Inl e \<Rightarrow> Inl e | Inr ys \<Rightarrow> Inr (y # ys)))"

text \<open>\<open>for _, x := range xs { body(x) }\<close> where the body changes the state.\<close>

fun for_each :: "('a \<Rightarrow> 's \<Rightarrow> 's option) \<Rightarrow> 'a list \<Rightarrow> 's \<Rightarrow> 's option" where
  "for_each f [] s = Some s"
| "for_each f (x # xs) s = Option.bind (f x s) (for_each f xs)"

lemma collect_Inr_iff:
  "collect f xs = Inr ys \<longleftrightarrow> list_all2 (\<lambda>x y. f x = Inr y) xs ys"
proof (induction xs arbitrary: ys)
  case (Cons x xs)
  show ?case
    by (cases "f x"; cases "collect f xs"; cases ys) (simp_all add: Cons.IH [symmetric])
qed auto

lemma collect_succeeds_iff: "(\<exists>ys. collect f xs = Inr ys) \<longleftrightarrow> (\<forall>x \<in> set xs. \<exists>y. f x = Inr y)"
proof (induction xs)
  case (Cons x xs)
  then show ?case by (cases "f x"; cases "collect f xs") auto
qed simp

lemma collect_Inl_iff:
  "collect f xs = Inl e \<longleftrightarrow>
     (\<exists>us x vs. xs = us @ x # vs \<and> f x = Inl e \<and> (\<forall>u \<in> set us. \<exists>y. f u = Inr y))"
    (is "?L xs \<longleftrightarrow> (\<exists>us x vs. ?R xs us x vs)")
proof (induction xs)
  case (Cons a xs)
  show ?case
  proof
    assume L: "?L (a # xs)"
    show "\<exists>us x vs. ?R (a # xs) us x vs"
    proof (cases "f a")
      case (Inl e')
      with L have "?R (a # xs) [] a xs" by simp
      then show ?thesis by blast
    next
      case (Inr y)
      with L have "?L xs" by (simp split: sum.splits)
      with Cons.IH obtain us x vs where "?R xs us x vs" by blast
      with Inr have "?R (a # xs) (a # us) x vs" by simp
      then show ?thesis by blast
    qed
  next
    assume "\<exists>us x vs. ?R (a # xs) us x vs"
    then obtain us x vs where R: "?R (a # xs) us x vs" by blast
    show "?L (a # xs)"
    proof (cases us)
      case Nil
      with R show ?thesis by simp
    next
      case (Cons b us')
      with R have "?R xs us' x vs" by simp
      then have "?L xs" using Cons.IH by blast
      moreover obtain y where "f a = Inr y" using R Cons by auto
      ultimately show ?thesis by simp
    qed
  qed
qed simp

lemma collect_pure [go_loops]: "collect (\<lambda>x. Inr (g x)) xs = Inr (map g xs)"
  by (induction xs) auto

lemma collect_append_Inr:
  "collect f xs = Inr us \<Longrightarrow> collect f ys = Inr vs \<Longrightarrow> collect f (xs @ ys) = Inr (us @ vs)"
  by (induction xs arbitrary: us) (auto split: sum.splits)

lemma collect_length: "collect f xs = Inr ys \<Longrightarrow> length ys = length xs"
  by (auto simp: collect_Inr_iff dest: list_all2_lengthD)

lemma for_each_append:
  "for_each f (xs @ ys) s = Option.bind (for_each f xs s) (for_each f ys)"
  by (induction xs arbitrary: s) (auto split: bind_splits)

lemma for_each_inv:
  assumes "for_each f xs s = Some s'" and "P s"
    and "\<And>x t t'. x \<in> set xs \<Longrightarrow> P t \<Longrightarrow> f x t = Some t' \<Longrightarrow> P t'"
  shows "P s'"
  using assms
proof (induction xs arbitrary: s)
  case (Cons x xs)
  from Cons.prems(1) obtain t where t: "f x s = Some t" "for_each f xs t = Some s'"
    by (auto split: bind_splits)
  have "P t" by (rule Cons.prems(3) [OF _ Cons.prems(2) t(1)]) simp
  then show ?case by (rule Cons.IH [OF t(2)]) (use Cons.prems(3) in auto)
qed simp

lemma for_each_total:
  assumes "P s" and "\<And>x t. x \<in> set xs \<Longrightarrow> P t \<Longrightarrow> \<exists>t'. f x t = Some t' \<and> P t'"
  shows "\<exists>s'. for_each f xs s = Some s' \<and> P s'"
  using assms
proof (induction xs arbitrary: s)
  case (Cons x xs)
  from Cons.prems(2) [OF _ Cons.prems(1)] obtain t where t: "f x s = Some t" "P t" by auto
  have "\<exists>s'. for_each f xs t = Some s' \<and> P s'"
    by (rule Cons.IH [OF t(2)]) (use Cons.prems(2) in auto)
  with t(1) show ?case by simp
qed simp

lemma for_each_fold [go_loops]: "for_each (\<lambda>x s. Some (g x s)) xs s = Some (fold g xs s)"
  by (induction xs arbitrary: s) auto

subsection \<open>Go maps\<close>

text \<open>
  A Go map is an association list without duplicate keys, written by \<open>AList.update\<close> and
  \<open>AList.delete\<close> and read by \<open>map_of\<close>. The order in which \<open>range\<close> visits a map is not
  specified by the language: a definition that ranges over a map takes the visiting order as a
  function \<open>it\<close> on the association list, and \<open>visits it\<close> says that it visits every key once.
\<close>

type_synonym 'v gomap = "(string \<times> 'v) list"

definition wf_map :: "'v gomap \<Rightarrow> bool" where
  "wf_map m \<longleftrightarrow> distinct (map fst m)"

definition visits :: "('a list \<Rightarrow> 'a list) \<Rightarrow> bool" where
  "visits it \<longleftrightarrow> (\<forall>m. mset (it m) = mset m)"

lemma wf_map_empty [simp, go_maps]: "wf_map []"
  by (simp add: wf_map_def)

lemma wf_map_update [simp, go_maps]: "wf_map m \<Longrightarrow> wf_map (AList.update k v m)"
  by (simp add: wf_map_def distinct_update)

lemma wf_map_delete [simp, go_maps]: "wf_map m \<Longrightarrow> wf_map (AList.delete k m)"
  by (simp add: wf_map_def distinct_delete)

lemma map_of_update [go_maps]: "map_of (AList.update k v m) = (map_of m)(k \<mapsto> v)"
  by (rule update_conv')

lemma map_of_delete [go_maps]: "map_of (AList.delete k m) = (map_of m)(k := None)"
  by (rule delete_conv')

lemma wf_map_mem_iff: "wf_map m \<Longrightarrow> (k, v) \<in> set m \<longleftrightarrow> map_of m k = Some v"
  by (simp add: wf_map_def)

lemma visits_id [simp]: "visits (\<lambda>m. m)"
  by (simp add: visits_def)

lemma visits_set [simp]: "visits it \<Longrightarrow> set (it m) = set m"
  unfolding visits_def by (metis set_mset_mset)

lemma visits_length [simp]: "visits it \<Longrightarrow> length (it m) = length m"
  unfolding visits_def by (metis size_mset)

lemma visits_distinct_keys: "visits it \<Longrightarrow> wf_map m \<Longrightarrow> wf_map (it m)"
  unfolding visits_def wf_map_def by (metis mset_map mset_eq_imp_distinct_iff)

lemma set_map_filter: "set (List.map_filter f xs) = {y. \<exists>x \<in> set xs. f x = Some y}"
  by (induction xs) (auto simp: map_filter_simps split: option.splits)

lemma distinct_keys_map_filter:
  assumes "distinct (map fst xs)" and "\<And>i x y. (i, x) \<in> set xs \<Longrightarrow> f (i, x) = Some y \<Longrightarrow> g y = i"
  shows "distinct (map g (List.map_filter f xs))"
  using assms
proof (induction xs)
  case (Cons a xs)
  obtain i x where a: "a = (i, x)" by force
  have IH: "distinct (map g (List.map_filter f xs))" by (rule Cons.IH) (use Cons.prems in auto)
  show ?case
  proof (cases "f a")
    case (Some y)
    have "g y = i" using Cons.prems(2) [of i x y] Some a by simp
    moreover have "i \<notin> g ` set (List.map_filter f xs)"
      using Cons.prems unfolding a set_map_filter by (auto simp: image_iff) (metis fst_conv list.set_intros(2))
    ultimately show ?thesis using IH Some by (simp add: map_filter_simps)
  qed (use IH in \<open>simp add: map_filter_simps\<close>)
qed (simp add: map_filter_simps)

subsection \<open>Chunks\<close>

text \<open>A list cut into consecutive pieces of \<open>b\<close> elements, the last one possibly shorter.\<close>

function chunks :: "nat \<Rightarrow> 'a list \<Rightarrow> 'a list list" where
  "chunks b xs = (if xs = [] \<or> b = 0 then [] else take b xs # chunks b (drop b xs))"
  by pat_completeness auto
termination
  by (relation "measure (\<lambda>(b, xs). length xs)") auto

declare chunks.simps [simp del]

lemma chunks_Nil [simp]: "chunks b [] = []"
  by (simp add: chunks.simps)

lemma concat_chunks: "0 < b \<Longrightarrow> concat (chunks b xs) = xs"
proof (induction b xs rule: chunks.induct)
  case (1 b xs)
  then show ?case by (cases "xs = []") (simp_all add: chunks.simps [of b xs])
qed

lemma chunks_size: "c \<in> set (chunks b xs) \<Longrightarrow> c \<noteq> [] \<and> length c \<le> b"
proof (induction b xs rule: chunks.induct)
  case (1 b xs)
  then show ?case
    by (cases "xs = [] \<or> b = 0") (auto simp: chunks.simps [of b xs])
qed

lemma chunks_one: "xs \<noteq> [] \<Longrightarrow> chunks (length xs) xs = [xs]"
  by (simp add: chunks.simps [of "length xs" xs])

end
