(* ===== verification/Go_Strings.thy ===== *)
theory Go_Strings
  imports Prelude "HOL-Library.Char_ord" "HOL-Library.List_Lexorder"
begin

text \<open>
  The functions of Go's \<open>strings\<close> and \<open>sort\<close> packages the code calls. A Go string is a
  sequence of bytes, which is what \<open>string\<close> is; \<open><\<close> on strings compares bytes
  lexicographically, which is the order \<open>Char_ord\<close> and \<open>List_Lexorder\<close> give. Every
  separator the code splits at is a single byte, so \<open>Split\<close> takes a character.
\<close>

definition HasPrefix :: "string \<Rightarrow> string \<Rightarrow> bool" where
  "HasPrefix s p \<longleftrightarrow> length p \<le> length s \<and> take (length p) s = p"

definition TrimPrefix :: "string \<Rightarrow> string \<Rightarrow> string" where
  "TrimPrefix s p = (if HasPrefix s p then drop (length p) s else s)"

fun Contains :: "string \<Rightarrow> string \<Rightarrow> bool" where
  "Contains [] p \<longleftrightarrow> p = []"
| "Contains (c # s) p \<longleftrightarrow> HasPrefix (c # s) p \<or> Contains s p"

fun Split :: "string \<Rightarrow> char \<Rightarrow> string list" where
  "Split [] sep = [[]]"
| "Split (c # s) sep =
     (if c = sep then [] # Split s sep
      else (case Split s sep of [] \<Rightarrow> [[c]] | w # ws \<Rightarrow> (c # w) # ws))"

text \<open>\<open>strings.SplitN(s, sep, 2)\<close>.\<close>

definition SplitN2 :: "string \<Rightarrow> char \<Rightarrow> string list" where
  "SplitN2 s sep =
     (if sep \<in> set s then [takeWhile (\<lambda>c. c \<noteq> sep) s, tl (dropWhile (\<lambda>c. c \<noteq> sep) s)] else [s])"

fun Join :: "string list \<Rightarrow> string \<Rightarrow> string" where
  "Join [] sep = []"
| "Join [w] sep = w"
| "Join (w # v # ws) sep = w @ sep @ Join (v # ws) sep"

definition sort_Strings :: "string list \<Rightarrow> string list" where
  "sort_Strings xs = sort xs"

lemma HasPrefix_iff: "HasPrefix s p \<longleftrightarrow> (\<exists>t. s = p @ t)"
  unfolding HasPrefix_def by (metis append_eq_conv_conj append_take_drop_id length_append le_add1)

lemma HasPrefix_append [simp]: "HasPrefix (p @ t) p"
  by (auto simp: HasPrefix_iff)

lemma HasPrefix_Nil [simp]: "HasPrefix s []"
  by (simp add: HasPrefix_def)

lemma HasPrefix_Cons [simp]: "HasPrefix (c # s) (d # p) \<longleftrightarrow> c = d \<and> HasPrefix s p"
  by (auto simp: HasPrefix_def)

lemma HasPrefix_Nil_left [simp]: "HasPrefix [] p \<longleftrightarrow> p = []"
  by (auto simp: HasPrefix_def)

lemma TrimPrefix_append [simp]: "TrimPrefix (p @ t) p = t"
  by (simp add: TrimPrefix_def)

lemma Contains_iff: "Contains s p \<longleftrightarrow> (\<exists>u v. s = u @ p @ v)"
proof (induction s)
  case (Cons c s)
  show ?case (is "?L \<longleftrightarrow> ?R")
  proof
    assume ?L
    then consider t where "c # s = p @ t" | u v where "s = u @ p @ v"
      using Cons.IH by (auto simp: HasPrefix_iff)
    then show ?R
    proof cases
      case (1 t)
      then have "c # s = [] @ p @ t" by simp
      then show ?thesis by blast
    next
      case (2 u v)
      then have "c # s = (c # u) @ p @ v" by simp
      then show ?thesis by blast
    qed
  next
    assume ?R
    then obtain u v where uv: "c # s = u @ p @ v" by blast
    show ?L
    proof (cases u)
      case Nil
      with uv have "HasPrefix (c # s) p" by (auto simp: HasPrefix_iff)
      then show ?thesis by simp
    next
      case (Cons d u')
      with uv have "s = u' @ p @ v" by simp
      with Cons.IH show ?thesis by auto
    qed
  qed
qed auto

lemma Contains_mid [simp, intro]: "Contains (u @ p @ v) p"
  by (auto simp: Contains_iff)

lemma Contains_prefix [simp, intro]: "Contains (p @ v) p"
  using Contains_mid [of "[]" p v] by simp

lemma Contains_suffix [simp, intro]: "Contains (u @ p) p"
  using Contains_mid [of u p "[]"] by simp

lemma Contains_trans: "Contains s t \<Longrightarrow> Contains t p \<Longrightarrow> Contains s p"
  unfolding Contains_iff by (metis append.assoc)

lemma Split_nonempty [simp]: "Split s sep \<noteq> []"
  by (cases s) (auto split: list.split)

lemma Split_no_sep [simp]: "sep \<notin> set s \<Longrightarrow> Split s sep = [s]"
  by (induction s) auto

lemma Split_append_sep [simp]: "sep \<notin> set u \<Longrightarrow> Split (u @ sep # v) sep = u # Split v sep"
  by (induction u) auto

lemma Split_append: "Split (u @ sep # v) sep = Split u sep @ Split v sep"
proof (induction u)
  case (Cons c u)
  obtain w ws where "Split u sep = w # ws" by (metis Split_nonempty neq_Nil_conv)
  with Cons.IH show ?case by simp
qed simp

lemma Split_parts: "w \<in> set (Split s sep) \<Longrightarrow> sep \<notin> set w"
proof (induction s arbitrary: w)
  case (Cons c s)
  then show ?case by (cases "Split s sep") (auto split: if_splits)
qed simp

lemma Join_Cons: "ws \<noteq> [] \<Longrightarrow> Join (w # ws) sep = w @ sep @ Join ws sep"
  by (cases ws) auto

lemma Join_Split: "Join (Split s sep) [sep] = s"
proof (induction s)
  case (Cons c s)
  obtain w ws where ws: "Split s sep = w # ws" by (metis Split_nonempty neq_Nil_conv)
  with Cons.IH show ?case by (cases ws) auto
qed simp

lemma Split_Join:
  "ws \<noteq> [] \<Longrightarrow> (\<And>w. w \<in> set ws \<Longrightarrow> sep \<notin> set w) \<Longrightarrow> Split (Join ws [sep]) sep = ws"
  by (induction ws "[sep]" rule: Join.induct) auto

lemma SplitN2_Cons [simp]: "sep \<notin> set u \<Longrightarrow> SplitN2 (u @ sep # v) sep = [u, v]"
  by (auto simp: SplitN2_def takeWhile_append dropWhile_append)

lemma SplitN2_no_sep [simp]: "sep \<notin> set s \<Longrightarrow> SplitN2 s sep = [s]"
  by (simp add: SplitN2_def)

lemma SplitN2_cases:
  obtains "sep \<notin> set s" "SplitN2 s sep = [s]"
  | u v where "s = u @ sep # v" "sep \<notin> set u" "SplitN2 s sep = [u, v]"
  by (metis SplitN2_Cons SplitN2_no_sep split_list_first)

lemma sort_Strings_eq_iff: "sort_Strings xs = sort_Strings ys \<longleftrightarrow> mset xs = mset ys"
  unfolding sort_Strings_def using properties_for_sort [of "sort ys" xs] by (metis mset_sort sorted_sort)

lemma length_sort_Strings [simp]: "length (sort_Strings xs) = length xs"
  by (simp add: sort_Strings_def)

end
