(* ===== verification/Go_Time.thy ===== *)
theory Go_Time
  imports Prelude "HOL-Library.Log_Nat" "HOL-Library.Word"
begin

text \<open>
  The parts of Go's \<open>time\<close> package and of its numeric conversions the code uses. An instant is
  its number of nanoseconds since the Unix epoch, a \<open>time.Duration\<close> a number of nanoseconds.
  \<open>Duration.Seconds\<close> computes in \<open>float64\<close>: \<open>f64_round\<close> is rounding to the nearest double,
  ties to even, for the magnitudes that occur (no overflow, no subnormal numbers), so that the
  conversion \<open>int32(d.Seconds())\<close> is modelled with its rounding.
\<close>

type_synonym gotime = int
type_synonym duration = int

definition zero_time :: gotime where
  "zero_time = - 62135596800 * 1000000000"

text \<open>\<open>(*metav1.Time).IsZero\<close>: the nil pointer and the zero time are both zero.\<close>

fun IsZero :: "gotime option \<Rightarrow> bool" where
  "IsZero None = True"
| "IsZero (Some t) = (t = zero_time)"

definition Second :: duration where "Second = 1000000000"
definition Minute :: duration where "Minute = 60 * Second"
definition Hour :: duration where "Hour = 60 * Minute"

definition trunc_div :: "int \<Rightarrow> int \<Rightarrow> int" where
  "trunc_div a b = sgn a * sgn b * (\<bar>a\<bar> div \<bar>b\<bar>)"

definition trunc_mod :: "int \<Rightarrow> int \<Rightarrow> int" where
  "trunc_mod a b = a - trunc_div a b * b"

definition round_half_even :: "rat \<Rightarrow> int" where
  "round_half_even y =
     (let f = \<lfloor>y\<rfloor>; d = y - of_int f
      in if d < 1 / 2 then f else if d > 1 / 2 then f + 1 else if even f then f else f + 1)"

text \<open>The exponent \<open>\<lfloor>log2 \<bar>x\<bar>\<rfloor>\<close> of a nonzero number.\<close>

definition f64_exp :: "rat \<Rightarrow> int" where
  "f64_exp x =
     (if 1 \<le> \<bar>x\<bar> then int (floorlog 2 (nat \<lfloor>\<bar>x\<bar>\<rfloor>)) - 1
      else - int (floorlog 2 (nat (\<lceil>1 / \<bar>x\<bar>\<rceil> - 1))))"

definition f64_round :: "rat \<Rightarrow> rat" where
  "f64_round x =
     (if x = 0 then 0
      else (let u = 2 powi (f64_exp x - 52) in of_int (round_half_even (x / u)) * u))"

definition Seconds :: "duration \<Rightarrow> rat" where
  "Seconds d =
     f64_round (of_int (trunc_div d Second) + f64_round (of_int (trunc_mod d Second) / 1000000000))"

definition rat_trunc :: "rat \<Rightarrow> int" where
  "rat_trunc x = (if 0 \<le> x then \<lfloor>x\<rfloor> else \<lceil>x\<rceil>)"

text \<open>
  \<open>int32(x)\<close> for a \<open>float64\<close>: truncation towards zero. When the truncated value does not fit,
  the result is implementation-specific in Go, so it is the argument \<open>oor\<close>.
\<close>

definition float64_to_int32 :: "(rat \<Rightarrow> 32 word) \<Rightarrow> rat \<Rightarrow> 32 word" where
  "float64_to_int32 oor x =
     (let n = rat_trunc x in if - (2 ^ 31) \<le> n \<and> n < 2 ^ 31 then word_of_int n else oor x)"

lemma round_half_even_of_int [simp]: "round_half_even (of_int k) = k"
  by (simp add: round_half_even_def)

lemma f64_exp_of_int_le:
  assumes "k \<noteq> 0" and "\<bar>k\<bar> < 2 ^ 53"
  shows "f64_exp (of_int k) \<le> 52"
proof -
  have abs: "\<bar>of_int k :: rat\<bar> = of_int \<bar>k\<bar>" by simp
  have ge1: "1 \<le> \<bar>of_int k :: rat\<bar>" unfolding abs using assms(1) by simp
  have "\<lfloor>\<bar>of_int k :: rat\<bar>\<rfloor> = \<bar>k\<bar>" unfolding abs by (simp only: floor_of_int)
  moreover have "floorlog 2 (nat \<bar>k\<bar>) \<le> 53"
    using assms(2) by (simp add: floorlog_le_iff nat_less_iff)
  ultimately show ?thesis using ge1 by (simp add: f64_exp_def)
qed

lemma f64_round_of_int:
  assumes "\<bar>k\<bar> < 2 ^ 53"
  shows "f64_round (of_int k) = of_int k"
proof (cases "k = 0")
  case True
  then show ?thesis by (simp add: f64_round_def)
next
  case False
  define e where "e = f64_exp (of_int k)"
  define n where "n = nat (52 - e)"
  have "e \<le> 52" unfolding e_def by (rule f64_exp_of_int_le [OF False assms])
  then have u: "(2::rat) powi (e - 52) = 1 / 2 ^ n"
    by (simp add: n_def power_int_def field_simps)
  have q: "of_int k / (1 / 2 ^ n :: rat) = of_int (k * 2 ^ n)" by simp
  show ?thesis
    using False unfolding f64_round_def e_def [symmetric] Let_def u q round_half_even_of_int by simp
qed

lemma trunc_div_mult_Second [simp]: "trunc_div (k * Second) Second = k"
  by (simp add: trunc_div_def Second_def abs_mult sgn_mult mult_sgn_abs)

lemma Seconds_whole:
  assumes "\<bar>k\<bar> < 2 ^ 53"
  shows "Seconds (k * Second) = of_int k"
proof -
  have "f64_round 0 = 0" by (simp add: f64_round_def)
  then show ?thesis using f64_round_of_int [OF assms] by (simp add: Seconds_def trunc_mod_def)
qed

lemma float64_to_int32_whole:
  "- (2 ^ 31) \<le> k \<Longrightarrow> k < 2 ^ 31 \<Longrightarrow> float64_to_int32 oor (of_int k) = word_of_int k"
  by (simp add: float64_to_int32_def rat_trunc_def Let_def)

lemma float64_to_int32_Seconds_whole:
  assumes "- (2 ^ 31) \<le> k" and "k < 2 ^ 31"
  shows "float64_to_int32 oor (Seconds (k * Second)) = word_of_int k"
proof -
  have "\<bar>k\<bar> < 2 ^ 53" using assms by auto
  then show ?thesis using assms by (simp add: Seconds_whole float64_to_int32_whole)
qed

end
