(* ===== verification/Api_Types.thy ===== *)
theory Api_Types
  imports Go_Strings Go_Time
begin

text \<open>
  The data of the program: the Kubernetes objects it reads (with the fields the code reads), the
  two custom resources of \<open>api/v1alpha1\<close>, the registration entry of \<open>pkg/spireapi\<close>, and the
  libraries outside the repository as records of functions that the definitions take as an
  argument (\<open>lib\<close>: go-spiffe, text/template; \<open>kube\<close>: the Kubernetes API, informer stores and
  label selectors), with what is documented of them as named predicates.
\<close>

subsection \<open>Kubernetes objects\<close>

record ObjectMeta =
  Name :: string
  Namespace :: string
  UID :: string
  CreationTimestamp :: gotime
  DeletionTimestamp :: "gotime option"
  Labels :: "string gomap"
  Finalizers :: "string list"

record PodSpec =
  NodeName :: string
  ServiceAccountName :: string

record Pod =
  pod_Meta :: ObjectMeta
  pod_Spec :: PodSpec
  pod_Phase :: string

record NodeSpec =
  ProviderID :: string

record Node =
  node_Meta :: ObjectMeta
  node_Spec :: NodeSpec

record LabelSelectorRequirement =
  lsr_Key :: string
  lsr_Operator :: string
  lsr_Values :: "string list"

record LabelSelector =
  MatchLabels :: "string gomap"
  MatchExpressions :: "LabelSelectorRequirement list"

record Condition =
  cond_Type :: string
  cond_Status :: string
  cond_Reason :: string
  cond_Message :: string
  cond_LastTransitionTime :: gotime

subsection \<open>The custom resources\<close>

record WorkloadIdentitySpec =
  ApplicationName :: string
  spec_Namespace :: string
  SPIFFEIDTemplate :: string
  ParentIDTemplate :: string
  PodSelector :: "LabelSelector option"
  TTL :: duration
  JWTTTL :: duration
  DNSNameTemplates :: "string list"
  WorkloadSelectorTemplates :: "string list"
  spec_FederatesWith :: "string list"
  spec_Admin :: bool
  spec_Downstream :: bool
  AutoPopulateDNSNames :: bool
  ClusterSelector :: "LabelSelector option"
  spec_Hint :: string

record WorkloadIdentityStats =
  ClustersTargeted :: int
  NamespacesFound :: int
  PodsSelected :: int
  stats_EntriesRegistered :: int
  EntryFailures :: int

record WorkloadIdentityStatus =
  Stats :: WorkloadIdentityStats
  LastReconciliation :: "gotime option"

record WorkloadIdentity =
  wi_Meta :: ObjectMeta
  wi_Spec :: WorkloadIdentitySpec
  wi_Status :: WorkloadIdentityStatus

record EKSClusterRegistrySpec =
  eks_ClusterName :: string
  Region :: string
  AccountID :: string
  Enabled :: bool
  AssumeRoleARN :: string
  eks_Labels :: "string gomap"

record EKSClusterRegistryStatus =
  LastSync :: "gotime option"
  Conditions :: "Condition list"
  NamespaceCount :: int
  ec_EntriesRegistered :: int

record EKSClusterRegistry =
  ec_Meta :: ObjectMeta
  ec_Spec :: EKSClusterRegistrySpec
  ec_Status :: EKSClusterRegistryStatus

abbreviation wi_Name :: "WorkloadIdentity \<Rightarrow> string" where
  "wi_Name i \<equiv> Name (wi_Meta i)"

abbreviation ec_Name :: "EKSClusterRegistry \<Rightarrow> string" where
  "ec_Name c \<equiv> Name (ec_Meta c)"

text \<open>The zero values of the structs, which a declared but unfilled variable has.\<close>

definition zero_meta :: ObjectMeta where
  "zero_meta = \<lparr>Name = [], Namespace = [], UID = [], CreationTimestamp = zero_time,
     DeletionTimestamp = None, Labels = [], Finalizers = []\<rparr>"

definition zero_WorkloadIdentity :: WorkloadIdentity where
  "zero_WorkloadIdentity = \<lparr>wi_Meta = zero_meta,
     wi_Spec = \<lparr>ApplicationName = [], spec_Namespace = [], SPIFFEIDTemplate = [], ParentIDTemplate = [],
       PodSelector = None, TTL = 0, JWTTTL = 0, DNSNameTemplates = [], WorkloadSelectorTemplates = [],
       spec_FederatesWith = [], spec_Admin = False, spec_Downstream = False,
       AutoPopulateDNSNames = False, ClusterSelector = None, spec_Hint = []\<rparr>,
     wi_Status = \<lparr>Stats = \<lparr>ClustersTargeted = 0, NamespacesFound = 0, PodsSelected = 0,
       stats_EntriesRegistered = 0, EntryFailures = 0\<rparr>, LastReconciliation = None\<rparr>\<rparr>"

definition zero_EKSClusterRegistry :: EKSClusterRegistry where
  "zero_EKSClusterRegistry = \<lparr>ec_Meta = zero_meta,
     ec_Spec = \<lparr>eks_ClusterName = [], Region = [], AccountID = [], Enabled = False,
       AssumeRoleARN = [], eks_Labels = []\<rparr>,
     ec_Status = \<lparr>LastSync = None, Conditions = [], NamespaceCount = 0, ec_EntriesRegistered = 0\<rparr>\<rparr>"

subsection \<open>Registration entries\<close>

datatype Selector = Selector (Type: string) (Value: string)

record ('id, 'td) Entry =
  ID :: string
  SPIFFEID :: 'id
  ParentID :: 'id
  Selectors :: "Selector list"
  X509SVIDTTL :: "32 word"
  JWTSVIDTTL :: "32 word"
  FederatesWith :: "'td list"
  Admin :: bool
  Downstream :: bool
  DNSNames :: "string list"
  Hint :: string

subsection \<open>Libraries: go-spiffe and text/template\<close>

record TemplateData =
  td_TrustDomain :: string
  td_ClusterName :: string
  td_ApplicationName :: string
  td_AccountID :: string
  td_Region :: string
  td_InstanceID :: string
  td_PodMeta :: ObjectMeta
  td_PodSpec :: PodSpec
  td_NodeMeta :: ObjectMeta
  td_NodeSpec :: NodeSpec

text \<open>
  The types \<open>'id\<close> and \<open>'td\<close> are go-spiffe's \<open>spiffeid.ID\<close> and \<open>spiffeid.TrustDomain\<close>. A parsed
  template is used only through \<open>Execute\<close>, so it is the function from the data to the rendered
  text. \<open>int32_overflow\<close> is what the platform makes of an out-of-range float conversion.
\<close>

record ('id, 'td) lib =
  FromString :: "string \<Rightarrow> go_error + 'id"
  ID_String :: "'id \<Rightarrow> string"
  ID_TrustDomain :: "'id \<Rightarrow> 'td"
  ID_Path :: "'id \<Rightarrow> string"
  TrustDomainFromString :: "string \<Rightarrow> go_error + 'td"
  TrustDomain_String :: "'td \<Rightarrow> string"
  template_Parse :: "string \<Rightarrow> go_error + (TemplateData \<Rightarrow> go_error + string)"
  int32_overflow :: "rat \<Rightarrow> 32 word"

definition parsed_id :: "('id, 'td) lib \<Rightarrow> 'id \<Rightarrow> bool" where
  "parsed_id l i \<longleftrightarrow> (\<exists>s. FromString l s = Inr i)"

definition parsed_td :: "('id, 'td) lib \<Rightarrow> 'td \<Rightarrow> bool" where
  "parsed_td l t \<longleftrightarrow> (\<exists>s. TrustDomainFromString l s = Inr t)"

text \<open>
  What go-spiffe documents of its parsers: an ID is printed as scheme, trust domain and path,
  and parsing what was printed gives the same ID; the same for trust domains.
\<close>

definition spiffe_documented :: "('id, 'td) lib \<Rightarrow> bool" where
  "spiffe_documented l \<longleftrightarrow>
     (\<forall>i. parsed_id l i \<longrightarrow>
        ID_String l i = ''spiffe://'' @ TrustDomain_String l (ID_TrustDomain l i) @ ID_Path l i \<and>
        FromString l (ID_String l i) = Inr i) \<and>
     (\<forall>t. parsed_td l t \<longrightarrow> TrustDomainFromString l (TrustDomain_String l t) = Inr t)"

definition parsed_entry :: "('id, 'td) lib \<Rightarrow> ('id, 'td) Entry \<Rightarrow> bool" where
  "parsed_entry l e \<longleftrightarrow>
     parsed_id l (SPIFFEID e) \<and> parsed_id l (ParentID e) \<and> list_all (parsed_td l) (FederatesWith e)"

subsection \<open>The Kubernetes API\<close>

text \<open>
  \<open>'w\<close> is the world outside the process (the management cluster, the workload clusters, the
  SPIRE server, the clock); a read is a function of it, a write also returns the new one. \<open>'k\<close>
  is a client for one workload cluster. The label selector interface is used through
  \<open>Matches\<close> only, so a selector is its \<open>Matches\<close> function and \<open>None\<close> is the nil interface.
\<close>

type_synonym labels_Selector = "string gomap \<Rightarrow> bool"

record 'k SharedIndexInformer =
  inf_client :: 'k
  inf_cluster :: string

datatype store_obj = PodObj Pod | OtherObj | DeletedFinalStateUnknown store_obj

record ('w, 'k) kube =
  list_clusters :: "'w \<Rightarrow> go_error + EKSClusterRegistry list"
  list_identities :: "'w \<Rightarrow> go_error + WorkloadIdentity list"
  get_cluster :: "'w \<Rightarrow> string \<Rightarrow> go_error + EKSClusterRegistry"
  get_identity :: "'w \<Rightarrow> string \<Rightarrow> go_error + WorkloadIdentity"
  update_cluster :: "'w \<Rightarrow> EKSClusterRegistry \<Rightarrow> go_error option \<times> 'w"
  update_identity :: "'w \<Rightarrow> WorkloadIdentity \<Rightarrow> go_error option \<times> 'w"
  status_update_cluster :: "'w \<Rightarrow> EKSClusterRegistry \<Rightarrow> go_error option \<times> 'w"
  status_update_identity :: "'w \<Rightarrow> WorkloadIdentity \<Rightarrow> go_error option \<times> 'w"
  IsNotFound :: "go_error \<Rightarrow> bool"
  nodes_Get :: "'w \<Rightarrow> 'k \<Rightarrow> string \<Rightarrow> go_error + Node"
  store_List :: "'w \<Rightarrow> 'k SharedIndexInformer \<Rightarrow> store_obj list"
  LabelSelectorAsSelector :: "LabelSelector option \<Rightarrow> go_error + labels_Selector option"
  time_Now :: "'w \<Rightarrow> gotime"

text \<open>Apimachinery documents that the nil label selector selects no object.\<close>

definition nil_selects_nothing :: "('w, 'k) kube \<Rightarrow> bool" where
  "nil_selects_nothing k \<longleftrightarrow>
     (\<exists>s. LabelSelectorAsSelector k None = Inr (Some s) \<and> (\<forall>ls. \<not> s ls))"

lemma parsed_entry_simps [simp]:
  "parsed_entry l (e\<lparr>ID := x\<rparr>) = parsed_entry l e"
  by (simp add: parsed_entry_def)

lemma spiffe_print_parse:
  "spiffe_documented l \<Longrightarrow> parsed_id l i \<Longrightarrow>
     FromString l (''spiffe://'' @ TrustDomain_String l (ID_TrustDomain l i) @ ID_Path l i) = Inr i"
  unfolding spiffe_documented_def by metis

lemma trust_domain_print_parse:
  "spiffe_documented l \<Longrightarrow> parsed_td l t \<Longrightarrow> TrustDomainFromString l (TrustDomain_String l t) = Inr t"
  unfolding spiffe_documented_def by metis

end
