(* ===== verification/Spire_Client.thy ===== *)
theory Spire_Client
  imports Api_Types
begin

text \<open>
  \<open>pkg/spireapi/client.go\<close>: the conversion between the program's entries and the messages of
  the SPIRE entry API, the single-entry operations with their treatment of statuses, the batch
  operations over \<open>runBatch\<close>, and the paginated listing.

  The gRPC service is outside the repository: it is a record of functions on the world
  (\<open>entry_rpc\<close>), with its documented behaviour as the predicate \<open>server_documented\<close>. The Go
  interface \<open>Client\<close> is a record of operations; \<open>client_contract\<close> states what the reconcilers
  rely on, and is interpreted on the operations of this file.
\<close>

subsection \<open>Messages of the entry API\<close>

record api_Status =
  api_Code :: "32 word"
  api_Message :: string

record api_SPIFFEID =
  api_TrustDomain :: string
  api_Path :: string

record api_Selector =
  api_Type :: string
  api_Value :: string

record api_Entry =
  api_Id :: string
  api_SpiffeId :: "api_SPIFFEID option"
  api_ParentId :: "api_SPIFFEID option"
  api_Selectors :: "api_Selector list"
  api_X509SvidTtl :: "32 word"
  api_JwtSvidTtl :: "32 word"
  api_FederatesWith :: "string list"
  api_Admin :: bool
  api_Downstream :: bool
  api_DnsNames :: "string list"
  api_Hint :: string

record api_Result =
  res_Status :: "api_Status option"
  res_Entry :: "api_Entry option"

record 'w entry_rpc =
  rpc_ListEntries :: "'w \<Rightarrow> string \<Rightarrow> int \<Rightarrow> (go_error + api_Entry list \<times> string) \<times> 'w"
  rpc_BatchCreateEntry :: "'w \<Rightarrow> api_Entry list \<Rightarrow> (go_error + api_Result list) \<times> 'w"
  rpc_BatchUpdateEntry :: "'w \<Rightarrow> api_Entry list \<Rightarrow> (go_error + api_Result list) \<times> 'w"
  rpc_BatchDeleteEntry :: "'w \<Rightarrow> string list \<Rightarrow> (go_error + api_Result list) \<times> 'w"

subsection \<open>Statuses\<close>

record Status =
  Code :: "32 word"
  Message :: string

text \<open>The codes of \<open>google.golang.org/grpc/codes\<close> the code names.\<close>

abbreviation codes_OK :: "32 word" where "codes_OK \<equiv> 0"
abbreviation codes_Unknown :: "32 word" where "codes_Unknown \<equiv> 2"

definition statusFromAPI :: "api_Status option \<Rightarrow> Status" where
  "statusFromAPI st =
     (case st of
        None \<Rightarrow> \<lparr>Code = codes_Unknown, Message = ''status is nil''\<rparr>
      | Some a \<Rightarrow> \<lparr>Code = api_Code a, Message = api_Message a\<rparr>)"

subsection \<open>The client interface\<close>

record ('id, 'td, 'w) Client =
  ListEntries :: "'w \<Rightarrow> ((go_error + ('id, 'td) Entry list) \<times> 'w) option"
  CreateEntry :: "('id, 'td) Entry \<Rightarrow> 'w \<Rightarrow> (go_error option \<times> 'w) option"
  UpdateEntry :: "('id, 'td) Entry \<Rightarrow> 'w \<Rightarrow> (go_error option \<times> 'w) option"
  DeleteEntry :: "string \<Rightarrow> 'w \<Rightarrow> (go_error option \<times> 'w) option"
  BatchCreateEntries :: "('id, 'td) Entry list \<Rightarrow> 'w \<Rightarrow> ((Status list \<times> go_error option) \<times> 'w) option"
  BatchUpdateEntries :: "('id, 'td) Entry list \<Rightarrow> 'w \<Rightarrow> ((Status list \<times> go_error option) \<times> 'w) option"
  BatchDeleteEntries :: "string list \<Rightarrow> 'w \<Rightarrow> ((Status list \<times> go_error option) \<times> 'w) option"

text \<open>The address handed to \<open>grpc.Dial\<close>; \<open>target[0]\<close> of the empty string is out of range.\<close>

definition dial_target :: "string \<Rightarrow> string option" where
  "dial_target target =
     (if HasPrefix target ''/'' then Some (''unix://'' @ target)
      else case target of
             [] \<Rightarrow> None
           | c # _ \<Rightarrow> Some (if c = CHR ''.'' then ''unix:'' @ target else target))"

subsection \<open>Conversions\<close>

definition toAPIEntry :: "('id, 'td) lib \<Rightarrow> ('id, 'td) Entry \<Rightarrow> api_Entry" where
  "toAPIEntry l entry =
     \<lparr>api_Id = ID entry,
      api_SpiffeId = Some \<lparr>api_TrustDomain = TrustDomain_String l (ID_TrustDomain l (SPIFFEID entry)),
                           api_Path = ID_Path l (SPIFFEID entry)\<rparr>,
      api_ParentId = Some \<lparr>api_TrustDomain = TrustDomain_String l (ID_TrustDomain l (ParentID entry)),
                           api_Path = ID_Path l (ParentID entry)\<rparr>,
      api_Selectors = map (\<lambda>sel. \<lparr>api_Type = Type sel, api_Value = Value sel\<rparr>) (Selectors entry),
      api_X509SvidTtl = X509SVIDTTL entry,
      api_JwtSvidTtl = JWTSVIDTTL entry,
      api_FederatesWith = map (TrustDomain_String l) (FederatesWith entry),
      api_Admin = Admin entry,
      api_Downstream = Downstream entry,
      api_DnsNames = DNSNames entry,
      api_Hint = Hint entry\<rparr>"

definition entriesToAPI :: "('id, 'td) lib \<Rightarrow> ('id, 'td) Entry list \<Rightarrow> api_Entry list" where
  "entriesToAPI l entries = map (toAPIEntry l) entries"

text \<open>\<open>None\<close> is the nil dereference of a missing \<open>SpiffeId\<close> or \<open>ParentId\<close>.\<close>

definition fromAPIEntry :: "('id, 'td) lib \<Rightarrow> api_Entry \<Rightarrow> (go_error + ('id, 'td) Entry) option" where
  "fromAPIEntry l e = do {
     si \<leftarrow> api_SpiffeId e;
     case FromString l (''spiffe://'' @ api_TrustDomain si @ api_Path si) of
       Inl err \<Rightarrow> Some (Inl err)
     | Inr spiffeID \<Rightarrow> do {
         prt \<leftarrow> api_ParentId e;
         case FromString l (''spiffe://'' @ api_TrustDomain prt @ api_Path prt) of
           Inl err \<Rightarrow> Some (Inl err)
         | Inr parentID \<Rightarrow>
             (case collect (TrustDomainFromString l) (api_FederatesWith e) of
                Inl err \<Rightarrow> Some (Inl err)
              | Inr federatesWith \<Rightarrow> Some (Inr
                  \<lparr>ID = api_Id e, SPIFFEID = spiffeID, ParentID = parentID,
                   Selectors = map (\<lambda>sel. Selector (api_Type sel) (api_Value sel)) (api_Selectors e),
                   X509SVIDTTL = api_X509SvidTtl e, JWTSVIDTTL = api_JwtSvidTtl e,
                   FederatesWith = federatesWith, Admin = api_Admin e, Downstream = api_Downstream e,
                   DNSNames = api_DnsNames e, Hint = api_Hint e\<rparr>)) } }"

text \<open>The loop over one page of a listing.\<close>

fun fromAPIEntries ::
  "('id, 'td) lib \<Rightarrow> api_Entry list \<Rightarrow> (go_error + ('id, 'td) Entry list) option" where
  "fromAPIEntries l [] = Some (Inr [])"
| "fromAPIEntries l (e # es) = do {
     r \<leftarrow> fromAPIEntry l e;
     case r of
       Inl err \<Rightarrow> Some (Inl err)
     | Inr entry \<Rightarrow> do {
         rs \<leftarrow> fromAPIEntries l es;
         case rs of Inl err \<Rightarrow> Some (Inl err) | Inr entries \<Rightarrow> Some (Inr (entry # entries)) } }"

subsection \<open>Listing\<close>

partial_function (option) ListEntries_loop ::
  "('id, 'td) lib \<Rightarrow> 'w entry_rpc \<Rightarrow> string \<Rightarrow> ('id, 'td) Entry list \<Rightarrow> 'w \<Rightarrow>
   ((go_error + ('id, 'td) Entry list) \<times> 'w) option" where
  "ListEntries_loop l rpc pageToken entries w =
     (case rpc_ListEntries rpc w pageToken 1000 of
        (Inl err, w') \<Rightarrow> Some (Inl (Wrap ''failed to list entries'' err), w')
      | (Inr (es, next), w') \<Rightarrow>
          Option.bind (fromAPIEntries l es) (\<lambda>r.
            case r of
              Inl err \<Rightarrow> Some (Inl err, w')
            | Inr page \<Rightarrow>
                if next = [] then Some (Inr (entries @ page), w')
                else ListEntries_loop l rpc next (entries @ page) w'))"

definition client_ListEntries ::
  "('id, 'td) lib \<Rightarrow> 'w entry_rpc \<Rightarrow> 'w \<Rightarrow> ((go_error + ('id, 'td) Entry list) \<times> 'w) option" where
  "client_ListEntries l rpc w = ListEntries_loop l rpc [] [] w"

subsection \<open>Single entries\<close>

text \<open>The status of the first result, if there is one; a result without a status is dereferenced.\<close>

definition first_status :: "api_Result list \<Rightarrow> api_Status option option" where
  "first_status results =
     (case results of
        [] \<Rightarrow> Some None
      | r # _ \<Rightarrow> (case res_Status r of None \<Rightarrow> None | Some st \<Rightarrow> Some (Some st)))"

definition client_CreateEntry ::
  "('id, 'td) lib \<Rightarrow> 'w entry_rpc \<Rightarrow> ('id, 'td) Entry \<Rightarrow> 'w \<Rightarrow> (go_error option \<times> 'w) option" where
  "client_CreateEntry l rpc entry w =
     (case rpc_BatchCreateEntry rpc w [toAPIEntry l entry] of
        (Inl err, w') \<Rightarrow> Some (Some (Wrap ''failed to create entry'' err), w')
      | (Inr results, w') \<Rightarrow> do {
          st \<leftarrow> first_status results;
          case st of
            None \<Rightarrow> Some (None, w')
          | Some s \<Rightarrow>
              if api_Code s \<noteq> 0 then
                if api_Code s = 6 then Some (None, w')
                else Some (Some (Wrap ''failed to create entry'' (Errs (api_Message s))), w')
              else Some (None, w') })"

definition client_UpdateEntry ::
  "('id, 'td) lib \<Rightarrow> 'w entry_rpc \<Rightarrow> ('id, 'td) Entry \<Rightarrow> 'w \<Rightarrow> (go_error option \<times> 'w) option" where
  "client_UpdateEntry l rpc entry w =
     (case rpc_BatchUpdateEntry rpc w [toAPIEntry l entry] of
        (Inl err, w') \<Rightarrow> Some (Some (Wrap ''failed to update entry'' err), w')
      | (Inr results, w') \<Rightarrow> do {
          st \<leftarrow> first_status results;
          case st of
            None \<Rightarrow> Some (None, w')
          | Some s \<Rightarrow>
              if api_Code s \<noteq> 0
              then Some (Some (Wrap ''failed to update entry'' (Errs (api_Message s))), w')
              else Some (None, w') })"

definition client_DeleteEntry ::
  "'w entry_rpc \<Rightarrow> string \<Rightarrow> 'w \<Rightarrow> (go_error option \<times> 'w) option" where
  "client_DeleteEntry rpc i w =
     (case rpc_BatchDeleteEntry rpc w [i] of
        (Inl err, w') \<Rightarrow> Some (Some (Wrap ''failed to delete entry'' err), w')
      | (Inr results, w') \<Rightarrow> do {
          st \<leftarrow> first_status results;
          case st of
            None \<Rightarrow> Some (None, w')
          | Some s \<Rightarrow>
              if api_Code s \<noteq> 0
              then Some (Some (Wrap ''failed to delete entry'' (Errs (api_Message s))), w')
              else Some (None, w') })"

subsection \<open>Batches\<close>

definition entryCreateBatchSize :: int where "entryCreateBatchSize = 50"
definition entryUpdateBatchSize :: int where "entryUpdateBatchSize = 50"
definition entryDeleteBatchSize :: int where "entryDeleteBatchSize = 200"

partial_function (option) runBatch_loop ::
  "int \<Rightarrow> int \<Rightarrow> (int \<Rightarrow> int \<Rightarrow> 's \<Rightarrow> (go_error option \<times> 's) option) \<Rightarrow> int \<Rightarrow> 's \<Rightarrow>
   (go_error option \<times> 's) option" where
  "runBatch_loop sz batch fn i s =
     (if i < sz then
        (let n = (if sz - i > batch then batch else sz - i)
         in Option.bind (fn i (i + n) s) (\<lambda>(err, s').
              case err of
                Some e \<Rightarrow> Some (Some e, s')
              | None \<Rightarrow> runBatch_loop sz batch fn (i + n) s'))
      else Some (None, s))"

definition runBatch ::
  "int \<Rightarrow> int \<Rightarrow> (int \<Rightarrow> int \<Rightarrow> 's \<Rightarrow> (go_error option \<times> 's) option) \<Rightarrow> 's \<Rightarrow>
   (go_error option \<times> 's) option" where
  "runBatch sz batch fn s =
     (let batch = (if batch < 1 then sz else batch) in runBatch_loop sz batch fn 0 s)"

text \<open>\<open>xs[start:end]\<close>\<close>

definition subslice :: "'a list \<Rightarrow> int \<Rightarrow> int \<Rightarrow> 'a list" where
  "subslice xs start stop = take (nat (stop - start)) (drop (nat start) xs)"

text \<open>
  One batch: the call, then one status per result. The log lines read the batch at the index of
  the result, which is out of range when the server answers with more results than it was asked
  for (in the create loop only where a line is logged).
\<close>

definition batch_body ::
  "('w \<Rightarrow> 'a list \<Rightarrow> (go_error + api_Result list) \<times> 'w) \<Rightarrow> (api_Result \<Rightarrow> bool) \<Rightarrow> 'a list \<Rightarrow>
   'w \<times> Status list \<Rightarrow> (go_error option \<times> 'w \<times> Status list) option" where
  "batch_body call logs batch s =
     (case call (fst s) batch of
        (Inl err, w') \<Rightarrow> Some (Some err, w', snd s)
      | (Inr results, w') \<Rightarrow>
          if list_ex logs (drop (length batch) results) then None
          else Some (None, w', snd s @ map (\<lambda>r. statusFromAPI (res_Status r)) results))"

definition create_logs :: "api_Result \<Rightarrow> bool" where
  "create_logs r \<longleftrightarrow> \<not> (Code (statusFromAPI (res_Status r)) = codes_OK \<and> res_Entry r = None)"

definition client_BatchCreateEntries ::
  "('id, 'td) lib \<Rightarrow> 'w entry_rpc \<Rightarrow> ('id, 'td) Entry list \<Rightarrow> 'w \<Rightarrow>
   ((Status list \<times> go_error option) \<times> 'w) option" where
  "client_BatchCreateEntries l rpc entries w = do {
     (err, w', statuses) \<leftarrow> runBatch (int (length entries)) entryCreateBatchSize
       (\<lambda>start stop. batch_body (rpc_BatchCreateEntry rpc) create_logs
          (entriesToAPI l (subslice entries start stop))) (w, []);
     Some ((statuses, err), w') }"

definition client_BatchUpdateEntries ::
  "('id, 'td) lib \<Rightarrow> 'w entry_rpc \<Rightarrow> ('id, 'td) Entry list \<Rightarrow> 'w \<Rightarrow>
   ((Status list \<times> go_error option) \<times> 'w) option" where
  "client_BatchUpdateEntries l rpc entries w = do {
     (err, w', statuses) \<leftarrow> runBatch (int (length entries)) entryUpdateBatchSize
       (\<lambda>start stop. batch_body (rpc_BatchUpdateEntry rpc) (\<lambda>_. True)
          (entriesToAPI l (subslice entries start stop))) (w, []);
     Some ((statuses, err), w') }"

definition client_BatchDeleteEntries ::
  "'w entry_rpc \<Rightarrow> string list \<Rightarrow> 'w \<Rightarrow> ((Status list \<times> go_error option) \<times> 'w) option" where
  "client_BatchDeleteEntries rpc ids w = do {
     (err, w', statuses) \<leftarrow> runBatch (int (length ids)) entryDeleteBatchSize
       (\<lambda>start stop. batch_body (rpc_BatchDeleteEntry rpc) (\<lambda>_. True) (subslice ids start stop)) (w, []);
     Some ((statuses, err), w') }"

definition NewClient :: "('id, 'td) lib \<Rightarrow> 'w entry_rpc \<Rightarrow> ('id, 'td, 'w) Client" where
  "NewClient l rpc =
     \<lparr>ListEntries = client_ListEntries l rpc,
      CreateEntry = client_CreateEntry l rpc,
      UpdateEntry = client_UpdateEntry l rpc,
      DeleteEntry = client_DeleteEntry rpc,
      BatchCreateEntries = client_BatchCreateEntries l rpc,
      BatchUpdateEntries = client_BatchUpdateEntries l rpc,
      BatchDeleteEntries = client_BatchDeleteEntries rpc\<rparr>"

subsection \<open>Conversions: lemmas\<close>

lemma toAPIEntry_Id [simp]: "api_Id (toAPIEntry l e) = ID e"
  by (simp add: toAPIEntry_def)

lemma map_Selector_roundtrip [simp]:
  "map (\<lambda>sel. Selector (api_Type sel) (api_Value sel))
     (map (\<lambda>sel. \<lparr>api_Type = Type sel, api_Value = Value sel\<rparr>) xs) = xs"
  by (simp add: map_idI comp_def)

lemma collect_trust_domains:
  "spiffe_documented l \<Longrightarrow> list_all (parsed_td l) ts \<Longrightarrow>
     collect (TrustDomainFromString l) (map (TrustDomain_String l) ts) = Inr ts"
  by (induction ts) (auto simp: trust_domain_print_parse)

lemma fromAPI_toAPI:
  assumes "spiffe_documented l" and "parsed_entry l e"
  shows "fromAPIEntry l (toAPIEntry l e) = Some (Inr e)"
  using assms spiffe_print_parse [OF assms(1), of "SPIFFEID e"]
    spiffe_print_parse [OF assms(1), of "ParentID e"]
    collect_trust_domains [OF assms(1), of "FederatesWith e"]
  by (simp add: fromAPIEntry_def toAPIEntry_def parsed_entry_def comp_def)

text \<open>The entry a message decodes to, if it does.\<close>

definition decode :: "('id, 'td) lib \<Rightarrow> api_Entry \<Rightarrow> ('id, 'td) Entry option" where
  "decode l a = (case fromAPIEntry l a of Some (Inr e) \<Rightarrow> Some e | _ \<Rightarrow> None)"

lemma decode_Some_iff: "decode l a = Some e \<longleftrightarrow> fromAPIEntry l a = Some (Inr e)"
  by (auto simp: decode_def split: option.splits sum.splits)

lemma decode_toAPI [simp]:
  "spiffe_documented l \<Longrightarrow> parsed_entry l e \<Longrightarrow> decode l (toAPIEntry l e) = Some e"
  by (simp add: decode_Some_iff fromAPI_toAPI)

lemma decode_ID: "decode l a = Some e \<Longrightarrow> ID e = api_Id a"
  by (auto simp: decode_Some_iff fromAPIEntry_def split: bind_splits sum.splits)

lemma collect_parsed_td:
  "collect (TrustDomainFromString l) ss = Inr ts \<Longrightarrow> list_all (parsed_td l) ts"
  by (induction ss arbitrary: ts) (auto simp: parsed_td_def split: sum.splits)

lemma decode_parsed: "decode l a = Some e \<Longrightarrow> parsed_entry l e"
  by (auto simp: decode_Some_iff fromAPIEntry_def parsed_entry_def parsed_id_def
      dest: collect_parsed_td split: bind_splits sum.splits)

lemma fromAPIEntries_decode:
  "(\<And>a. a \<in> set as \<Longrightarrow> decode l a \<noteq> None) \<Longrightarrow>
     fromAPIEntries l as = Some (Inr (map (\<lambda>a. the (decode l a)) as))"
proof (induction as)
  case (Cons a as)
  from Cons.prems [of a] obtain e where "decode l a = Some e" by auto
  moreover from this have "fromAPIEntry l a = Some (Inr e)" by (simp add: decode_Some_iff)
  moreover have "fromAPIEntries l as = Some (Inr (map (\<lambda>a. the (decode l a)) as))"
    using Cons by simp
  ultimately show ?case by simp
qed simp

subsection \<open>Listing: lemmas\<close>

text \<open>
  \<open>pages rpc w tok as\<close>: from page token \<open>tok\<close> on, the server answers with finitely many pages that
  hold \<open>as\<close>.
\<close>

inductive pages :: "'w entry_rpc \<Rightarrow> 'w \<Rightarrow> string \<Rightarrow> api_Entry list \<Rightarrow> bool" for rpc w where
  last_page: "rpc_ListEntries rpc w tok 1000 = (Inr (as, []), w) \<Longrightarrow> pages rpc w tok as"
| next_page: "rpc_ListEntries rpc w tok 1000 = (Inr (as, nxt), w) \<Longrightarrow> nxt \<noteq> [] \<Longrightarrow>
    pages rpc w nxt bs \<Longrightarrow> pages rpc w tok (as @ bs)"

lemma ListEntries_loop_pages:
  assumes "pages rpc w tok as" and "\<And>a. a \<in> set as \<Longrightarrow> decode l a \<noteq> None"
  shows "ListEntries_loop l rpc tok acc w = Some (Inr (acc @ map (\<lambda>a. the (decode l a)) as), w)"
  using assms
proof (induction arbitrary: acc rule: pages.induct)
  case (last_page tok as)
  then show ?case by (simp add: ListEntries_loop.simps [of l rpc tok] fromAPIEntries_decode)
next
  case (next_page tok as nxt bs)
  then show ?case by (simp add: ListEntries_loop.simps [of l rpc tok] fromAPIEntries_decode)
qed

lemma client_ListEntries_pages:
  assumes "pages rpc w [] as" and "\<And>a. a \<in> set as \<Longrightarrow> decode l a \<noteq> None"
  shows "client_ListEntries l rpc w = Some (Inr (map (\<lambda>a. the (decode l a)) as), w)"
  using ListEntries_loop_pages [OF assms] by (simp add: client_ListEntries_def)

subsection \<open>Batches: lemmas\<close>

text \<open>Reference definition: run the operation on the chunks in order, stop at an error.\<close>

fun run_chunks ::
  "('a list \<Rightarrow> 's \<Rightarrow> (go_error option \<times> 's) option) \<Rightarrow> 'a list list \<Rightarrow> 's \<Rightarrow>
   (go_error option \<times> 's) option" where
  "run_chunks f [] s = Some (None, s)"
| "run_chunks f (c # cs) s =
     Option.bind (f c s) (\<lambda>(err, s').
       case err of Some e \<Rightarrow> Some (Some e, s') | None \<Rightarrow> run_chunks f cs s')"

lemma subslice_eq: "subslice xs (int i) (int i + int n) = take n (drop i xs)"
  by (simp add: subslice_def)

lemma runBatch_loop_chunks:
  assumes "0 < b" and "i \<le> length xs"
  shows "runBatch_loop (int (length xs)) (int b) (\<lambda>start stop. f (subslice xs start stop)) (int i) s =
    run_chunks f (chunks b (drop i xs)) s"
  using assms
proof (induction "length xs - i" arbitrary: i s rule: less_induct)
  case less
  let ?loop = "runBatch_loop (int (length xs)) (int b) (\<lambda>start stop. f (subslice xs start stop))"
  show ?case
  proof (cases "i < length xs")
    case False
    with less.prems show ?thesis
      by (simp add: runBatch_loop.simps chunks.simps [of b "drop i xs"])
  next
    case True
    define n where "n = min b (length xs - i)"
    have n: "(if int (length xs) - int i > int b then int b else int (length xs) - int i) = int n"
      using True by (auto simp: n_def)
    have tk: "take n (drop i xs) = take b (drop i xs)" by (simp add: n_def min_def)
    have dr: "drop b (drop i xs) = drop (i + n) xs"
      using True by (cases "b \<le> length xs - i") (auto simp: n_def add.commute)
    have IH: "?loop (int (i + n)) s' = run_chunks f (chunks b (drop (i + n) xs)) s'" for s'
      using less.prems True by (intro less.hyps) (auto simp: n_def)
    have "?loop (int i) s = Option.bind (f (take b (drop i xs)) s) (\<lambda>(err, s').
        case err of Some e \<Rightarrow> Some (Some e, s') | None \<Rightarrow> ?loop (int (i + n)) s')"
      using True unfolding of_nat_add
      by (subst runBatch_loop.simps) (simp add: n Let_def subslice_eq tk)
    also have "\<dots> = run_chunks f (chunks b (drop i xs)) s"
      unfolding IH using True less.prems
      by (simp add: chunks.simps [of b "drop i xs"] dr del: drop_drop)
    finally show ?thesis .
  qed
qed

lemma runBatch_chunks:
  "runBatch (int (length xs)) batch (\<lambda>start stop. f (subslice xs start stop)) s =
     run_chunks f (chunks (if batch < 1 then length xs else nat batch) xs) s"
proof (cases "batch < 1 \<and> xs = []")
  case True
  then show ?thesis by (simp add: runBatch_def runBatch_loop.simps chunks.simps)
next
  case False
  define b where "b = (if batch < 1 then length xs else nat batch)"
  have "(if batch < 1 then int (length xs) else batch) = int b" and "0 < b"
    using False by (auto simp: b_def)
  then show ?thesis
    using runBatch_loop_chunks [of b 0 xs f s] by (simp add: runBatch_def b_def [symmetric])
qed

lemma run_chunks_total:
  assumes "\<And>c t. c \<in> set cs \<Longrightarrow> P t \<Longrightarrow> \<exists>err t'. f c t = Some (err, t') \<and> P t'" and "P s"
  shows "\<exists>err s'. run_chunks f cs s = Some (err, s') \<and> P s'"
  using assms
proof (induction cs arbitrary: s)
  case (Cons c cs)
  from Cons.prems(1) [of c s] Cons.prems(2) obtain err t where t: "f c s = Some (err, t)" "P t"
    by auto
  have "\<exists>err s'. run_chunks f cs t = Some (err, s') \<and> P s'"
    by (rule Cons.IH) (use Cons.prems t(2) in auto)
  with t show ?case by (cases err) auto
qed simp

subsection \<open>What the SPIRE server documents of the entry API\<close>

text \<open>
  \<open>sv w\<close> are the entries the server holds. A listing is finitely many pages. Deleting answers
  with one result per identifier, OK for one that exists and \<open>NotFound\<close> (5) for one that does
  not. Creating an entry whose identifier is free succeeds unless an entry with the same SPIFFE
  ID, parent ID and selectors exists, which is answered with \<open>AlreadyExists\<close> (6). Updating an
  entry that exists replaces it.
\<close>

definition similar :: "api_Entry \<Rightarrow> api_Entry \<Rightarrow> bool" where
  "similar a b \<longleftrightarrow> api_SpiffeId a = api_SpiffeId b \<and> api_ParentId a = api_ParentId b \<and>
     set (api_Selectors a) = set (api_Selectors b)"

definition answers :: "(go_error + api_Result list) \<times> 'w \<Rightarrow> 32 word list \<Rightarrow> 'w \<Rightarrow> bool" where
  "answers r codes w' \<longleftrightarrow> (\<exists>rs. r = (Inr rs, w') \<and>
     list_all2 (\<lambda>x c. \<exists>st. res_Status x = Some st \<and> api_Code st = c) rs codes)"

definition server_documented :: "'w entry_rpc \<Rightarrow> ('w \<Rightarrow> api_Entry list) \<Rightarrow> bool" where
  "server_documented rpc sv \<longleftrightarrow>
     (\<forall>w. pages rpc w [] (sv w)) \<and>
     (\<forall>w ids. \<exists>w'. sv w' = filter (\<lambda>a. api_Id a \<notin> set ids) (sv w) \<and>
        answers (rpc_BatchDeleteEntry rpc w ids)
          (map (\<lambda>i. if i \<in> api_Id ` set (sv w) then 0 else 5) ids) w') \<and>
     (\<forall>w a. api_Id a \<noteq> [] \<longrightarrow> api_Id a \<notin> api_Id ` set (sv w) \<longrightarrow>
        (if \<exists>x \<in> set (sv w). similar x a
         then \<exists>w'. sv w' = sv w \<and> answers (rpc_BatchCreateEntry rpc w [a]) [6] w'
         else \<exists>w'. sv w' = sv w @ [a] \<and> answers (rpc_BatchCreateEntry rpc w [a]) [0] w')) \<and>
     (\<forall>w a. api_Id a \<in> api_Id ` set (sv w) \<longrightarrow>
        (\<exists>w'. sv w' = map (\<lambda>x. if api_Id x = api_Id a then a else x) (sv w) \<and>
          answers (rpc_BatchUpdateEntry rpc w [a]) [0] w'))"

subsection \<open>The contract of the client interface\<close>

text \<open>
  Two entries register the same workload when SPIFFE ID, parent ID and selectors agree; the
  server refuses the second one.
\<close>

definition same_registration :: "('id, 'td) Entry \<Rightarrow> ('id, 'td) Entry \<Rightarrow> bool" where
  "same_registration a b \<longleftrightarrow> SPIFFEID a = SPIFFEID b \<and> ParentID a = ParentID b \<and>
     set (Selectors a) = set (Selectors b)"

lemma map_add_entries_Cons:
  "ID x \<notin> ID ` set xs \<Longrightarrow>
     m(ID x \<mapsto> x) ++ map_of (map (\<lambda>e. (ID e, e)) xs) = m ++ map_of (map (\<lambda>e. (ID e, e)) (x # xs))"
proof -
  assume "ID x \<notin> ID ` set xs"
  then have "map_of (map (\<lambda>e. (ID e, e)) xs) (ID x) = None"
    by (auto simp: map_of_eq_None_iff)
  then show ?thesis by (auto simp: map_add_def fun_eq_iff split: option.splits)
qed

text \<open>
  \<open>client c\<close> is a connection, \<open>good c w\<close> says that in world \<open>w\<close> the server behind it behaves as
  documented and holds entries the client can decode, and \<open>view c w\<close> is its table of entries by
  identifier.
\<close>

locale client_contract =
  fixes client :: "'c \<Rightarrow> ('id, 'td, 'w) Client"
    and good :: "'c \<Rightarrow> 'w \<Rightarrow> bool"
    and view :: "'c \<Rightarrow> 'w \<Rightarrow> string \<Rightarrow> ('id, 'td) Entry option"
    and valid :: "'c \<Rightarrow> ('id, 'td) Entry \<Rightarrow> bool"
  assumes list_law: "good c w \<Longrightarrow>
      \<exists>es. ListEntries (client c) w = Some (Inr es, w) \<and> distinct (map ID es) \<and>
        view c w = map_of (map (\<lambda>e. (ID e, e)) es)"
    and delete_law: "good c w \<Longrightarrow>
      \<exists>err w'. DeleteEntry (client c) i w = Some (err, w') \<and> good c w' \<and>
        view c w' = (view c w)(i := None)"
    and create_law: "good c w \<Longrightarrow> valid c e \<Longrightarrow> ID e \<noteq> [] \<Longrightarrow> view c w (ID e) = None \<Longrightarrow>
      (\<And>x. x \<in> ran (view c w) \<Longrightarrow> \<not> same_registration x e) \<Longrightarrow>
      \<exists>w'. CreateEntry (client c) e w = Some (None, w') \<and> good c w' \<and>
        view c w' = (view c w)(ID e \<mapsto> e)"
    and create_dup_law: "good c w \<Longrightarrow> valid c e \<Longrightarrow> ID e \<noteq> [] \<Longrightarrow> view c w (ID e) = None \<Longrightarrow>
      x \<in> ran (view c w) \<Longrightarrow> same_registration x e \<Longrightarrow>
      \<exists>w'. CreateEntry (client c) e w = Some (None, w') \<and> good c w' \<and> view c w' = view c w"
    and update_law: "good c w \<Longrightarrow> valid c e \<Longrightarrow> ID e \<in> dom (view c w) \<Longrightarrow>
      \<exists>w'. UpdateEntry (client c) e w = Some (None, w') \<and> good c w' \<and>
        view c w' = (view c w)(ID e \<mapsto> e)"
    and batch_delete_law: "good c w \<Longrightarrow>
      \<exists>sts w'. BatchDeleteEntries (client c) ids w = Some ((sts, None), w') \<and> good c w' \<and>
        length sts = length ids \<and> view c w' = view c w |` (- set ids)"
begin

lemma list_entries:
  assumes "good c w"
  obtains es where "ListEntries (client c) w = Some (Inr es, w)" "distinct (map ID es)"
    "view c w = map_of (map (\<lambda>e. (ID e, e)) es)"
    "\<And>e. e \<in> set es \<longleftrightarrow> view c w (ID e) = Some e"
proof -
  from list_law [OF assms] obtain es where es: "ListEntries (client c) w = Some (Inr es, w)"
    "distinct (map ID es)" "view c w = map_of (map (\<lambda>e. (ID e, e)) es)" by blast
  have "e \<in> set es \<longleftrightarrow> view c w (ID e) = Some e" for e
  proof -
    have "distinct (map fst (map (\<lambda>e. (ID e, e)) es))" using es(2) by (simp add: comp_def)
    then show ?thesis unfolding es(3) by (simp add: image_iff)
  qed
  with es show thesis using that by blast
qed

text \<open>A loop that deletes the identifiers of a list removes exactly those.\<close>

lemma delete_each:
  assumes "good c w"
  shows "\<exists>w'. for_each (\<lambda>e w. map_option snd (DeleteEntry (client c) (g e) w)) xs w = Some w' \<and>
    good c w' \<and> view c w' = view c w |` (- g ` set xs)"
  using assms
proof (induction xs arbitrary: w)
  case (Cons x xs)
  from delete_law [OF Cons.prems] obtain err w1 where w1: "DeleteEntry (client c) (g x) w = Some (err, w1)"
    "good c w1" "view c w1 = (view c w)(g x := None)" by blast
  from Cons.IH [OF w1(2)] obtain w' where w': "for_each (\<lambda>e w. map_option snd (DeleteEntry (client c) (g e) w)) xs w1 = Some w'"
    "good c w'" "view c w' = view c w1 |` (- g ` set xs)" by blast
  moreover have "view c w1 |` (- g ` set xs) = view c w |` (- g ` set (x # xs))"
    unfolding w1(3) by (auto simp: restrict_map_def fun_eq_iff)
  ultimately show ?case using w1(1) by simp
qed (simp add: restrict_map_def)

lemma update_each:
  assumes "good c w" and "\<And>e. e \<in> set xs \<Longrightarrow> valid c e \<and> ID e \<in> dom (view c w)"
    and "distinct (map ID xs)"
  shows "\<exists>w'. for_each (\<lambda>e w. map_option snd (UpdateEntry (client c) e w)) xs w = Some w' \<and>
    good c w' \<and> view c w' = view c w ++ map_of (map (\<lambda>e. (ID e, e)) xs)"
  using assms
proof (induction xs arbitrary: w)
  case (Cons x xs)
  from update_law [of c w x] Cons.prems obtain w1 where w1: "UpdateEntry (client c) x w = Some (None, w1)"
    "good c w1" "view c w1 = (view c w)(ID x \<mapsto> x)" by auto
  have "\<And>e. e \<in> set xs \<Longrightarrow> valid c e \<and> ID e \<in> dom (view c w1)"
    using Cons.prems(2) unfolding w1(3) by auto
  from Cons.IH [OF w1(2) this] Cons.prems(3) obtain w' where
    w': "for_each (\<lambda>e w. map_option snd (UpdateEntry (client c) e w)) xs w1 = Some w'"
    "good c w'" "view c w' = view c w1 ++ map_of (map (\<lambda>e. (ID e, e)) xs)" by auto
  have "ID x \<notin> ID ` set xs" using Cons.prems(3) by simp
  then have "view c w' = view c w ++ map_of (map (\<lambda>e. (ID e, e)) (x # xs))"
    unfolding w'(3) w1(3) by (rule map_add_entries_Cons)
  with w1(1) w'(1,2) show ?case by (simp del: map_of.simps list.map)
qed simp

lemma create_each:
  assumes "good c w"
    and "\<And>e. e \<in> set xs \<Longrightarrow> valid c e \<and> ID e \<noteq> [] \<and> view c w (ID e) = None"
    and "\<And>e x. e \<in> set xs \<Longrightarrow> x \<in> ran (view c w) \<Longrightarrow> \<not> same_registration x e"
    and "\<And>e x. e \<in> set xs \<Longrightarrow> x \<in> set xs \<Longrightarrow> same_registration x e \<Longrightarrow> ID x = ID e"
    and "distinct (map ID xs)"
  shows "\<exists>w'. for_each (\<lambda>e w. map_option snd (CreateEntry (client c) e w)) xs w = Some w' \<and>
    good c w' \<and> view c w' = view c w ++ map_of (map (\<lambda>e. (ID e, e)) xs)"
  using assms
proof (induction xs arbitrary: w)
  case (Cons x xs)
  from create_law [of c w x] Cons.prems(1-3) obtain w1 where
    w1: "CreateEntry (client c) x w = Some (None, w1)" "good c w1" "view c w1 = (view c w)(ID x \<mapsto> x)"
    by auto
  have notx: "ID x \<notin> ID ` set xs" using Cons.prems(5) by simp
  have 1: "valid c e \<and> ID e \<noteq> [] \<and> view c w1 (ID e) = None" if "e \<in> set xs" for e
    using Cons.prems(2) [of e] that notx unfolding w1(3) by (metis fun_upd_other image_eqI list.set_intros(2))
  have 2: "\<not> same_registration y e" if "e \<in> set xs" "y \<in> ran (view c w1)" for e y
  proof -
    have "y = x \<or> y \<in> ran (view c w)" using that(2) unfolding w1(3) ran_def by (auto split: if_splits)
    then show ?thesis
    proof
      assume "y = x"
      then show ?thesis using Cons.prems(4) [of e x] that(1) notx by auto
    next
      assume "y \<in> ran (view c w)"
      then show ?thesis using Cons.prems(3) [of e y] that(1) by simp
    qed
  qed
  have 3: "ID y = ID e" if "e \<in> set xs" "y \<in> set xs" "same_registration y e" for e y
    by (rule Cons.prems(4)) (use that in auto)
  have 4: "distinct (map ID xs)" using Cons.prems(5) by simp
  from Cons.IH [OF w1(2) 1 2 3 4] obtain w' where
    w': "for_each (\<lambda>e w. map_option snd (CreateEntry (client c) e w)) xs w1 = Some w'"
    "good c w'" "view c w' = view c w1 ++ map_of (map (\<lambda>e. (ID e, e)) xs)" by blast
  have "view c w' = view c w ++ map_of (map (\<lambda>e. (ID e, e)) (x # xs))"
    unfolding w'(3) w1(3) using notx by (rule map_add_entries_Cons)
  with w1(1) w'(1,2) show ?case by (simp del: map_of.simps list.map)
qed simp

end

subsection \<open>The client of this file meets the contract\<close>

type_synonym ('id, 'td, 'w) connection = "('id, 'td) lib \<times> 'w entry_rpc \<times> ('w \<Rightarrow> api_Entry list)"

definition spire_client :: "('id, 'td, 'w) connection \<Rightarrow> ('id, 'td, 'w) Client" where
  "spire_client c = (case c of (l, rpc, sv) \<Rightarrow> NewClient l rpc)"

definition spire_good :: "('id, 'td, 'w) connection \<Rightarrow> 'w \<Rightarrow> bool" where
  "spire_good c w = (case c of (l, rpc, sv) \<Rightarrow>
     spiffe_documented l \<and> server_documented rpc sv \<and>
     (\<exists>es. sv w = map (toAPIEntry l) es \<and> list_all (parsed_entry l) es \<and> distinct (map ID es)))"

definition spire_view ::
  "('id, 'td, 'w) connection \<Rightarrow> 'w \<Rightarrow> string \<Rightarrow> ('id, 'td) Entry option" where
  "spire_view c w = (case c of (l, rpc, sv) \<Rightarrow>
     map_of (map (\<lambda>a. (api_Id a, the (decode l a))) (sv w)))"

definition spire_valid :: "('id, 'td, 'w) connection \<Rightarrow> ('id, 'td) Entry \<Rightarrow> bool" where
  "spire_valid c e = (case c of (l, rpc, sv) \<Rightarrow> parsed_entry l e)"

abbreviation by_id :: "('id, 'td) Entry list \<Rightarrow> string \<Rightarrow> ('id, 'td) Entry option" where
  "by_id es \<equiv> map_of (map (\<lambda>e. (ID e, e)) es)"

lemma by_id_Some: "distinct (map ID es) \<Longrightarrow> by_id es i = Some e \<longleftrightarrow> e \<in> set es \<and> ID e = i"
proof -
  assume "distinct (map ID es)"
  then have "distinct (map fst (map (\<lambda>e. (ID e, e)) es))" by (simp add: comp_def)
  then show ?thesis by (auto simp: image_iff)
qed

lemma ran_by_id: "distinct (map ID es) \<Longrightarrow> ran (by_id es) = set es"
  by (auto simp: ran_def by_id_Some)

lemma dom_by_id: "dom (by_id es) = ID ` set es"
  by (auto simp: dom_map_of_conv_image_fst image_image)

lemma by_id_None: "by_id es i = None \<longleftrightarrow> i \<notin> ID ` set es"
  by (auto simp: map_of_eq_None_iff image_image)

lemma by_id_replace:
  "ID e \<in> ID ` set es \<Longrightarrow>
     by_id (map (\<lambda>x. if ID x = ID e then e else x) es) = (by_id es)(ID e \<mapsto> e)"
proof (induction es)
  case (Cons x es)
  show ?case
  proof (cases "ID e \<in> ID ` set es")
    case True
    with Cons.IH show ?thesis by (auto simp: fun_eq_iff)
  next
    case False
    then have "ID x = ID e" using Cons.prems by auto
    moreover have "map (\<lambda>x. if ID x = ID e then e else x) es = es"
      using False by (intro map_idI) (metis image_eqI)
    ultimately show ?thesis by (auto simp: fun_eq_iff)
  qed
qed simp

lemma view_of_entries:
  assumes "spiffe_documented l" and "list_all (parsed_entry l) es" and "sv w = map (toAPIEntry l) es"
  shows "spire_view (l, rpc, sv) w = by_id es"
proof -
  have "map (\<lambda>a. (api_Id a, the (decode l a))) (sv w) = map (\<lambda>e. (ID e, e)) es"
    using assms by (auto simp: list_all_iff)
  then show ?thesis by (simp add: spire_view_def)
qed

lemma spire_goodE:
  assumes "spire_good (l, rpc, sv) w"
  obtains es where "spiffe_documented l" "server_documented rpc sv" "sv w = map (toAPIEntry l) es"
    "list_all (parsed_entry l) es" "distinct (map ID es)" "spire_view (l, rpc, sv) w = by_id es"
  using assms view_of_entries [of l _ sv w rpc] unfolding spire_good_def by auto

lemma spire_goodI:
  assumes "spiffe_documented l" "server_documented rpc sv" "sv w = map (toAPIEntry l) es"
    "list_all (parsed_entry l) es" "distinct (map ID es)"
  shows "spire_good (l, rpc, sv) w \<and> spire_view (l, rpc, sv) w = by_id es"
  using assms view_of_entries [of l es sv w rpc] unfolding spire_good_def by auto

lemma api_id_inject:
  assumes "spiffe_documented l" "parsed_id l i" "parsed_id l j"
    and "TrustDomain_String l (ID_TrustDomain l i) = TrustDomain_String l (ID_TrustDomain l j)"
    and "ID_Path l i = ID_Path l j"
  shows "i = j"
  using spiffe_print_parse [OF assms(1,2)] spiffe_print_parse [OF assms(1,3)] assms(4,5) by simp

lemma similar_toAPI:
  assumes "spiffe_documented l" "parsed_entry l a" "parsed_entry l b"
  shows "similar (toAPIEntry l a) (toAPIEntry l b) \<longleftrightarrow> same_registration a b"
proof -
  have "inj (\<lambda>sel. \<lparr>api_Type = Type sel, api_Value = Value sel\<rparr>)"
    by (rule injI) (simp add: Selector.expand)
  then show ?thesis using assms
    by (auto simp: similar_def same_registration_def toAPIEntry_def parsed_entry_def
        inj_image_eq_iff dest: api_id_inject)
qed

lemma answers_single:
  "answers r [c] w' \<Longrightarrow> \<exists>x st rs. r = (Inr [x], w') \<and> res_Status x = Some st \<and> api_Code st = c"
  by (auto simp: answers_def list_all2_Cons2)

lemma client_list_law:
  assumes "spire_good (l, rpc, sv) w"
  shows "\<exists>es. client_ListEntries l rpc w = Some (Inr es, w) \<and> distinct (map ID es) \<and>
    spire_view (l, rpc, sv) w = by_id es"
proof -
  from assms obtain es where es: "spiffe_documented l" "server_documented rpc sv"
    "sv w = map (toAPIEntry l) es" "list_all (parsed_entry l) es" "distinct (map ID es)"
    "spire_view (l, rpc, sv) w = by_id es" by (rule spire_goodE)
  have "pages rpc w [] (sv w)" using es(2) by (simp add: server_documented_def)
  moreover have "decode l a \<noteq> None" if "a \<in> set (sv w)" for a
    using that es(1,3,4) by (auto simp: list_all_iff)
  moreover have "map (\<lambda>a. the (decode l a)) (sv w) = es"
    using es(1,3,4) by (auto simp: list_all_iff intro: map_idI)
  ultimately show ?thesis using es(5,6) client_ListEntries_pages [of rpc w "sv w" l] by simp
qed

lemma filter_toAPI:
  "filter (\<lambda>a. api_Id a \<notin> I) (map (toAPIEntry l) es) = map (toAPIEntry l) (filter (\<lambda>e. ID e \<notin> I) es)"
  by (simp add: filter_map comp_def)

lemma by_id_filter: "by_id (filter (\<lambda>e. ID e \<notin> I) es) = by_id es |` (- I)"
  by (induction es) (auto simp: restrict_map_def fun_eq_iff)

lemma good_after_delete:
  assumes "spire_good (l, rpc, sv) w" and "sv w' = filter (\<lambda>a. api_Id a \<notin> I) (sv w)"
  shows "spire_good (l, rpc, sv) w' \<and> spire_view (l, rpc, sv) w' = spire_view (l, rpc, sv) w |` (- I)"
proof -
  from assms(1) obtain es where es: "spiffe_documented l" "server_documented rpc sv"
    "sv w = map (toAPIEntry l) es" "list_all (parsed_entry l) es" "distinct (map ID es)"
    "spire_view (l, rpc, sv) w = by_id es" by (rule spire_goodE)
  let ?es = "filter (\<lambda>e. ID e \<notin> I) es"
  have sv': "sv w' = map (toAPIEntry l) ?es" unfolding assms(2) es(3) by (rule filter_toAPI)
  have p: "list_all (parsed_entry l) ?es" using es(4) by (auto simp: list_all_iff)
  have d: "distinct (map ID ?es)" using es(5) by (rule distinct_map_filter)
  show ?thesis using spire_goodI [OF es(1,2) sv' p d] by (simp add: es(6) by_id_filter)
qed

lemma client_delete_law:
  assumes "spire_good (l, rpc, sv) w"
  shows "\<exists>err w'. client_DeleteEntry rpc i w = Some (err, w') \<and> spire_good (l, rpc, sv) w' \<and>
    spire_view (l, rpc, sv) w' = (spire_view (l, rpc, sv) w)(i := None)"
proof -
  have "server_documented rpc sv" using assms by (simp add: spire_good_def)
  then obtain w' where sv': "sv w' = filter (\<lambda>a. api_Id a \<notin> set [i]) (sv w)"
    and ans: "answers (rpc_BatchDeleteEntry rpc w [i])
      (map (\<lambda>i. if i \<in> api_Id ` set (sv w) then 0 else 5) [i]) w'"
    unfolding server_documented_def by blast
  from ans have "\<exists>err. client_DeleteEntry rpc i w = Some (err, w')"
    by (auto dest!: answers_single simp: client_DeleteEntry_def first_status_def split: if_splits)
  moreover have "spire_view (l, rpc, sv) w |` (- set [i]) = (spire_view (l, rpc, sv) w)(i := None)"
    by (auto simp: restrict_map_def)
  ultimately show ?thesis using good_after_delete [OF assms sv'] by auto
qed

lemma server_create:
  "server_documented rpc sv \<Longrightarrow> api_Id a \<noteq> [] \<Longrightarrow> api_Id a \<notin> api_Id ` set (sv w) \<Longrightarrow>
     (if \<exists>x \<in> set (sv w). similar x a
      then \<exists>w'. sv w' = sv w \<and> answers (rpc_BatchCreateEntry rpc w [a]) [6] w'
      else \<exists>w'. sv w' = sv w @ [a] \<and> answers (rpc_BatchCreateEntry rpc w [a]) [0] w')"
  unfolding server_documented_def by (elim conjE) (drule (1) spec | simp)+

lemma create_rpc:
  assumes "spire_good (l, rpc, sv) w" "parsed_entry l e" "ID e \<noteq> []" "spire_view (l, rpc, sv) w (ID e) = None"
  obtains w' where "client_CreateEntry l rpc e w = Some (None, w')"
    "if \<exists>x \<in> ran (spire_view (l, rpc, sv) w). same_registration x e then sv w' = sv w
     else sv w' = sv w @ [toAPIEntry l e]"
proof -
  from assms(1) obtain es where es: "spiffe_documented l" "server_documented rpc sv"
    "sv w = map (toAPIEntry l) es" "list_all (parsed_entry l) es" "distinct (map ID es)"
    "spire_view (l, rpc, sv) w = by_id es" by (rule spire_goodE)
  have sim: "(\<exists>x \<in> set (sv w). similar x (toAPIEntry l e)) \<longleftrightarrow>
      (\<exists>x \<in> ran (spire_view (l, rpc, sv) w). same_registration x e)"
  proof -
    have "similar (toAPIEntry l x) (toAPIEntry l e) \<longleftrightarrow> same_registration x e" if "x \<in> set es" for x
      by (rule similar_toAPI [OF es(1) _ assms(2)]) (use that es(4) in \<open>simp add: list_all_iff\<close>)
    then show ?thesis unfolding es(6) ran_by_id [OF es(5)] es(3) by auto
  qed
  have "ID e \<notin> ID ` set es" using assms(4) unfolding es(6) by_id_None .
  then have "api_Id (toAPIEntry l e) \<notin> api_Id ` set (sv w)" unfolding es(3) by auto
  then have srv: "if \<exists>x \<in> set (sv w). similar x (toAPIEntry l e)
      then \<exists>w'. sv w' = sv w \<and> answers (rpc_BatchCreateEntry rpc w [toAPIEntry l e]) [6] w'
      else \<exists>w'. sv w' = sv w @ [toAPIEntry l e] \<and> answers (rpc_BatchCreateEntry rpc w [toAPIEntry l e]) [0] w'"
    by (intro server_create [OF es(2)]) (simp_all add: assms(3))
  have "client_CreateEntry l rpc e w = Some (None, w')"
    if "answers (rpc_BatchCreateEntry rpc w [toAPIEntry l e]) [c] w'" and "c = 0 \<or> c = 6" for c w'
    using that by (auto dest!: answers_single simp: client_CreateEntry_def first_status_def)
  with srv that show thesis unfolding sim [symmetric] by (metis (full_types))
qed

lemma client_create_law:
  assumes "spire_good (l, rpc, sv) w" "parsed_entry l e" "ID e \<noteq> []" "spire_view (l, rpc, sv) w (ID e) = None"
    and "\<And>x. x \<in> ran (spire_view (l, rpc, sv) w) \<Longrightarrow> \<not> same_registration x e"
  shows "\<exists>w'. client_CreateEntry l rpc e w = Some (None, w') \<and> spire_good (l, rpc, sv) w' \<and>
    spire_view (l, rpc, sv) w' = (spire_view (l, rpc, sv) w)(ID e \<mapsto> e)"
proof -
  obtain w' where w': "client_CreateEntry l rpc e w = Some (None, w')" "sv w' = sv w @ [toAPIEntry l e]"
    using create_rpc [OF assms(1-4)] assms(5) by metis
  from assms(1) obtain es where es: "spiffe_documented l" "server_documented rpc sv"
    "sv w = map (toAPIEntry l) es" "list_all (parsed_entry l) es" "distinct (map ID es)"
    "spire_view (l, rpc, sv) w = by_id es" by (rule spire_goodE)
  have new: "ID e \<notin> ID ` set es" using assms(4) unfolding es(6) by_id_None .
  have m: "sv w' = map (toAPIEntry l) (es @ [e])" unfolding w'(2) es(3) by simp
  have p: "list_all (parsed_entry l) (es @ [e])" using es(4) assms(2) by simp
  have d: "distinct (map ID (es @ [e]))" using es(5) new by simp
  note spire_goodI [OF es(1,2) m p d]
  moreover have "by_id (es @ [e]) = (by_id es)(ID e \<mapsto> e)"
  proof
    fix i
    have "by_id es (ID e) = None" using new unfolding by_id_None .
    then show "by_id (es @ [e]) i = ((by_id es)(ID e \<mapsto> e)) i"
      by (cases "i = ID e") (auto simp: map_add_def split: option.splits)
  qed
  ultimately show ?thesis using w'(1) es(6) by metis
qed

lemma client_create_dup_law:
  assumes "spire_good (l, rpc, sv) w" "parsed_entry l e" "ID e \<noteq> []" "spire_view (l, rpc, sv) w (ID e) = None"
    and "x \<in> ran (spire_view (l, rpc, sv) w)" "same_registration x e"
  shows "\<exists>w'. client_CreateEntry l rpc e w = Some (None, w') \<and> spire_good (l, rpc, sv) w' \<and>
    spire_view (l, rpc, sv) w' = spire_view (l, rpc, sv) w"
proof -
  obtain w' where "client_CreateEntry l rpc e w = Some (None, w')" "sv w' = sv w"
    using create_rpc [OF assms(1-4)] assms(5,6) by metis
  then show ?thesis using assms(1) by (auto simp: spire_good_def spire_view_def)
qed

lemma client_update_law:
  assumes "spire_good (l, rpc, sv) w" "parsed_entry l e" "ID e \<in> dom (spire_view (l, rpc, sv) w)"
  shows "\<exists>w'. client_UpdateEntry l rpc e w = Some (None, w') \<and> spire_good (l, rpc, sv) w' \<and>
    spire_view (l, rpc, sv) w' = (spire_view (l, rpc, sv) w)(ID e \<mapsto> e)"
proof -
  from assms(1) obtain es where es: "spiffe_documented l" "server_documented rpc sv"
    "sv w = map (toAPIEntry l) es" "list_all (parsed_entry l) es" "distinct (map ID es)"
    "spire_view (l, rpc, sv) w = by_id es" by (rule spire_goodE)
  let ?es = "map (\<lambda>x. if ID x = ID e then e else x) es"
  have ex: "ID e \<in> ID ` set es" using assms(3) unfolding es(6) by (simp add: dom_by_id)
  then have "api_Id (toAPIEntry l e) \<in> api_Id ` set (sv w)" unfolding es(3) by force
  then obtain w' where sv': "sv w' = map (\<lambda>x. if api_Id x = api_Id (toAPIEntry l e) then toAPIEntry l e else x) (sv w)"
    and ans: "answers (rpc_BatchUpdateEntry rpc w [toAPIEntry l e]) [0] w'"
    using es(2) unfolding server_documented_def by blast
  have m: "sv w' = map (toAPIEntry l) ?es" unfolding sv' es(3) by simp
  have p: "list_all (parsed_entry l) ?es" using es(4) assms(2) by (auto simp: list_all_iff)
  have ids: "map ID ?es = map ID es" by auto
  have d: "distinct (map ID ?es)" unfolding ids by (rule es(5))
  have v: "by_id ?es = (by_id es)(ID e \<mapsto> e)" by (rule by_id_replace [OF ex])
  have "client_UpdateEntry l rpc e w = Some (None, w')"
    using ans by (auto dest!: answers_single simp: client_UpdateEntry_def first_status_def)
  then show ?thesis using spire_goodI [OF es(1,2) m p d] v es(6) by metis
qed

lemma batch_delete_chunk:
  assumes "spire_good (l, rpc, sv) w"
  shows "\<exists>w' sts'. batch_body (rpc_BatchDeleteEntry rpc) (\<lambda>_. True) ids (w, sts) =
      Some (None, w', sts @ sts') \<and> length sts' = length ids \<and> spire_good (l, rpc, sv) w' \<and>
      spire_view (l, rpc, sv) w' = spire_view (l, rpc, sv) w |` (- set ids)"
proof -
  have "server_documented rpc sv" using assms by (simp add: spire_good_def)
  then obtain w' where sv': "sv w' = filter (\<lambda>a. api_Id a \<notin> set ids) (sv w)"
    and ans: "answers (rpc_BatchDeleteEntry rpc w ids)
      (map (\<lambda>i. if i \<in> api_Id ` set (sv w) then 0 else 5) ids) w'"
    unfolding server_documented_def by blast
  from ans obtain rs where "rpc_BatchDeleteEntry rpc w ids = (Inr rs, w')" "length rs = length ids"
    by (auto simp: answers_def dest: list_all2_lengthD)
  then have "batch_body (rpc_BatchDeleteEntry rpc) (\<lambda>_. True) ids (w, sts) =
      Some (None, w', sts @ map (\<lambda>r. statusFromAPI (res_Status r)) rs)"
    by (simp add: batch_body_def)
  moreover have "length (map (\<lambda>r. statusFromAPI (res_Status r)) rs) = length ids"
    using \<open>length rs = length ids\<close> by simp
  ultimately show ?thesis using good_after_delete [OF assms sv'] by blast
qed

lemma batch_delete_chunks:
  assumes "spire_good (l, rpc, sv) w"
  shows "\<exists>w' sts'. run_chunks (batch_body (rpc_BatchDeleteEntry rpc) (\<lambda>_. True)) cs (w, sts) =
      Some (None, w', sts @ sts') \<and> length sts' = length (concat cs) \<and> spire_good (l, rpc, sv) w' \<and>
      spire_view (l, rpc, sv) w' = spire_view (l, rpc, sv) w |` (- set (concat cs))"
  using assms
proof (induction cs arbitrary: w sts)
  case Nil
  then show ?case by (simp add: restrict_map_def)
next
  case (Cons c cs)
  from batch_delete_chunk [OF Cons.prems] obtain w1 s1 where
    w1: "batch_body (rpc_BatchDeleteEntry rpc) (\<lambda>_. True) c (w, sts) = Some (None, w1, sts @ s1)"
    "length s1 = length c" "spire_good (l, rpc, sv) w1"
    "spire_view (l, rpc, sv) w1 = spire_view (l, rpc, sv) w |` (- set c)" by blast
  from Cons.IH [OF w1(3)] obtain w2 s2 where
    w2: "run_chunks (batch_body (rpc_BatchDeleteEntry rpc) (\<lambda>_. True)) cs (w1, sts @ s1) =
      Some (None, w2, (sts @ s1) @ s2)" "length s2 = length (concat cs)" "spire_good (l, rpc, sv) w2"
    "spire_view (l, rpc, sv) w2 = spire_view (l, rpc, sv) w1 |` (- set (concat cs))" by blast
  have "spire_view (l, rpc, sv) w2 = spire_view (l, rpc, sv) w |` (- set (concat (c # cs)))"
    unfolding w2(4) w1(4) restrict_restrict by (simp add: Un_commute Int_commute)
  moreover have "run_chunks (batch_body (rpc_BatchDeleteEntry rpc) (\<lambda>_. True)) (c # cs) (w, sts) =
      Some (None, w2, sts @ (s1 @ s2))" using w1(1) w2(1) by simp
  moreover have "length (s1 @ s2) = length (concat (c # cs))" using w1(2) w2(2) by simp
  ultimately show ?case using w2(3) by blast
qed

lemma client_batch_delete_law:
  assumes "spire_good (l, rpc, sv) w"
  shows "\<exists>sts w'. client_BatchDeleteEntries rpc ids w = Some ((sts, None), w') \<and>
    spire_good (l, rpc, sv) w' \<and> length sts = length ids \<and>
    spire_view (l, rpc, sv) w' = spire_view (l, rpc, sv) w |` (- set ids)"
proof -
  have "concat (chunks 200 ids) = ids" by (rule concat_chunks) simp
  moreover have "client_BatchDeleteEntries rpc ids w =
      Option.bind (run_chunks (batch_body (rpc_BatchDeleteEntry rpc) (\<lambda>_. True)) (chunks 200 ids) (w, []))
        (\<lambda>(err, w', statuses). Some ((statuses, err), w'))"
    using runBatch_chunks [of ids 200 "batch_body (rpc_BatchDeleteEntry rpc) (\<lambda>_. True)"]
    by (simp add: client_BatchDeleteEntries_def entryDeleteBatchSize_def)
  ultimately show ?thesis using batch_delete_chunks [OF assms, of "chunks 200 ids" "[]"] by auto
qed

lemma NewClient_simps [simp]:
  "ListEntries (spire_client (l, rpc, sv)) = client_ListEntries l rpc"
  "CreateEntry (spire_client (l, rpc, sv)) = client_CreateEntry l rpc"
  "UpdateEntry (spire_client (l, rpc, sv)) = client_UpdateEntry l rpc"
  "DeleteEntry (spire_client (l, rpc, sv)) = client_DeleteEntry rpc"
  "BatchDeleteEntries (spire_client (l, rpc, sv)) = client_BatchDeleteEntries rpc"
  by (simp_all add: spire_client_def NewClient_def)

lemma spire_valid_simps [simp]: "spire_valid (l, rpc, sv) e = parsed_entry l e"
  by (simp add: spire_valid_def)

interpretation spire: client_contract spire_client spire_good spire_view spire_valid
proof (unfold_locales, goal_cases)
  case (1 c w)
  then show ?case by (cases c) (simp add: client_list_law)
next
  case (2 c w i)
  then show ?case by (cases c) (simp add: client_delete_law)
next
  case (3 c w e)
  then show ?case by (cases c) (simp add: client_create_law)
next
  case (4 c w e x)
  then show ?case by (cases c) (simp add: client_create_dup_law)
next
  case (5 c w e)
  then show ?case by (cases c) (simp add: client_update_law)
next
  case (6 c w ids)
  then show ?case by (cases c) (simp add: client_batch_delete_law)
qed

end
