(* ===== verification/Reference_Env.thy ===== *)
theory Reference_Env
  imports Spire_Client
begin

text \<open>
  Concrete instances of the libraries and services the program runs against, used to evaluate
  the properties on concrete inputs and to show that what is assumed of those libraries can
  hold: SPIFFE IDs as a trust domain and a path, templates of text and field actions, and a
  SPIRE server that keeps its entries in a list and answers a listing with one page.
\<close>

subsection \<open>SPIFFE IDs\<close>

definition ref_FromString :: "string \<Rightarrow> go_error + string \<times> string" where
  "ref_FromString s =
     (if HasPrefix s ''spiffe://'' then
        (let r = TrimPrefix s ''spiffe://''; td = takeWhile (\<lambda>c. c \<noteq> CHR ''/'') r
         in if td = [] then Inl (Errs ''trust domain is missing'')
            else Inr (td, dropWhile (\<lambda>c. c \<noteq> CHR ''/'') r))
      else Inl (Errs ''scheme is missing or invalid''))"

definition ref_TrustDomainFromString :: "string \<Rightarrow> go_error + string" where
  "ref_TrustDomainFromString s =
     (if s = [] \<or> CHR ''/'' \<in> set s then Inl (Errs ''invalid trust domain'') else Inr s)"

subsection \<open>Templates\<close>

text \<open>A template text as a list of segments: \<open>(False, t)\<close> plain text, \<open>(True, f)\<close> a field action.\<close>

fun ref_segments :: "bool \<Rightarrow> string \<Rightarrow> string \<Rightarrow> go_error + (bool \<times> string) list" where
  "ref_segments act acc [] = (if act then Inl (Errs ''unclosed action'') else Inr [(False, acc)])"
| "ref_segments act acc [c] = ref_segments act (acc @ [c]) []"
| "ref_segments act acc (c # d # s) =
     (if \<not> act \<and> c = CHR ''{'' \<and> d = CHR ''{''
      then ebind (ref_segments True [] s) (\<lambda>segs. Inr ((False, acc) # segs))
      else if act \<and> c = CHR ''}'' \<and> d = CHR ''}''
      then ebind (ref_segments False [] s) (\<lambda>segs. Inr ((True, filter (\<lambda>x. x \<noteq> CHR '' '') acc) # segs))
      else ref_segments act (acc @ [c]) (d # s))"

definition ref_field :: "TemplateData \<Rightarrow> string \<Rightarrow> go_error + string" where
  "ref_field data f =
     (case map_of
        [(''.TrustDomain'', td_TrustDomain data), (''.ClusterName'', td_ClusterName data),
         (''.ApplicationName'', td_ApplicationName data), (''.AccountID'', td_AccountID data),
         (''.Region'', td_Region data), (''.InstanceID'', td_InstanceID data),
         (''.PodMeta.Name'', Name (td_PodMeta data)), (''.PodMeta.Namespace'', Namespace (td_PodMeta data)),
         (''.PodMeta.UID'', UID (td_PodMeta data)), (''.NodeMeta.UID'', UID (td_NodeMeta data)),
         (''.PodSpec.ServiceAccountName'', ServiceAccountName (td_PodSpec data))] f of
        None \<Rightarrow> Inl (Errs (''cannot evaluate field '' @ f))
      | Some v \<Rightarrow> Inr v)"

definition ref_Execute :: "(bool \<times> string) list \<Rightarrow> TemplateData \<Rightarrow> go_error + string" where
  "ref_Execute segs data =
     ebind (collect (\<lambda>(act, t). if act then ref_field data t else Inr t) segs) (\<lambda>parts. Inr (concat parts))"

definition ref_Parse :: "string \<Rightarrow> go_error + (TemplateData \<Rightarrow> go_error + string)" where
  "ref_Parse s = ebind (ref_segments False [] s) (\<lambda>segs. Inr (ref_Execute segs))"

definition ref_lib :: "(string \<times> string, string) lib" where
  "ref_lib =
     \<lparr>FromString = ref_FromString,
      ID_String = (\<lambda>(td, path). ''spiffe://'' @ td @ path),
      ID_TrustDomain = fst, ID_Path = snd,
      TrustDomainFromString = ref_TrustDomainFromString,
      TrustDomain_String = (\<lambda>t. t),
      template_Parse = ref_Parse,
      int32_overflow = (\<lambda>_. 0x80000000)\<rparr>"

subsection \<open>The entry service\<close>

type_synonym ref_world = "api_Entry list"

definition ref_result :: "32 word \<Rightarrow> api_Entry option \<Rightarrow> api_Result" where
  "ref_result c e = \<lparr>res_Status = Some \<lparr>api_Code = c, api_Message = []\<rparr>, res_Entry = e\<rparr>"

fun ref_create :: "ref_world \<Rightarrow> api_Entry list \<Rightarrow> api_Result list \<times> ref_world" where
  "ref_create w [] = ([], w)"
| "ref_create w (a # as) =
     (if \<exists>x \<in> set w. api_Id x = api_Id a \<or> similar x a
      then (case ref_create w as of (rs, w') \<Rightarrow> (ref_result 6 None # rs, w'))
      else (case ref_create (w @ [a]) as of (rs, w') \<Rightarrow> (ref_result 0 (Some a) # rs, w')))"

fun ref_update :: "ref_world \<Rightarrow> api_Entry list \<Rightarrow> api_Result list \<times> ref_world" where
  "ref_update w [] = ([], w)"
| "ref_update w (a # as) =
     (case ref_update (map (\<lambda>x. if api_Id x = api_Id a then a else x) w) as of (rs, w') \<Rightarrow>
        (ref_result (if \<exists>x \<in> set w. api_Id x = api_Id a then 0 else 5) (Some a) # rs, w'))"

definition ref_rpc :: "ref_world entry_rpc" where
  "ref_rpc =
     \<lparr>rpc_ListEntries = (\<lambda>w tok n. (Inr (w, []), w)),
      rpc_BatchCreateEntry = (\<lambda>w as. case ref_create w as of (rs, w') \<Rightarrow> (Inr rs, w')),
      rpc_BatchUpdateEntry = (\<lambda>w as. case ref_update w as of (rs, w') \<Rightarrow> (Inr rs, w')),
      rpc_BatchDeleteEntry = (\<lambda>w ids.
        (Inr (map (\<lambda>i. ref_result (if \<exists>x \<in> set w. api_Id x = i then 0 else 5) None) ids),
         filter (\<lambda>a. api_Id a \<notin> set ids) w))\<rparr>"

definition ref_connection :: "(string \<times> string, string, ref_world) connection" where
  "ref_connection = (ref_lib, ref_rpc, \<lambda>w. w)"

subsection \<open>The documented behaviour holds of these instances\<close>

lemma ref_FromString_print:
  assumes "td \<noteq> []" and "CHR ''/'' \<notin> set td" and "p = [] \<or> hd p = CHR ''/''"
  shows "ref_FromString (''spiffe://'' @ td @ p) = Inr (td, p)"
proof -
  let ?P = "\<lambda>c. c \<noteq> CHR ''/''"
  have P: "?P x" if "x \<in> set td" for x using that assms(2) by blast
  have "takeWhile ?P (td @ p) = td @ takeWhile ?P p" "dropWhile ?P (td @ p) = dropWhile ?P p"
    using P by (auto simp: takeWhile_append2 dropWhile_append2)
  moreover have "takeWhile ?P p = []" "dropWhile ?P p = p"
    using assms(3) by (cases p; simp)+
  ultimately show ?thesis
    using assms(1) unfolding ref_FromString_def Let_def HasPrefix_append TrimPrefix_append by simp
qed

lemma ref_FromString_Inr:
  assumes "ref_FromString s = Inr (td, p)"
  shows "td \<noteq> [] \<and> CHR ''/'' \<notin> set td \<and> (p = [] \<or> hd p = CHR ''/'')"
proof -
  let ?r = "TrimPrefix s ''spiffe://''"
  have td: "td = takeWhile (\<lambda>c. c \<noteq> CHR ''/'') ?r" and p: "p = dropWhile (\<lambda>c. c \<noteq> CHR ''/'') ?r"
    and "td \<noteq> []"
    using assms by (auto simp: ref_FromString_def Let_def split: if_splits)
  moreover have "CHR ''/'' \<notin> set td" unfolding td by (auto dest: set_takeWhileD)
  moreover have "p = [] \<or> hd p = CHR ''/''"
    using hd_dropWhile [of "\<lambda>c. c \<noteq> CHR ''/''" ?r] unfolding p by blast
  ultimately show ?thesis by blast
qed

lemma ref_spiffe_documented: "spiffe_documented ref_lib"
proof -
  have id: "ref_FromString (''spiffe://'' @ td @ p) = Inr (td, p)" if "parsed_id ref_lib (td, p)" for td p
  proof -
    from that obtain s where "ref_FromString s = Inr (td, p)" by (auto simp: parsed_id_def ref_lib_def)
    then show ?thesis using ref_FromString_Inr ref_FromString_print by blast
  qed
  have td: "ref_TrustDomainFromString t = Inr t" if "parsed_td ref_lib t" for t
    using that by (auto simp: parsed_td_def ref_lib_def ref_TrustDomainFromString_def split: if_splits)
  have "ID_String ref_lib (t, p) = ''spiffe://'' @ t @ p" "TrustDomain_String ref_lib t = t"
    "ID_TrustDomain ref_lib (t, p) = t" "ID_Path ref_lib (t, p) = p"
    "FromString ref_lib = ref_FromString" "TrustDomainFromString ref_lib = ref_TrustDomainFromString" for t p
    by (simp_all add: ref_lib_def)
  then show ?thesis unfolding spiffe_documented_def split_paired_All using id td by metis
qed

lemma ref_create_one:
  "api_Id a \<notin> api_Id ` set w \<Longrightarrow>
     rpc_BatchCreateEntry ref_rpc w [a] =
       (if \<exists>x \<in> set w. similar x a then (Inr [ref_result 6 None], w)
        else (Inr [ref_result 0 (Some a)], w @ [a]))"
  by (auto simp: ref_rpc_def image_iff)

lemma ref_update_one:
  "api_Id a \<in> api_Id ` set w \<Longrightarrow>
     rpc_BatchUpdateEntry ref_rpc w [a] =
       (Inr [ref_result 0 (Some a)], map (\<lambda>x. if api_Id x = api_Id a then a else x) w)"
  by (auto simp: ref_rpc_def image_iff)

lemma ref_server_documented: "server_documented ref_rpc (\<lambda>w. w)"
proof -
  have list: "pages ref_rpc w [] w" for w
    by (rule last_page) (simp add: ref_rpc_def)
  have delete: "answers (rpc_BatchDeleteEntry ref_rpc w ids)
      (map (\<lambda>i. if i \<in> api_Id ` set w then 0 else 5) ids) (filter (\<lambda>a. api_Id a \<notin> set ids) w)" for w ids
    by (auto simp: answers_def ref_rpc_def ref_result_def list.rel_map intro!: list.rel_refl)
  have one: "answers (Inr [ref_result c e], w') [c] w'" for c e and w' :: ref_world
    by (simp add: answers_def ref_result_def)
  show ?thesis
    unfolding server_documented_def
  proof (intro conjI allI impI)
    fix w :: ref_world and a :: api_Entry
    assume "api_Id a \<notin> api_Id ` set w"
    then show "if \<exists>x \<in> set w. similar x a
      then \<exists>w'. w' = w \<and> answers (rpc_BatchCreateEntry ref_rpc w [a]) [6] w'
      else \<exists>w'. w' = w @ [a] \<and> answers (rpc_BatchCreateEntry ref_rpc w [a]) [0] w'"
      by (simp add: ref_create_one one)
  qed (use list delete in \<open>auto simp: ref_update_one one\<close>)
qed

lemma ref_good:
  "list_all (parsed_entry ref_lib) es \<Longrightarrow> distinct (map ID es) \<Longrightarrow>
     spire_good ref_connection (map (toAPIEntry ref_lib) es)"
  unfolding ref_connection_def
  using spire_goodI [OF ref_spiffe_documented ref_server_documented] by blast

lemma ref_view:
  "list_all (parsed_entry ref_lib) es \<Longrightarrow>
     spire_view ref_connection (map (toAPIEntry ref_lib) es) = by_id es"
  unfolding ref_connection_def by (rule view_of_entries [OF ref_spiffe_documented]) auto

subsection \<open>Sample objects\<close>

definition ref_meta :: "string \<Rightarrow> string \<Rightarrow> ObjectMeta" where
  "ref_meta name uid = zero_meta\<lparr>Name := name, Namespace := ''shop'', UID := uid\<rparr>"

definition ref_identity :: "string \<Rightarrow> string \<Rightarrow> string list \<Rightarrow> WorkloadIdentity" where
  "ref_identity name hint sels =
     zero_WorkloadIdentity\<lparr>wi_Meta := ref_meta name ''w1'',
       wi_Spec := (wi_Spec zero_WorkloadIdentity)\<lparr>spec_Namespace := ''shop'',
         SPIFFEIDTemplate := ''spiffe://{{ .TrustDomain }}/ns/{{ .PodMeta.Namespace }}'',
         TTL := 3600 * Second, JWTTTL := 300 * Second, WorkloadSelectorTemplates := sels,
         DNSNameTemplates := [''{{ .PodMeta.Name }}.svc''], spec_FederatesWith := [''b.org''],
         spec_Hint := hint\<rparr>\<rparr>"

definition ref_cluster :: "string \<Rightarrow> EKSClusterRegistry" where
  "ref_cluster name =
     zero_EKSClusterRegistry\<lparr>ec_Meta := ref_meta name ''c1'',
       ec_Spec := (ec_Spec zero_EKSClusterRegistry)\<lparr>eks_ClusterName := name, Region := ''us'',
         Enabled := True\<rparr>\<rparr>"

definition ref_pod :: "string \<Rightarrow> string \<Rightarrow> Pod" where
  "ref_pod name uid =
     \<lparr>pod_Meta = ref_meta name uid,
      pod_Spec = \<lparr>NodeName = ''n1'', ServiceAccountName = ''sa''\<rparr>, pod_Phase = ''Running''\<rparr>"

definition ref_node :: Node where
  "ref_node = \<lparr>node_Meta = ref_meta ''n1'' ''nu1'', node_Spec = \<lparr>ProviderID = ''aws:///us/i-1''\<rparr>\<rparr>"

definition ref_entry :: "string \<Rightarrow> Selector list \<Rightarrow> (string \<times> string, string) Entry" where
  "ref_entry i sels =
     \<lparr>ID = i, SPIFFEID = (''a.org'', ''/ns/shop''), ParentID = (''a.org'', ''/agent''), Selectors = sels,
      X509SVIDTTL = 3600, JWTSVIDTTL = 300, FederatesWith = [], Admin = False, Downstream = False,
      DNSNames = [], Hint = []\<rparr>"

lemmas ref_objects = ref_meta_def ref_identity_def ref_cluster_def ref_pod_def ref_node_def
  zero_meta_def zero_WorkloadIdentity_def zero_EKSClusterRegistry_def

lemmas ref_library = ref_lib_def ref_FromString_def ref_TrustDomainFromString_def ref_Parse_def
  ref_Execute_def ref_field_def HasPrefix_def TrimPrefix_def

end
