(* ===== verification/Entries.thy ===== *)
theory Entries
  imports Reference_Env Sha256
begin

text \<open>
  \<open>internal/spireentry/entries.go\<close>: rendering the registration entry of a pod from a workload
  identity, the deterministic key of an entry, the comparison of two versions of an entry, and
  the helpers of that file. Shown: what a rendered entry contains and on which failures there is
  none, that the key does not depend on the order of the selectors, when two keys must collide,
  and that the list of outdated fields is empty exactly when the compared fields agree.
\<close>

subsection \<open>Rendering\<close>

definition defaultParentIDTemplate_text :: string where
  "defaultParentIDTemplate_text =
     ''spiffe://{{ .TrustDomain }}/spire/agent/k8s_psat/{{ .ClusterName }}/{{ .NodeMeta.UID }}''"

text \<open>\<open>template.Must\<close> stops the program when it starts if the text does not parse.\<close>

definition defaultParentIDTemplate :: "('id, 'td) lib \<Rightarrow> TemplateData \<Rightarrow> go_error + string" where
  "defaultParentIDTemplate l =
     (case template_Parse l defaultParentIDTemplate_text of Inl e \<Rightarrow> (\<lambda>_. Inl e) | Inr t \<Rightarrow> t)"

definition extractInstanceID :: "string \<Rightarrow> string" where
  "extractInstanceID providerID =
     (let parts = Split providerID (CHR ''/'') in if length parts > 0 then last parts else [])"

definition mk_TemplateData ::
  "WorkloadIdentity \<Rightarrow> EKSClusterRegistry \<Rightarrow> Pod \<Rightarrow> Node \<Rightarrow> string \<Rightarrow> TemplateData" where
  "mk_TemplateData identity cluster pod node trustDomain =
     \<lparr>td_TrustDomain = trustDomain, td_ClusterName = ec_Name cluster,
      td_ApplicationName = ApplicationName (wi_Spec identity),
      td_AccountID = AccountID (ec_Spec cluster), td_Region = Region (ec_Spec cluster),
      td_InstanceID = extractInstanceID (ProviderID (node_Spec node)),
      td_PodMeta = pod_Meta pod, td_PodSpec = pod_Spec pod,
      td_NodeMeta = node_Meta node, td_NodeSpec = node_Spec node\<rparr>"

text \<open>Parse and execute one template of a list, with the two messages of its loop.\<close>

definition renderOne ::
  "('id, 'td) lib \<Rightarrow> TemplateData \<Rightarrow> string \<Rightarrow> string \<Rightarrow> string \<Rightarrow> go_error + string" where
  "renderOne l data perr xerr tmplStr =
     ebind (wrap perr (template_Parse l tmplStr)) (\<lambda>tmpl. wrap xerr (tmpl data))"

text \<open>The body of the selector loop: a rendering without a colon adds no selector.\<close>

definition selectorOf :: "string \<Rightarrow> Selector list" where
  "selectorOf s = (case SplitN2 s (CHR '':'') of [t, v] \<Rightarrow> [Selector t v] | _ \<Rightarrow> [])"

definition pod_uid_value :: "Pod \<Rightarrow> string" where
  "pod_uid_value pod = ''pod-uid:'' @ UID (pod_Meta pod)"

definition ownerInfo :: "string \<Rightarrow> string" where
  "ownerInfo name = ''owner:WorkloadIdentity/'' @ name"

definition entryHint :: "WorkloadIdentity \<Rightarrow> EKSClusterRegistry \<Rightarrow> string" where
  "entryHint identity cluster =
     (let hint = spec_Hint (wi_Spec identity)
      in if hint = []
         then ''workloadidentity:'' @ wi_Name identity @ '':'' @ ec_Name cluster @ '';'' @
              ownerInfo (wi_Name identity)
         else hint @ '';'' @ ownerInfo (wi_Name identity))"

definition RenderEntry ::
  "('id, 'td) lib \<Rightarrow> WorkloadIdentity \<Rightarrow> EKSClusterRegistry \<Rightarrow> Pod \<Rightarrow> Node \<Rightarrow> string \<Rightarrow>
   go_error + ('id, 'td) Entry" where
  "RenderEntry l identity cluster pod node trustDomain =
     (let spec = wi_Spec identity;
          data = mk_TemplateData identity cluster pod node trustDomain in
      ebind (wrap ''failed to parse SPIFFE ID template'' (template_Parse l (SPIFFEIDTemplate spec))) (\<lambda>spiffeIDTmpl.
      ebind (if ParentIDTemplate spec \<noteq> []
             then wrap ''failed to parse parent ID template'' (template_Parse l (ParentIDTemplate spec))
             else Inr (defaultParentIDTemplate l)) (\<lambda>parentIDTmpl.
      ebind (wrap ''failed to render SPIFFE ID'' (spiffeIDTmpl data)) (\<lambda>spiffeIDText.
      ebind (wrap ''invalid SPIFFE ID'' (FromString l spiffeIDText)) (\<lambda>spiffeID.
      ebind (wrap ''failed to render parent ID'' (parentIDTmpl data)) (\<lambda>parentIDText.
      ebind (wrap ''invalid parent ID'' (FromString l parentIDText)) (\<lambda>parentID.
      ebind (collect (renderOne l data ''failed to parse selector template'' ''failed to render selector'')
               (WorkloadSelectorTemplates spec)) (\<lambda>rendered.
      ebind (collect (renderOne l data ''failed to parse DNS name template'' ''failed to render DNS name'')
               (DNSNameTemplates spec)) (\<lambda>dnsNames.
      ebind (collect (\<lambda>td. wrap (''invalid trust domain '' @ td) (TrustDomainFromString l td))
               (spec_FederatesWith spec)) (\<lambda>federatesWith.
      Inr \<lparr>ID = [], SPIFFEID = spiffeID, ParentID = parentID,
           Selectors = Selector ''k8s'' (pod_uid_value pod) # concat (map selectorOf rendered),
           X509SVIDTTL = float64_to_int32 (int32_overflow l) (Seconds (TTL spec)),
           JWTSVIDTTL = float64_to_int32 (int32_overflow l) (Seconds (JWTTTL spec)),
           FederatesWith = federatesWith, Admin = spec_Admin spec, Downstream = spec_Downstream spec,
           DNSNames = dnsNames, Hint = entryHint identity cluster\<rparr>))))))))))"

subsection \<open>Selector strings, template helpers, DNS names\<close>

definition parseSelector :: "string \<Rightarrow> go_error + Selector" where
  "parseSelector selector =
     (case SplitN2 selector (CHR '':'') of
        [t, v] \<Rightarrow> (if t = [] then Inl (Errs ''type cannot be empty'')
                    else if v = [] then Inl (Errs ''value cannot be empty'')
                    else Inr (Selector t v))
      | _ \<Rightarrow> Inl (Errs ''expected at least one colon to separate type from value''))"

definition parseSelectors :: "string list \<Rightarrow> go_error + Selector list" where
  "parseSelectors selectors = collect parseSelector selectors"

definition renderTemplate ::
  "(TemplateData \<Rightarrow> go_error + string) \<Rightarrow> TemplateData \<Rightarrow> go_error + string" where
  "renderTemplate tmpl data = wrap ''failed to execute template'' (tmpl data)"

text \<open>\<open>%q\<close> of a trust domain name, which has no character to escape.\<close>

definition quoted :: "string \<Rightarrow> string" where
  "quoted s = CHR 0x22 # s @ [CHR 0x22]"

definition renderSPIFFEID ::
  "('id, 'td) lib \<Rightarrow> (TemplateData \<Rightarrow> go_error + string) \<Rightarrow> TemplateData \<Rightarrow> 'td \<Rightarrow> go_error + 'id" where
  "renderSPIFFEID l tmpl data expectTD =
     ebind (renderTemplate tmpl data) (\<lambda>rendered.
     ebind (wrap ''invalid SPIFFE ID'' (FromString l rendered)) (\<lambda>i.
     if ID_TrustDomain l i \<noteq> expectTD
     then Inl (Errs (''invalid SPIFFE ID: expected trust domain '' @ quoted (TrustDomain_String l expectTD) @
                     '' but got '' @ quoted (TrustDomain_String l (ID_TrustDomain l i))))
     else Inr i))"

text \<open>The map \<open>sliceSet\<close> is updated in place: the result is the slice and the new map.\<close>

fun appendIfNotExists ::
  "string list \<Rightarrow> string list \<Rightarrow> string list \<Rightarrow> string list \<times> string list" where
  "appendIfNotExists slc sliceSet [] = (slc, sliceSet)"
| "appendIfNotExists slc sliceSet (item # items) =
     (if item \<in> set sliceSet then appendIfNotExists slc sliceSet items
      else appendIfNotExists (slc @ [item]) (item # sliceSet) items)"

definition endpoint_names :: "string \<Rightarrow> string \<times> string \<Rightarrow> string list" where
  "endpoint_names clusterDomain ep =
     (case ep of (name, ns) \<Rightarrow>
        [name, name @ ''.'' @ ns, name @ ''.'' @ ns @ ''.svc''] @
        (if clusterDomain \<noteq> [] then [name @ ''.'' @ ns @ ''.svc.'' @ clusterDomain] else []))"

text \<open>An endpoint object is its name and its namespace.\<close>

definition dnsNamesFromEndpoints :: "(string \<times> string) list \<Rightarrow> string \<Rightarrow> string list" where
  "dnsNamesFromEndpoints endpoints clusterDomain =
     sort_Strings (concat (map (endpoint_names clusterDomain) endpoints))"

subsection \<open>Keys\<close>

text \<open>The comparison of \<open>sortSelectors\<close>, as the order on selectors.\<close>

definition selector_less :: "Selector \<Rightarrow> Selector \<Rightarrow> bool" where
  "selector_less a b =
     (if Type a < Type b then True else if Type a > Type b then False else Value a < Value b)"

instantiation Selector :: linorder
begin

definition less_Selector :: "Selector \<Rightarrow> Selector \<Rightarrow> bool" where
  "less_Selector a b \<longleftrightarrow> selector_less a b"

definition less_eq_Selector :: "Selector \<Rightarrow> Selector \<Rightarrow> bool" where
  "less_eq_Selector a b \<longleftrightarrow> a = b \<or> selector_less a b"

instance
  by standard
    (auto simp: less_Selector_def less_eq_Selector_def selector_less_def Selector.expand
      split: if_splits)

end

definition sortSelectors :: "Selector list \<Rightarrow> Selector list" where
  "sortSelectors unsorted = sort unsorted"

text \<open>The bytes written to the hash, in the order of the writes.\<close>

definition key_preimage :: "('id, 'td) lib \<Rightarrow> ('id, 'td) Entry \<Rightarrow> string" where
  "key_preimage l entry =
     ID_String l (SPIFFEID entry) @ ID_String l (ParentID entry) @
     concat (map (\<lambda>sel. Type sel @ Value sel) (sortSelectors (Selectors entry)))"

definition makeEntryKey :: "('id, 'td) lib \<Rightarrow> ('id, 'td) Entry \<Rightarrow> string" where
  "makeEntryKey l entry = hex_encode (sha256 (key_preimage l entry))"

subsection \<open>Comparing two versions of an entry\<close>

definition stringsMatch :: "string list \<Rightarrow> string list \<Rightarrow> bool" where
  "stringsMatch a b =
     (if length a \<noteq> length b then False
      else list_all2 (=) (sort_Strings a) (sort_Strings b))"

definition trustDomainsMatch :: "('id, 'td) lib \<Rightarrow> 'td list \<Rightarrow> 'td list \<Rightarrow> bool" where
  "trustDomainsMatch l a b =
     (if length a \<noteq> length b then False
      else list_all2 (=) (sort_Strings (map (TrustDomain_String l) a))
             (sort_Strings (map (TrustDomain_String l) b)))"

definition getOutdatedEntryFields ::
  "('id, 'td) lib \<Rightarrow> ('id, 'td) Entry \<Rightarrow> ('id, 'td) Entry \<Rightarrow> string list" where
  "getOutdatedEntryFields l newEntry oldEntry =
     (if X509SVIDTTL oldEntry \<noteq> X509SVIDTTL newEntry then [''X509SVIDTTL''] else []) @
     (if JWTSVIDTTL oldEntry \<noteq> JWTSVIDTTL newEntry then [''JWTSVIDTTL''] else []) @
     (if \<not> trustDomainsMatch l (FederatesWith oldEntry) (FederatesWith newEntry) then [''FederatesWith''] else []) @
     (if Admin oldEntry \<noteq> Admin newEntry then [''Admin''] else []) @
     (if Downstream oldEntry \<noteq> Downstream newEntry then [''Downstream''] else []) @
     (if \<not> stringsMatch (DNSNames oldEntry) (DNSNames newEntry) then [''DNSNames''] else []) @
     (if Hint oldEntry \<noteq> Hint newEntry then [''Hint''] else [])"

subsection \<open>Rendering: lemmas\<close>

lemma RenderEntry_InrE:
  assumes "RenderEntry l identity cluster pod node trustDomain = Inr e"
  obtains sel dns fed where
    "parsed_id l (SPIFFEID e)" "parsed_id l (ParentID e)"
    "collect (\<lambda>td. wrap (''invalid trust domain '' @ td) (TrustDomainFromString l td))
       (spec_FederatesWith (wi_Spec identity)) = Inr fed"
    "collect (renderOne l (mk_TemplateData identity cluster pod node trustDomain)
       ''failed to parse selector template'' ''failed to render selector'')
       (WorkloadSelectorTemplates (wi_Spec identity)) = Inr sel"
    "ID e = []" "FederatesWith e = fed" "DNSNames e = dns"
    "collect (renderOne l (mk_TemplateData identity cluster pod node trustDomain)
       ''failed to parse DNS name template'' ''failed to render DNS name'')
       (DNSNameTemplates (wi_Spec identity)) = Inr dns"
    "Selectors e = Selector ''k8s'' (pod_uid_value pod) # concat (map selectorOf sel)"
    "X509SVIDTTL e = float64_to_int32 (int32_overflow l) (Seconds (TTL (wi_Spec identity)))"
    "JWTSVIDTTL e = float64_to_int32 (int32_overflow l) (Seconds (JWTTTL (wi_Spec identity)))"
    "Admin e = spec_Admin (wi_Spec identity)" "Downstream e = spec_Downstream (wi_Spec identity)"
    "Hint e = entryHint identity cluster"
  using assms unfolding RenderEntry_def Let_def ebind_Inr_iff wrap_Inr_iff
  by (elim exE conjE) (rule that, auto simp: parsed_id_def)

lemma collect_wrap_parsed_td:
  "collect (\<lambda>td. wrap (g td) (TrustDomainFromString l td)) ss = Inr ts \<Longrightarrow> list_all (parsed_td l) ts"
  by (induction ss arbitrary: ts) (auto simp: parsed_td_def split: sum.splits)

lemma RenderEntry_parsed:
  "RenderEntry l identity cluster pod node trustDomain = Inr e \<Longrightarrow> parsed_entry l e"
  by (erule RenderEntry_InrE) (auto simp: parsed_entry_def dest: collect_wrap_parsed_td)

lemma RenderEntry_Hint:
  "RenderEntry l identity cluster pod node trustDomain = Inr e \<Longrightarrow> Hint e = entryHint identity cluster"
  by (erule RenderEntry_InrE)

lemma RenderEntry_pod_selector:
  "RenderEntry l identity cluster pod node trustDomain = Inr e \<Longrightarrow>
     Selector ''k8s'' (pod_uid_value pod) \<in> set (Selectors e)"
  by (erule RenderEntry_InrE) simp

lemma extractInstanceID_last:
  "CHR ''/'' \<notin> set i \<Longrightarrow> extractInstanceID (u @ ''/'' @ i) = i"
  by (simp add: extractInstanceID_def Split_append)

subsection \<open>Keys: lemmas\<close>

lemma sortSelectors_perm: "mset xs = mset ys \<Longrightarrow> sortSelectors xs = sortSelectors ys"
  unfolding sortSelectors_def using properties_for_sort [of "sort ys" xs] by simp

lemma key_preimage_perm:
  "SPIFFEID a = SPIFFEID b \<Longrightarrow> ParentID a = ParentID b \<Longrightarrow> mset (Selectors a) = mset (Selectors b) \<Longrightarrow>
     key_preimage l a = key_preimage l b"
  using sortSelectors_perm [of "Selectors a" "Selectors b"] by (simp add: key_preimage_def)

lemma makeEntryKey_ID [simp]: "makeEntryKey l (e\<lparr>ID := i\<rparr>) = makeEntryKey l e"
  by (simp add: makeEntryKey_def key_preimage_def)

lemma length_makeEntryKey [simp]: "length (makeEntryKey l e) = 64"
  by (simp add: makeEntryKey_def length_sha256)

lemma makeEntryKey_nonempty [simp]: "makeEntryKey l e \<noteq> []"
  using length_makeEntryKey [of l e] by force

subsection \<open>Comparing: lemmas\<close>

lemma stringsMatch_iff: "stringsMatch a b \<longleftrightarrow> mset a = mset b"
  by (auto simp: stringsMatch_def list.rel_eq sort_Strings_eq_iff dest: mset_eq_length)

lemma trustDomainsMatch_iff:
  "trustDomainsMatch l a b \<longleftrightarrow> image_mset (TrustDomain_String l) (mset a) = image_mset (TrustDomain_String l) (mset b)"
proof -
  have "length a = length b" if "image_mset (TrustDomain_String l) (mset a) = image_mset (TrustDomain_String l) (mset b)"
    using arg_cong [OF that, of size] by simp
  then show ?thesis by (auto simp: trustDomainsMatch_def list.rel_eq sort_Strings_eq_iff)
qed

lemma getOutdatedEntryFields_refl [simp]: "getOutdatedEntryFields l e e = []"
  by (simp add: getOutdatedEntryFields_def trustDomainsMatch_iff stringsMatch_iff)

subsection \<open>Properties\<close>



text \<open>C29: rendering succeeds exactly when the SPIFFE ID and parent ID templates parse, render and give
  IDs that go-spiffe accepts, every selector and DNS template parses and renders, and every
  federated trust domain is valid; otherwise it reports an error and there is no entry.\<close>

theorem render_entry_succeeds_iff:
  "(\<exists>e. RenderEntry l identity cluster pod node trustDomain = Inr e) \<longleftrightarrow>
   (let spec = wi_Spec identity; data = mk_TemplateData identity cluster pod node trustDomain;
        renders = (\<lambda>t. \<exists>f s. template_Parse l t = Inr f \<and> f data = Inr s) in
    (\<exists>f s i. template_Parse l (SPIFFEIDTemplate spec) = Inr f \<and> f data = Inr s \<and> FromString l s = Inr i) \<and>
    (\<exists>f s i. (if ParentIDTemplate spec = [] then f = defaultParentIDTemplate l
              else template_Parse l (ParentIDTemplate spec) = Inr f) \<and> f data = Inr s \<and> FromString l s = Inr i) \<and>
    list_all renders (WorkloadSelectorTemplates spec) \<and>
    list_all renders (DNSNameTemplates spec) \<and>
    list_all (\<lambda>td. \<exists>t. TrustDomainFromString l td = Inr t) (spec_FederatesWith spec))"
proof -
  let ?spec = "wi_Spec identity" and ?data = "mk_TemplateData identity cluster pod node trustDomain"
  have one: "(\<exists>s. renderOne l ?data p x t = Inr s) \<longleftrightarrow> (\<exists>f s. template_Parse l t = Inr f \<and> f ?data = Inr s)" for p x t
    by (auto simp: renderOne_def ebind_Inr_iff)
  have parent: "(if ParentIDTemplate ?spec \<noteq> []
      then wrap m (template_Parse l (ParentIDTemplate ?spec)) else Inr (defaultParentIDTemplate l)) = Inr f \<longleftrightarrow>
      (if ParentIDTemplate ?spec = [] then f = defaultParentIDTemplate l
       else template_Parse l (ParentIDTemplate ?spec) = Inr f)" for m f
    by auto
  have lists: "(\<exists>ys. collect (renderOne l ?data p x) ts = Inr ys) \<longleftrightarrow>
      (\<forall>t \<in> set ts. \<exists>f s. template_Parse l t = Inr f \<and> f ?data = Inr s)" for p x ts
    by (simp only: collect_succeeds_iff one)
  have fed: "(\<exists>ys. collect (\<lambda>td. wrap (g td) (TrustDomainFromString l td)) ts = Inr ys) \<longleftrightarrow>
      (\<forall>td \<in> set ts. \<exists>t. TrustDomainFromString l td = Inr t)" for g ts
    by (simp only: collect_succeeds_iff wrap_Inr_iff)
  have chain: "(\<exists>x. A x \<and> (\<exists>y. B y \<and> (\<exists>s. C x s \<and> (\<exists>i. D s i) \<and> (\<exists>t. E y t \<and> (\<exists>j. F t j) \<and> P)))) \<longleftrightarrow>
      (\<exists>x. A x \<and> (\<exists>s. C x s \<and> (\<exists>i. D s i))) \<and> (\<exists>y. B y \<and> (\<exists>t. E y t \<and> (\<exists>j. F t j))) \<and> P"
    for A B C D E F P by blast
  show ?thesis
    by (simp only: RenderEntry_def Let_def ebind_succeeds_iff wrap_Inr_iff parent sum.inject ex_simps
        simp_thms lists fed list_all_iff) (rule chain)
qed

text \<open>The key of an entry is determined by its SPIFFE ID, its parent ID and its selectors up to
  their order; neither the entry ID nor any other field matters.\<close>

theorem entry_key_order_independent:
  assumes "SPIFFEID a = SPIFFEID b" and "ParentID a = ParentID b"
    and "mset (Selectors a) = mset (Selectors b)"
  shows "makeEntryKey l a = makeEntryKey l b"
  using key_preimage_perm [OF assms] by (simp add: makeEntryKey_def)

theorem entry_key_order_independent_witness:
  "makeEntryKey ref_lib (ref_entry ''e1'' [Selector ''k8s'' ''x'', Selector ''k8s'' ''a'']) =
   makeEntryKey ref_lib (ref_entry ''e2'' [Selector ''k8s'' ''a'', Selector ''k8s'' ''x''])"
  by (rule entry_key_order_independent) (simp_all add: ref_entry_def)

text \<open>The key does not separate the parts it is made of: moving text between the type and the
  value of a selector changes the entry and keeps the key, so two different entries can have
  one key.\<close>

theorem entry_key_not_injective:
  "makeEntryKey l (e\<lparr>Selectors := [Selector (t @ u) v]\<rparr>) = makeEntryKey l (e\<lparr>Selectors := [Selector t (u @ v)]\<rparr>) \<and>
   (u \<noteq> [] \<longleftrightarrow> e\<lparr>Selectors := [Selector (t @ u) v]\<rparr> \<noteq> e\<lparr>Selectors := [Selector t (u @ v)]\<rparr>)"
proof
  show "makeEntryKey l (e\<lparr>Selectors := [Selector (t @ u) v]\<rparr>) = makeEntryKey l (e\<lparr>Selectors := [Selector t (u @ v)]\<rparr>)"
    by (simp add: makeEntryKey_def key_preimage_def sortSelectors_def)
  have "e\<lparr>Selectors := [Selector (t @ u) v]\<rparr> = e\<lparr>Selectors := [Selector t (u @ v)]\<rparr> \<longleftrightarrow> u = []"
    by (cases e) auto
  then show "u \<noteq> [] \<longleftrightarrow> e\<lparr>Selectors := [Selector (t @ u) v]\<rparr> \<noteq> e\<lparr>Selectors := [Selector t (u @ v)]\<rparr>"
    by blast
qed

text \<open>No field is reported as outdated exactly when the two versions agree on the TTLs, the flags
  and the hint, have the same DNS names up to their order and federate with the same trust
  domains up to their order.\<close>

theorem outdated_fields_empty_iff:
  "getOutdatedEntryFields l new old = [] \<longleftrightarrow>
     X509SVIDTTL new = X509SVIDTTL old \<and> JWTSVIDTTL new = JWTSVIDTTL old \<and> Admin new = Admin old \<and>
     Downstream new = Downstream old \<and> Hint new = Hint old \<and> mset (DNSNames new) = mset (DNSNames old) \<and>
     image_mset (TrustDomain_String l) (mset (FederatesWith new)) =
       image_mset (TrustDomain_String l) (mset (FederatesWith old))"
  by (auto simp: getOutdatedEntryFields_def trustDomainsMatch_iff stringsMatch_iff)

text \<open>A selector string is accepted exactly when it is a non-empty type without a colon, a colon
  and a non-empty value, and the selector read is that type and that value.\<close>

theorem parse_selector_iff:
  "parseSelector s = Inr sel \<longleftrightarrow>
     s = Type sel @ '':'' @ Value sel \<and> Type sel \<noteq> [] \<and> Value sel \<noteq> [] \<and> CHR '':'' \<notin> set (Type sel)"
proof (cases "CHR '':'' \<in> set s")
  case True
  then obtain t v where s: "s = t @ CHR '':'' # v" "CHR '':'' \<notin> set t" by (metis split_list_first)
  have unique: "t = Type sel \<and> v = Value sel"
    if "t @ CHR '':'' # v = Type sel @ CHR '':'' # Value sel" "CHR '':'' \<notin> set (Type sel)"
    using that s(2) by (metis SplitN2_Cons list.inject)
  show ?thesis using s unique by (cases sel) (auto simp: parseSelector_def SplitN2_Cons)
next
  case False
  then show ?thesis by (auto simp: parseSelector_def SplitN2_no_sep)
qed

text \<open>An ID rendered for an expected trust domain is an ID of that trust domain.\<close>

theorem render_spiffe_id_trust_domain:
  "renderSPIFFEID l tmpl data expectTD = Inr i \<longleftrightarrow>
     (\<exists>s. tmpl data = Inr s \<and> FromString l s = Inr i) \<and> ID_TrustDomain l i = expectTD"
  by (auto simp: renderSPIFFEID_def renderTemplate_def ebind_Inr_iff)

text \<open>When the set holds the items of a slice without duplicates, appending the missing items keeps
  the slice as a prefix, adds exactly the items, adds none twice and keeps the set in step.\<close>

theorem append_if_not_exists_spec:
  assumes "distinct slc" and "set sliceSet = set slc"
  shows "case appendIfNotExists slc sliceSet items of (slc', sliceSet') \<Rightarrow>
    distinct slc' \<and> set slc' = set slc \<union> set items \<and> set sliceSet' = set slc' \<and> take (length slc) slc' = slc"
  using assms
proof (induction items arbitrary: slc sliceSet)
  case (Cons item items)
  show ?case
  proof (cases "item \<in> set sliceSet")
    case True
    with Cons show ?thesis by (auto simp: insert_absorb)
  next
    case False
    with Cons.prems have "distinct (slc @ [item])" "set (item # sliceSet) = set (slc @ [item])" by auto
    from Cons.IH [OF this] False show ?thesis by (auto simp: take_Suc_conv_app_nth dest: arg_cong [where f = "take (length slc)"])
  qed
qed simp

theorem append_if_not_exists_spec_witness:
  "fst (appendIfNotExists [''a''] [''a''] [''b'', ''a'', ''b'']) = [''a'', ''b''] \<and>
   distinct (fst (appendIfNotExists [''a''] [''a''] [''b'', ''a'', ''b'']))"
proof
  have "distinct [''a'']" "set [''a''] = set [''a'']" by simp_all
  from append_if_not_exists_spec [OF this, of "[''b'', ''a'', ''b'']"]
  show "distinct (fst (appendIfNotExists [''a''] [''a''] [''b'', ''a'', ''b'']))"
    unfolding case_prod_beta by (elim conjE)
qed simp

text \<open>The DNS names of endpoints come sorted and are, for every endpoint, its name, its name with the
  namespace, with \<open>svc\<close>, and with the cluster domain when there is one.\<close>

theorem dns_names_from_endpoints_spec:
  "sorted (dnsNamesFromEndpoints endpoints clusterDomain) \<and>
   (\<forall>n. n \<in> set (dnsNamesFromEndpoints endpoints clusterDomain) \<longleftrightarrow>
      (\<exists>name ns. (name, ns) \<in> set endpoints \<and>
        (n = name \<or> n = name @ ''.'' @ ns \<or> n = name @ ''.'' @ ns @ ''.svc'' \<or>
         clusterDomain \<noteq> [] \<and> n = name @ ''.'' @ ns @ ''.svc.'' @ clusterDomain)))"
proof -
  have one: "n \<in> set (endpoint_names clusterDomain (name, ns)) \<longleftrightarrow>
      n = name \<or> n = name @ ''.'' @ ns \<or> n = name @ ''.'' @ ns @ ''.svc'' \<or>
      clusterDomain \<noteq> [] \<and> n = name @ ''.'' @ ns @ ''.svc.'' @ clusterDomain" for n name ns
    by (cases "clusterDomain = []") (simp_all add: endpoint_names_def)
  show ?thesis
    unfolding dnsNamesFromEndpoints_def sort_Strings_def set_sort set_concat set_map UN_iff image_image
    by (simp only: Bex_def image_iff split_paired_Ex one sorted_sort simp_thms)
qed

end
