(* ===== verification/Entries_State.thy ===== *)
theory Entries_State
  imports Entries
begin

text \<open>
  \<open>internal/spireentry/state.go\<close>: the two tables of entries a reconciliation compares and the
  changes that lead from one to the other. Shown: every operation keeps the tables consistent
  with the identifiers of their entries, the changes are disjoint and applying them to the
  current table gives the declared one, and for which entries the comparison is exact.
\<close>

subsection \<open>State and operations\<close>

record ('id, 'td) entriesState =
  current :: "('id, 'td) Entry gomap"
  declared :: "('id, 'td) Entry gomap"
  entryPrefix :: string

definition NewEntriesStateWithPrefix :: "string \<Rightarrow> ('id, 'td) entriesState" where
  "NewEntriesStateWithPrefix prefix = \<lparr>current = [], declared = [], entryPrefix = prefix\<rparr>"

definition NewEntriesState :: "('id, 'td) entriesState" where
  "NewEntriesState = NewEntriesStateWithPrefix []"

definition AddCurrent :: "('id, 'td) Entry \<Rightarrow> ('id, 'td) entriesState \<Rightarrow> ('id, 'td) entriesState" where
  "AddCurrent entry s = s\<lparr>current := AList.update (ID entry) entry (current s)\<rparr>"

text \<open>The identifier \<open>AddDeclared\<close> gives to an entry.\<close>

definition declaredID :: "('id, 'td) lib \<Rightarrow> string \<Rightarrow> ('id, 'td) Entry \<Rightarrow> string" where
  "declaredID l prefix entry =
     (let key = makeEntryKey l entry in if prefix \<noteq> [] then prefix @ key else key)"

definition AddDeclared ::
  "('id, 'td) lib \<Rightarrow> ('id, 'td) Entry \<Rightarrow> ('id, 'td) entriesState \<Rightarrow> ('id, 'td) entriesState" where
  "AddDeclared l entry s =
     (let entry = entry\<lparr>ID := declaredID l (entryPrefix s) entry\<rparr>
      in s\<lparr>declared := AList.update (ID entry) entry (declared s)\<rparr>)"

text \<open>The map from selector type to value: a later selector of one type replaces an earlier one.\<close>

definition selectorMap :: "Selector list \<Rightarrow> string gomap" where
  "selectorMap sels = fold (\<lambda>sel m. AList.update (Type sel) (Value sel) m) sels []"

definition entriesEqual :: "('id, 'td) lib \<Rightarrow> ('id, 'td) Entry \<Rightarrow> ('id, 'td) Entry \<Rightarrow> bool" where
  "entriesEqual l a b =
     (if SPIFFEID a \<noteq> SPIFFEID b \<or> ParentID a \<noteq> ParentID b then False
      else if length (Selectors a) \<noteq> length (Selectors b) then False
      else if list_ex (\<lambda>sel. case map_of (selectorMap (Selectors a)) (Type sel) of
                         None \<Rightarrow> True | Some val \<Rightarrow> val \<noteq> Value sel) (Selectors b) then False
      else if length (getOutdatedEntryFields l b a) > 0 then False
      else True)"

text \<open>
  The bodies of the two loops of \<open>GetChanges\<close>: what one declared entry adds to the list of
  creations and to the list of updates, and one current entry to the list of deletions. The
  order in which the maps are visited is \<open>itd\<close> and \<open>itc\<close>.
\<close>

definition createOf :: "('id, 'td) entriesState \<Rightarrow> string \<times> ('id, 'td) Entry \<Rightarrow> ('id, 'td) Entry option" where
  "createOf s = (\<lambda>(i, d). case map_of (current s) i of None \<Rightarrow> Some d | Some c \<Rightarrow> None)"

definition updateOf ::
  "('id, 'td) lib \<Rightarrow> ('id, 'td) entriesState \<Rightarrow> string \<times> ('id, 'td) Entry \<Rightarrow> ('id, 'td) Entry option" where
  "updateOf l s = (\<lambda>(i, d).
     case map_of (current s) i of
       None \<Rightarrow> None
     | Some c \<Rightarrow> if \<not> entriesEqual l c d then Some (d\<lparr>ID := ID c\<rparr>) else None)"

definition deleteOf :: "('id, 'td) entriesState \<Rightarrow> string \<times> ('id, 'td) Entry \<Rightarrow> ('id, 'td) Entry option" where
  "deleteOf s = (\<lambda>(i, c). case map_of (declared s) i of None \<Rightarrow> Some c | Some d \<Rightarrow> None)"

type_synonym ('id, 'td) map_order = "(string \<times> ('id, 'td) Entry) list \<Rightarrow> (string \<times> ('id, 'td) Entry) list"

definition GetChanges ::
  "('id, 'td) lib \<Rightarrow> ('id, 'td) map_order \<Rightarrow> ('id, 'td) map_order \<Rightarrow> ('id, 'td) entriesState \<Rightarrow>
   ('id, 'td) Entry list \<times> ('id, 'td) Entry list \<times> ('id, 'td) Entry list" where
  "GetChanges l itd itc s =
     (List.map_filter (createOf s) (itd (declared s)),
      List.map_filter (updateOf l s) (itd (declared s)),
      List.map_filter (deleteOf s) (itc (current s)))"

subsection \<open>The invariant\<close>

definition wf_state :: "('id, 'td) lib \<Rightarrow> ('id, 'td) entriesState \<Rightarrow> bool" where
  "wf_state l s \<longleftrightarrow>
     wf_map (current s) \<and> wf_map (declared s) \<and>
     list_all (\<lambda>(i, e). ID e = i) (current s) \<and>
     list_all (\<lambda>(i, e). ID e = i \<and> i = entryPrefix s @ makeEntryKey l e) (declared s)"

lemma declaredID_eq: "declaredID l prefix e = prefix @ makeEntryKey l e"
  by (simp add: declaredID_def Let_def)

lemma wf_state_current: "wf_state l s \<Longrightarrow> map_of (current s) i = Some e \<Longrightarrow> ID e = i"
  by (auto simp: wf_state_def list_all_iff dest: map_of_SomeD)

lemma wf_state_declared:
  "wf_state l s \<Longrightarrow> map_of (declared s) i = Some e \<Longrightarrow> ID e = i \<and> i = entryPrefix s @ makeEntryKey l e"
  by (auto simp: wf_state_def list_all_iff dest: map_of_SomeD)

lemma wf_state_declared_ID: "wf_state l s \<Longrightarrow> map_of (declared s) i = Some e \<Longrightarrow> ID e = i"
  using wf_state_declared by blast

lemma wf_state_maps: "wf_state l s \<Longrightarrow> wf_map (current s) \<and> wf_map (declared s)"
  by (simp add: wf_state_def)

lemma wf_stateI:
  assumes "wf_map (current s)" and "wf_map (declared s)"
    and "\<And>i e. map_of (current s) i = Some e \<Longrightarrow> ID e = i"
    and "\<And>i e. map_of (declared s) i = Some e \<Longrightarrow> ID e = i \<and> i = entryPrefix s @ makeEntryKey l e"
  shows "wf_state l s"
  using assms unfolding wf_state_def list_all_iff by (auto simp: wf_map_mem_iff)

lemma New_fields [simp]:
  "current (NewEntriesStateWithPrefix prefix) = []" "declared (NewEntriesStateWithPrefix prefix) = []"
  "entryPrefix (NewEntriesStateWithPrefix prefix) = prefix"
  by (simp_all add: NewEntriesStateWithPrefix_def)

lemma wf_state_New [simp]: "wf_state l (NewEntriesStateWithPrefix prefix)"
  by (simp add: wf_state_def NewEntriesStateWithPrefix_def)

lemma wf_state_AddCurrent [simp]: "wf_state l s \<Longrightarrow> wf_state l (AddCurrent e s)"
  by (rule wf_stateI)
    (auto simp: AddCurrent_def map_of_update dest: wf_state_maps wf_state_current wf_state_declared split: if_splits)

lemma wf_state_AddDeclared [simp]: "wf_state l s \<Longrightarrow> wf_state l (AddDeclared l e s)"
  by (rule wf_stateI)
    (auto simp: AddDeclared_def Let_def declaredID_eq map_of_update
      dest: wf_state_maps wf_state_current wf_state_declared split: if_splits)

lemma state_fields [simp]:
  "entryPrefix (AddCurrent e s) = entryPrefix s" "entryPrefix (AddDeclared l e s) = entryPrefix s"
  "declared (AddCurrent e s) = declared s" "current (AddDeclared l e s) = current s"
  by (simp_all add: AddCurrent_def AddDeclared_def Let_def)

lemma map_of_AddCurrent [go_maps]: "map_of (current (AddCurrent e s)) = (map_of (current s))(ID e \<mapsto> e)"
  by (simp add: AddCurrent_def map_of_update)

lemma map_of_AddDeclared [go_maps]:
  "map_of (declared (AddDeclared l e s)) =
     (map_of (declared s))(entryPrefix s @ makeEntryKey l e \<mapsto> e\<lparr>ID := entryPrefix s @ makeEntryKey l e\<rparr>)"
  by (simp add: AddDeclared_def Let_def declaredID_eq map_of_update)


subsection \<open>The lists of changes\<close>

abbreviation creates :: "'a \<times> 'b \<times> 'c \<Rightarrow> 'a" where "creates ch \<equiv> fst ch"
abbreviation updates :: "'a \<times> 'b \<times> 'c \<Rightarrow> 'b" where "updates ch \<equiv> fst (snd ch)"
abbreviation deletes :: "'a \<times> 'b \<times> 'c \<Rightarrow> 'c" where "deletes ch \<equiv> snd (snd ch)"

lemma changes_of:
  assumes "wf_state l s"
  shows "createOf s (i, d) = Some e \<longleftrightarrow> map_of (current s) i = None \<and> e = d"
    and "deleteOf s (i, d) = Some e \<longleftrightarrow> map_of (declared s) i = None \<and> e = d"
    and "ID d = i \<Longrightarrow> updateOf l s (i, d) = Some e \<longleftrightarrow>
      e = d \<and> (\<exists>c. map_of (current s) i = Some c \<and> \<not> entriesEqual l c d)"
  using wf_state_current [OF assms]
  by (auto simp: createOf_def deleteOf_def updateOf_def split: option.splits)

lemma in_map_filter:
  assumes "visits it" and "wf_map m"
  shows "e \<in> set (List.map_filter f (it m)) \<longleftrightarrow> (\<exists>i d. map_of m i = Some d \<and> f (i, d) = Some e)"
  using assms by (simp add: set_map_filter Bex_def wf_map_mem_iff)

lemma in_creates:
  assumes "wf_state l s" "visits itd" "visits itc"
  shows "e \<in> set (creates (GetChanges l itd itc s)) \<longleftrightarrow>
     map_of (declared s) (ID e) = Some e \<and> map_of (current s) (ID e) = None"
proof -
  have "wf_map (declared s)" using wf_state_maps [OF assms(1)] by blast
  from in_map_filter [OF assms(2) this, of e "createOf s"] show ?thesis
    unfolding GetChanges_def fst_conv changes_of(1) [OF assms(1)] by (metis wf_state_declared_ID [OF assms(1)])
qed

lemma in_deletes:
  assumes "wf_state l s" "visits itd" "visits itc"
  shows "e \<in> set (deletes (GetChanges l itd itc s)) \<longleftrightarrow>
     map_of (current s) (ID e) = Some e \<and> map_of (declared s) (ID e) = None"
proof -
  have "wf_map (current s)" using wf_state_maps [OF assms(1)] by blast
  from in_map_filter [OF assms(3) this, of e "deleteOf s"] show ?thesis
    unfolding GetChanges_def snd_conv changes_of(2) [OF assms(1)] by (metis wf_state_current [OF assms(1)])
qed

lemma in_updates:
  assumes "wf_state l s" "visits itd" "visits itc"
  shows "e \<in> set (updates (GetChanges l itd itc s)) \<longleftrightarrow>
     map_of (declared s) (ID e) = Some e \<and>
     (\<exists>c. map_of (current s) (ID e) = Some c \<and> \<not> entriesEqual l c e)"
proof -
  have "updateOf l s (i, d) = Some e \<longleftrightarrow>
      e = d \<and> (\<exists>c. map_of (current s) i = Some c \<and> \<not> entriesEqual l c d)"
    if "map_of (declared s) i = Some d" for i d
    using wf_state_declared_ID [OF assms(1) that] changes_of(3) [OF assms(1)] by blast
  then have "(map_of (declared s) i = Some d \<and> updateOf l s (i, d) = Some e) \<longleftrightarrow>
      map_of (declared s) i = Some d \<and> i = ID d \<and> e = d \<and> (\<exists>c. map_of (current s) i = Some c \<and> \<not> entriesEqual l c d)"
    for i d using wf_state_declared_ID [OF assms(1)] by blast
  moreover have "wf_map (declared s)" using wf_state_maps [OF assms(1)] by blast
  ultimately show ?thesis
    unfolding GetChanges_def fst_conv snd_conv by (subst in_map_filter) (use assms(2) in auto)
qed

lemmas in_changes = in_creates in_updates in_deletes

lemma distinct_changes:
  assumes "wf_state l s" "visits itd" "visits itc"
  shows "distinct (map ID (creates (GetChanges l itd itc s)))"
    and "distinct (map ID (updates (GetChanges l itd itc s)))"
    and "distinct (map ID (deletes (GetChanges l itd itc s)))"
proof -
  have k: "distinct (map fst (itd (declared s)))" "distinct (map fst (itc (current s)))"
    using visits_distinct_keys assms wf_state_maps [OF assms(1)] unfolding wf_map_def by blast+
  have d: "ID d = i" if "(i, d) \<in> set (itd (declared s))" for i d
    using that assms wf_state_declared_ID [OF assms(1)] wf_state_maps [OF assms(1)] by (simp add: wf_map_mem_iff)
  have c: "ID d = i" if "(i, d) \<in> set (itc (current s))" for i d
    using that assms wf_state_current [OF assms(1)] wf_state_maps [OF assms(1)] by (simp add: wf_map_mem_iff)
  show "distinct (map ID (creates (GetChanges l itd itc s)))"
    by (simp add: GetChanges_def, rule distinct_keys_map_filter [OF k(1)]) (auto simp: changes_of [OF assms(1)] d)
  show "distinct (map ID (updates (GetChanges l itd itc s)))"
    by (simp add: GetChanges_def, rule distinct_keys_map_filter [OF k(1)]) (auto simp: changes_of [OF assms(1)] d)
  show "distinct (map ID (deletes (GetChanges l itd itc s)))"
    by (simp add: GetChanges_def, rule distinct_keys_map_filter [OF k(2)]) (auto simp: changes_of [OF assms(1)] c)
qed

subsection \<open>The comparison\<close>

lemma map_of_selectorMap: "map_of (selectorMap sels) t = map_option Value (find (\<lambda>sel. Type sel = t) (rev sels))"
proof -
  have "map_of (fold (\<lambda>sel m. AList.update (Type sel) (Value sel) m) sels m) t =
      (case find (\<lambda>sel. Type sel = t) (rev sels) of Some sel \<Rightarrow> Some (Value sel) | None \<Rightarrow> map_of m t)" for m
  proof (induction sels arbitrary: m rule: rev_induct)
    case (snoc x xs)
    then show ?case by (simp add: map_of_update)
  qed simp
  then show ?thesis unfolding selectorMap_def by (simp split: option.splits)
qed

lemma selectorMap_mem: "map_of (selectorMap sels) t = Some v \<Longrightarrow> Selector t v \<in> set sels"
proof -
  assume "map_of (selectorMap sels) t = Some v"
  then obtain sel where "find (\<lambda>sel. Type sel = t) (rev sels) = Some sel" "Value sel = v"
    by (auto simp: map_of_selectorMap)
  then show ?thesis by (auto simp: find_Some_iff) (metis Selector.collapse nth_mem set_rev length_rev)
qed

lemma selectorMap_functional:
  assumes "sel \<in> set sels" and "\<And>x. x \<in> set sels \<Longrightarrow> Type x = Type sel \<Longrightarrow> Value x = Value sel"
  shows "map_of (selectorMap sels) (Type sel) = Some (Value sel)"
proof -
  have "find (\<lambda>x. Type x = Type sel) (rev sels) \<noteq> None"
    using assms(1) by (auto simp: find_None_iff)
  then obtain x where x: "find (\<lambda>x. Type x = Type sel) (rev sels) = Some x" by auto
  then have "x \<in> set sels" "Type x = Type sel" by (auto simp: find_Some_iff) (metis nth_mem set_rev length_rev)
  then show ?thesis using assms(2) x by (simp add: map_of_selectorMap)
qed

lemma entriesEqual_iff:
  "entriesEqual l a b \<longleftrightarrow>
     SPIFFEID a = SPIFFEID b \<and> ParentID a = ParentID b \<and> length (Selectors a) = length (Selectors b) \<and>
     (\<forall>sel \<in> set (Selectors b). map_of (selectorMap (Selectors a)) (Type sel) = Some (Value sel)) \<and>
     getOutdatedEntryFields l b a = []"
  by (auto simp: entriesEqual_def list_ex_iff split: option.splits)

lemma entriesEqual_refl_iff:
  "entriesEqual l e e \<longleftrightarrow>
     (\<forall>x \<in> set (Selectors e). \<forall>y \<in> set (Selectors e). Type x = Type y \<longrightarrow> Value x = Value y)"
proof
  assume "entriesEqual l e e"
  then show "\<forall>x \<in> set (Selectors e). \<forall>y \<in> set (Selectors e). Type x = Type y \<longrightarrow> Value x = Value y"
    by (metis entriesEqual_iff option.inject)
next
  assume f: "\<forall>x \<in> set (Selectors e). \<forall>y \<in> set (Selectors e). Type x = Type y \<longrightarrow> Value x = Value y"
  have "map_of (selectorMap (Selectors e)) (Type sel) = Some (Value sel)" if "sel \<in> set (Selectors e)" for sel
    by (rule selectorMap_functional [OF that]) (use f that in blast)
  then show "entriesEqual l e e" by (simp add: entriesEqual_iff)
qed

lemma entriesEqual_exact:
  assumes "distinct (map Type (Selectors b))"
  shows "entriesEqual l a b \<longleftrightarrow>
    SPIFFEID a = SPIFFEID b \<and> ParentID a = ParentID b \<and> mset (Selectors a) = mset (Selectors b) \<and>
    getOutdatedEntryFields l b a = []"
proof -
  have d: "distinct (Selectors b)" using assms by (simp add: distinct_map)
  have "(length (Selectors a) = length (Selectors b) \<and>
      (\<forall>sel \<in> set (Selectors b). map_of (selectorMap (Selectors a)) (Type sel) = Some (Value sel))) \<longleftrightarrow>
    mset (Selectors a) = mset (Selectors b)" (is "?L \<longleftrightarrow> ?R")
  proof
    assume L: ?L
    then have sub: "set (Selectors b) \<subseteq> set (Selectors a)"
      using selectorMap_mem by (metis Selector.collapse subsetI)
    have "card (set (Selectors b)) = length (Selectors a)" using L distinct_card [OF d] by simp
    then have "set (Selectors b) = set (Selectors a)"
      using card_mono [OF _ sub] card_length [of "Selectors a"] sub by (intro card_subset_eq) auto
    moreover from this have "distinct (Selectors a)"
      using \<open>card (set (Selectors b)) = length (Selectors a)\<close> by (intro card_distinct) simp
    ultimately show ?R using d by (simp add: set_eq_iff_mset_eq_distinct)
  next
    assume R: ?R
    have "inj_on Type (set (Selectors a))"
      using assms mset_eq_setD [OF R] by (simp add: distinct_map)
    then have "map_of (selectorMap (Selectors a)) (Type sel) = Some (Value sel)" if "sel \<in> set (Selectors b)" for sel
      using that mset_eq_setD [OF R] by (intro selectorMap_functional) (auto dest: inj_onD)
    then show ?L using mset_eq_length [OF R] by blast
  qed
  then show ?thesis unfolding entriesEqual_iff by blast
qed

lemma option_eqI: "(\<And>e. a = Some e \<longleftrightarrow> b = Some e) \<Longrightarrow> a = b"
  by (cases a; cases b) auto

lemma by_id_changes:
  assumes "wf_state l s" "visits itd" "visits itc"
  shows "by_id (creates (GetChanges l itd itc s)) i =
      (if map_of (current s) i = None then map_of (declared s) i else None)"
    and "by_id (updates (GetChanges l itd itc s)) i =
      (case (map_of (current s) i, map_of (declared s) i) of
         (Some c, Some d) \<Rightarrow> if entriesEqual l c d then None else Some d | _ \<Rightarrow> None)"
    and "i \<in> ID ` set (deletes (GetChanges l itd itc s)) \<longleftrightarrow>
      map_of (current s) i \<noteq> None \<and> map_of (declared s) i = None"
proof -
  note dist = distinct_changes [OF assms] and mem = in_changes [OF assms]
  note dID = wf_state_declared_ID [OF assms(1)] and cID = wf_state_current [OF assms(1)]
  have "by_id (creates (GetChanges l itd itc s)) i = Some e \<longleftrightarrow>
      (if map_of (current s) i = None then map_of (declared s) i else None) = Some e" for e
  proof (cases "ID e = i")
    case False
    then have "map_of (declared s) i \<noteq> Some e" using dID by blast
    then show ?thesis using False unfolding by_id_Some [OF dist(1)] by simp
  next
    case True
    then show ?thesis unfolding by_id_Some [OF dist(1)] mem by auto
  qed
  then show "by_id (creates (GetChanges l itd itc s)) i =
      (if map_of (current s) i = None then map_of (declared s) i else None)" by (rule option_eqI)
  have "by_id (updates (GetChanges l itd itc s)) i = Some e \<longleftrightarrow>
      (case (map_of (current s) i, map_of (declared s) i) of
         (Some c, Some d) \<Rightarrow> if entriesEqual l c d then None else Some d | _ \<Rightarrow> None) = Some e" for e
  proof (cases "ID e = i")
    case False
    then have "map_of (declared s) i \<noteq> Some e" using dID by blast
    then show ?thesis using False unfolding by_id_Some [OF dist(2)] by (auto split: option.splits if_splits)
  next
    case True
    then show ?thesis unfolding by_id_Some [OF dist(2)] mem by (auto split: option.splits)
  qed
  then show "by_id (updates (GetChanges l itd itc s)) i =
      (case (map_of (current s) i, map_of (declared s) i) of
         (Some c, Some d) \<Rightarrow> if entriesEqual l c d then None else Some d | _ \<Rightarrow> None)"
    by (rule option_eqI)
  show "i \<in> ID ` set (deletes (GetChanges l itd itc s)) \<longleftrightarrow>
      map_of (current s) i \<noteq> None \<and> map_of (declared s) i = None"
    unfolding image_iff Bex_def mem using cID [of i] by (metis not_None_eq)
qed

lemma map_of_fold_AddCurrent:
  "map_of (current (fold AddCurrent es s)) = map_of (current s) ++ by_id (rev es)"
  by (induction es arbitrary: s) (simp_all add: map_of_AddCurrent map_add_upd)

lemma fold_state_fields [simp]:
  "declared (fold AddCurrent es s) = declared s" "entryPrefix (fold AddCurrent es s) = entryPrefix s"
  "wf_state l s \<Longrightarrow> wf_state l (fold AddCurrent es s)"
  by (induction es arbitrary: s) auto

lemma fold_AddDeclared:
  assumes "wf_state l s"
  shows "wf_state l (fold (AddDeclared l) ds s)" "current (fold (AddDeclared l) ds s) = current s"
    "entryPrefix (fold (AddDeclared l) ds s) = entryPrefix s"
    "map_of (declared (fold (AddDeclared l) ds s)) =
       map_of (declared s) ++ by_id (rev (map (\<lambda>d. d\<lparr>ID := entryPrefix s @ makeEntryKey l d\<rparr>) ds))"
  using assms by (induction ds arbitrary: s) (simp_all add: map_of_AddDeclared map_add_upd)

subsection \<open>Properties\<close>

text \<open>The table a set of changes leads to: deletions, then creations, then updates.\<close>

definition apply_changes ::
  "(string \<Rightarrow> ('id, 'td) Entry option) \<Rightarrow>
   ('id, 'td) Entry list \<times> ('id, 'td) Entry list \<times> ('id, 'td) Entry list \<Rightarrow> string \<Rightarrow> ('id, 'td) Entry option" where
  "apply_changes m ch = (m |` (- ID ` set (deletes ch))) ++ by_id (creates ch) ++ by_id (updates ch)"

lemma apply_GetChanges:
  assumes "wf_state l s" "visits itd" "visits itc"
  shows "apply_changes (map_of (current s)) (GetChanges l itd itc s) =
    (\<lambda>i. case (map_of (declared s) i, map_of (current s) i) of
       (None, _) \<Rightarrow> None
     | (Some d, Some c) \<Rightarrow> if entriesEqual l c d then Some c else Some d
     | (Some d, None) \<Rightarrow> Some d)"
  unfolding apply_changes_def fun_eq_iff map_add_def restrict_map_def
  by (auto simp: by_id_changes [OF assms] split: option.splits)

text \<open>Whatever current and declared entries are added to a new state, its tables stay consistent
  (one entry per identifier, filed under its own identifier, declared entries under the prefix
  followed by their key), and each table holds the last entry added for each identifier.\<close>

theorem entries_state_contents:
  "let s = fold (AddDeclared l) ds (fold AddCurrent cs (NewEntriesStateWithPrefix prefix)) in
     wf_state l s \<and> map_of (current s) = by_id (rev cs) \<and>
     map_of (declared s) = by_id (rev (map (\<lambda>d. d\<lparr>ID := prefix @ makeEntryKey l d\<rparr>) ds))"
  by (simp add: Let_def fold_AddDeclared map_of_fold_AddCurrent)

text \<open>The three lists of changes have no identifier in common and none twice, an entry is created
  exactly when it is declared and absent, deleted exactly when it is present and not declared,
  and updated exactly when it is declared, present and the comparison finds a difference; this
  does not depend on the order in which the maps are visited.\<close>

theorem get_changes_exact:
  assumes "wf_state l s" and "visits itd" and "visits itc"
  shows "case GetChanges l itd itc s of (cr, up, del) \<Rightarrow>
    distinct (map ID (cr @ up @ del)) \<and>
    set cr = {d \<in> ran (map_of (declared s)). map_of (current s) (ID d) = None} \<and>
    set up = {d \<in> ran (map_of (declared s)). \<exists>c. map_of (current s) (ID d) = Some c \<and> \<not> entriesEqual l c d} \<and>
    set del = {c \<in> ran (map_of (current s)). map_of (declared s) (ID c) = None}"
proof -
  note mem = in_changes [OF assms]
  have dr: "d \<in> ran (map_of (declared s)) \<longleftrightarrow> map_of (declared s) (ID d) = Some d" for d
    using wf_state_declared_ID [OF assms(1)] unfolding ran_def by blast
  have cr: "c \<in> ran (map_of (current s)) \<longleftrightarrow> map_of (current s) (ID c) = Some c" for c
    using wf_state_current [OF assms(1)] unfolding ran_def by blast
  have "distinct (map ID (creates (GetChanges l itd itc s) @ updates (GetChanges l itd itc s) @
      deletes (GetChanges l itd itc s)))"
    unfolding map_append distinct_append using distinct_changes [OF assms] by (auto simp: mem)
  then show ?thesis
    unfolding case_prod_beta using mem dr cr by (intro conjI set_eqI) auto
qed

text \<open>C11: applying the changes to the current table gives a table with exactly the declared
  identifiers, in which every entry is the declared one or one that the comparison does not
  tell from it.\<close>

theorem get_changes_reach_declared:
  assumes "wf_state l s" and "visits itd" and "visits itc"
  shows "apply_changes (map_of (current s)) (GetChanges l itd itc s) =
    (\<lambda>i. case map_of (declared s) i of
       None \<Rightarrow> None
     | Some d \<Rightarrow> (case map_of (current s) i of
                   None \<Rightarrow> Some d
                 | Some c \<Rightarrow> if entriesEqual l c d then Some c else Some d))"
  unfolding apply_GetChanges [OF assms] by (auto split: option.splits)

text \<open>For entries with at most one selector of each type, two versions of an entry compare as
  equal exactly when they have the same SPIFFE ID, parent ID and selectors (in any order) and no
  outdated field.\<close>

theorem entries_equal_exact_for_distinct_types:
  assumes "distinct (map Type (Selectors b))"
  shows "entriesEqual l a b \<longleftrightarrow>
    SPIFFEID a = SPIFFEID b \<and> ParentID a = ParentID b \<and> mset (Selectors a) = mset (Selectors b) \<and>
    getOutdatedEntryFields l b a = []"
  by (rule entriesEqual_exact [OF assms])

theorem entries_equal_exact_witness:
  "entriesEqual ref_lib (ref_entry ''e'' [Selector ''unix'' ''u'', Selector ''k8s'' ''p''])
     (ref_entry ''f'' [Selector ''k8s'' ''p'', Selector ''unix'' ''u''])"
  by (subst entries_equal_exact_for_distinct_types)
    (simp_all add: ref_entry_def add_mset_commute getOutdatedEntryFields_def stringsMatch_iff trustDomainsMatch_iff)

text \<open>An entry that is already registered exactly as declared is nevertheless updated, in every
  reconciliation, exactly when it has two selectors of one type with different values (as every
  rendered entry with a further \<open>k8s\<close> selector has).\<close>

theorem unchanged_entry_updated_iff:
  assumes "wf_state l s" and "visits itd" and "visits itc"
    and "map_of (current s) i = Some e" and "map_of (declared s) i = Some e"
  shows "e \<in> set (updates (GetChanges l itd itc s)) \<longleftrightarrow>
    (\<exists>x \<in> set (Selectors e). \<exists>y \<in> set (Selectors e). Type x = Type y \<and> Value x \<noteq> Value y)"
proof -
  have "ID e = i" using wf_state_current [OF assms(1,4)] .
  then have "e \<in> set (updates (GetChanges l itd itc s)) \<longleftrightarrow> \<not> entriesEqual l e e"
    using assms(4,5) unfolding in_updates [OF assms(1-3)] by simp
  then show ?thesis unfolding entriesEqual_refl_iff by blast
qed

text \<open>The state after a reconciliation of one entry that the server already has.\<close>

definition ref_synced :: "Selector list \<Rightarrow> (string \<times> string, string) entriesState" where
  "ref_synced sels =
     AddDeclared ref_lib (ref_entry [] sels)
       (AddCurrent (ref_entry (makeEntryKey ref_lib (ref_entry [] sels)) sels) (NewEntriesStateWithPrefix []))"

lemma ref_entry_ID [simp]: "ID (ref_entry i sels) = i" "(ref_entry i sels)\<lparr>ID := j\<rparr> = ref_entry j sels"
  by (simp_all add: ref_entry_def)

lemma ref_synced:
  "wf_state ref_lib (ref_synced sels)"
  "map_of (current (ref_synced sels)) (makeEntryKey ref_lib (ref_entry [] sels)) =
     Some (ref_entry (makeEntryKey ref_lib (ref_entry [] sels)) sels)"
  "map_of (declared (ref_synced sels)) (makeEntryKey ref_lib (ref_entry [] sels)) =
     Some (ref_entry (makeEntryKey ref_lib (ref_entry [] sels)) sels)"
  by (simp_all add: ref_synced_def map_of_AddCurrent map_of_AddDeclared)

theorem get_changes_exact_witness:
  "case GetChanges ref_lib (\<lambda>m. m) rev (ref_synced [Selector ''k8s'' ''a'']) of (cr, up, del) \<Rightarrow>
     distinct (map ID (cr @ up @ del))"
proof -
  have "visits (\<lambda>m :: (string \<times> (string \<times> string, string) Entry) list. m)"
    "visits (rev :: (string \<times> (string \<times> string, string) Entry) list \<Rightarrow> _)" by (simp_all add: visits_def)
  from get_changes_exact [OF ref_synced(1) this, of "[Selector ''k8s'' ''a'']"] show ?thesis
    unfolding case_prod_beta by (elim conjE)
qed

theorem get_changes_reach_declared_witness:
  "apply_changes (map_of (current (ref_synced [Selector ''k8s'' ''a''])))
     (GetChanges ref_lib (\<lambda>m. m) rev (ref_synced [Selector ''k8s'' ''a'']))
     (makeEntryKey ref_lib (ref_entry [] [Selector ''k8s'' ''a''])) =
   Some (ref_entry (makeEntryKey ref_lib (ref_entry [] [Selector ''k8s'' ''a''])) [Selector ''k8s'' ''a''])"
proof -
  have "visits (\<lambda>m :: (string \<times> (string \<times> string, string) Entry) list. m)"
    "visits (rev :: (string \<times> (string \<times> string, string) Entry) list \<Rightarrow> _)" by (simp_all add: visits_def)
  from get_changes_reach_declared [OF ref_synced(1) this, of "[Selector ''k8s'' ''a'']"] show ?thesis
    by (simp add: ref_synced)
qed

theorem unchanged_entry_updated_witness:
  "ref_entry (makeEntryKey ref_lib (ref_entry [] [Selector ''k8s'' ''pod-uid:u'', Selector ''k8s'' ''ns:shop'']))
     [Selector ''k8s'' ''pod-uid:u'', Selector ''k8s'' ''ns:shop''] \<in>
   set (updates (GetChanges ref_lib (\<lambda>m. m) (\<lambda>m. m) (ref_synced [Selector ''k8s'' ''pod-uid:u'', Selector ''k8s'' ''ns:shop''])))"
  by (subst unchanged_entry_updated_iff [OF ref_synced(1) visits_id visits_id ref_synced(2,3)])
    (simp add: ref_entry_def)

end
