(* ===== verification/Base64.thy ===== *)
theory Base64
  imports Prelude "HOL-Library.Word"
begin

text \<open>
  The encodings of Go's standard library the code uses: \<open>encoding/base64\<close> in both directions and
  \<open>encoding/pem\<close>. Shown: decoding inverts encoding, and the body of a PEM block decodes to the
  bytes of the block.
\<close>

subsection \<open>Decoding\<close>

text \<open>\<open>base64.StdEncoding.DecodeString\<close>: line breaks are skipped, padding is required.\<close>

definition b64_value :: "char \<Rightarrow> nat option" where
  "b64_value c =
     (let n = of_char c in
      if of_char (CHR ''A'') \<le> n \<and> n \<le> of_char (CHR ''Z'') then Some (n - of_char (CHR ''A''))
      else if of_char (CHR ''a'') \<le> n \<and> n \<le> of_char (CHR ''z'') then Some (n - of_char (CHR ''a'') + 26)
      else if of_char (CHR ''0'') \<le> n \<and> n \<le> of_char (CHR ''9'') then Some (n - of_char (CHR ''0'') + 52)
      else if c = CHR ''+'' then Some 62
      else if c = CHR ''/'' then Some 63
      else None)"

definition b64_bytes :: "nat list \<Rightarrow> string" where
  "b64_bytes vs =
     (case vs of
        [a, b] \<Rightarrow> [char_of (a * 4 + b div 16)]
      | [a, b, c] \<Rightarrow> [char_of (a * 4 + b div 16), char_of ((b mod 16) * 16 + c div 4)]
      | [a, b, c, d] \<Rightarrow> [char_of (a * 4 + b div 16), char_of ((b mod 16) * 16 + c div 4), char_of ((c mod 4) * 64 + d)]
      | _ \<Rightarrow> [])"

definition b64_group :: "string \<Rightarrow> go_error + string" where
  "b64_group cs =
     (if list_all (\<lambda>c. b64_value c \<noteq> None) cs then Inr (b64_bytes (map (the \<circ> b64_value) cs))
      else Inl (Errs ''illegal base64 data''))"

fun b64_quads :: "string \<Rightarrow> go_error + string" where
  "b64_quads [] = Inr []"
| "b64_quads (a # b # c # d # rest) =
     (if rest = [] \<and> d = CHR ''='' then (if c = CHR ''='' then b64_group [a, b] else b64_group [a, b, c])
      else ebind (b64_group [a, b, c, d]) (\<lambda>x. ebind (b64_quads rest) (\<lambda>y. Inr (x @ y))))"
| "b64_quads _ = Inl (Errs ''illegal base64 data'')"

definition DecodeString :: "string \<Rightarrow> go_error + string" where
  "DecodeString s = b64_quads (filter (\<lambda>c. c \<noteq> CHR 0x0A \<and> c \<noteq> CHR 0x0D) s)"

subsection \<open>Encoding\<close>

definition b64_alphabet :: string where
  "b64_alphabet = ''ABCDEFGHIJKLMNOPQRSTUVWXYZabcdefghijklmnopqrstuvwxyz0123456789+/''"

definition b64_char :: "nat \<Rightarrow> char" where
  "b64_char n = b64_alphabet ! n"

text \<open>\<open>base64.StdEncoding\<close>: three bytes give four characters, the last group is padded.\<close>

fun EncodeToString :: "string \<Rightarrow> string" where
  "EncodeToString [] = []"
| "EncodeToString [x] =
     (let a = of_char x in [b64_char (a div 4), b64_char (a mod 4 * 16), CHR ''='', CHR ''=''])"
| "EncodeToString [x, y] =
     (let a = of_char x; b = of_char y
      in [b64_char (a div 4), b64_char (a mod 4 * 16 + b div 16), b64_char (b mod 16 * 4), CHR ''=''])"
| "EncodeToString (x # y # z # rest) =
     (let a = of_char x; b = of_char y; c = of_char z
      in [b64_char (a div 4), b64_char (a mod 4 * 16 + b div 16), b64_char (b mod 16 * 4 + c div 64), b64_char (c mod 64)] @
         EncodeToString rest)"

text \<open>\<open>pem.Encode\<close> of a block without headers: lines of 64 characters.\<close>

definition pem_body :: "string \<Rightarrow> string" where
  "pem_body bs = concat (map (\<lambda>line. line @ [CHR 0x0A]) (chunks 64 (EncodeToString bs)))"

definition pem_Encode :: "string \<Rightarrow> string \<Rightarrow> string" where
  "pem_Encode typ bs =
     ''-----BEGIN '' @ typ @ ''-----'' @ [CHR 0x0A] @ pem_body bs @ ''-----END '' @ typ @ ''-----'' @ [CHR 0x0A]"

subsection \<open>Round trip\<close>

lemma b64_alphabet_values: "map b64_value b64_alphabet = map Some [0..<64]"
  by (simp add: b64_alphabet_def b64_value_def upt_conv_Cons)

lemma b64_value_char: "n < 64 \<Longrightarrow> b64_value (b64_char n) = Some n"
proof -
  assume n: "n < 64"
  have "length b64_alphabet = 64" by (simp add: b64_alphabet_def)
  then have "b64_value (b64_char n) = map b64_value b64_alphabet ! n" using n by (simp add: b64_char_def)
  also have "\<dots> = Some n" unfolding b64_alphabet_values using n by simp
  finally show ?thesis .
qed

lemma b64_char_plain: "n < 64 \<Longrightarrow> b64_char n \<notin> {CHR ''='', CHR 0x0A, CHR 0x0D}"
proof -
  have "b64_value (CHR ''='') = None" "b64_value (CHR 0x0A) = None" "b64_value (CHR 0x0D) = None" by code_simp+
  then show "n < 64 \<Longrightarrow> ?thesis" using b64_value_char by fastforce
qed

lemma of_char_less [simp]: "(of_char c :: nat) < 256"
  using of_char_mod_256 [of c, where ?'a = nat] by (metis mod_less_divisor zero_less_numeral)

lemma byte_halves: "b div 16 div 16 = 0" "b div 16 mod 16 * 16 + b mod 16 = b" if "b < 256" for b :: nat
proof -
  have "b div 16 < 16" using that by linarith
  then show "b div 16 div 16 = 0" "b div 16 mod 16 * 16 + b mod 16 = b" by simp_all
qed

lemma byte_quarters: "c div 64 div 4 = 0" "c div 64 mod 4 * 64 + c mod 64 = c" if "c < 256" for c :: nat
proof -
  have "c div 64 < 4" using that by linarith
  then show "c div 64 div 4 = 0" "c div 64 mod 4 * 64 + c mod 64 = c" by simp_all
qed

lemma b64_quads_Encode: "b64_quads (EncodeToString s) = Inr s"
proof (induction s rule: EncodeToString.induct)
  case (2 x)
  let ?a = "of_char x :: nat"
  have "?a div 4 < 64" "?a mod 4 * 16 < 64" using of_char_less [of x] by linarith+
  then show ?case
    by (simp add: Let_def b64_group_def b64_value_char b64_bytes_def byte_halves byte_quarters)
next
  case (3 x y)
  let ?a = "of_char x :: nat" and ?b = "of_char y :: nat"
  have "?a div 4 < 64" "?a mod 4 * 16 + ?b div 16 < 64" "?b mod 16 * 4 < 64"
    using of_char_less [of x] of_char_less [of y] by linarith+
  then show ?case using b64_char_plain [of "?b mod 16 * 4"]
    by (simp add: Let_def b64_group_def b64_value_char b64_bytes_def byte_halves byte_quarters)
next
  case (4 x y z rest)
  let ?a = "of_char x :: nat" and ?b = "of_char y :: nat" and ?c = "of_char z :: nat"
  have "?a div 4 < 64" "?a mod 4 * 16 + ?b div 16 < 64" "?b mod 16 * 4 + ?c div 64 < 64" "?c mod 64 < 64"
    using of_char_less [of x] of_char_less [of y] of_char_less [of z] by linarith+
  with 4 show ?case using b64_char_plain [of "?c mod 64"]
    by (simp add: Let_def b64_group_def b64_value_char b64_bytes_def byte_halves byte_quarters)
qed simp

lemma Encode_plain: "set (EncodeToString s) \<inter> {CHR 0x0A, CHR 0x0D} = {}"
proof (induction s rule: EncodeToString.induct)
  case (2 x)
  let ?a = "of_char x :: nat"
  have "?a div 4 < 64" "?a mod 4 * 16 < 64" using of_char_less [of x] by linarith+
  then show ?case using b64_char_plain by (auto simp: Let_def)
next
  case (3 x y)
  let ?a = "of_char x :: nat" and ?b = "of_char y :: nat"
  have "?a div 4 < 64" "?a mod 4 * 16 + ?b div 16 < 64" "?b mod 16 * 4 < 64"
    using of_char_less [of x] of_char_less [of y] by linarith+
  then show ?case using b64_char_plain by (auto simp: Let_def)
next
  case (4 x y z rest)
  let ?a = "of_char x :: nat" and ?b = "of_char y :: nat" and ?c = "of_char z :: nat"
  have "?a div 4 < 64" "?a mod 4 * 16 + ?b div 16 < 64" "?b mod 16 * 4 + ?c div 64 < 64" "?c mod 64 < 64"
    using of_char_less [of x] of_char_less [of y] of_char_less [of z] by linarith+
  with 4 show ?case using b64_char_plain by (auto simp: Let_def)
qed simp

lemma filter_plain: "set xs \<inter> {CHR 0x0A, CHR 0x0D} = {} \<Longrightarrow> filter (\<lambda>c. c \<noteq> CHR 0x0A \<and> c \<noteq> CHR 0x0D) xs = xs"
  by (rule filter_True) auto

lemma Decode_Encode: "DecodeString (EncodeToString s) = Inr s"
  by (simp only: DecodeString_def filter_plain [OF Encode_plain] b64_quads_Encode)

text \<open>Line breaks are skipped, so the body of a PEM block decodes to its bytes.\<close>

lemma Decode_pem_body: "DecodeString (pem_body bs) = Inr bs"
proof -
  let ?P = "\<lambda>c. c \<noteq> CHR 0x0A \<and> c \<noteq> CHR 0x0D"
  have "filter ?P (concat (map (\<lambda>line. line @ [CHR 0x0A]) ls)) = filter ?P (concat ls)" for ls
    by (induction ls) auto
  then have "filter ?P (pem_body bs) = EncodeToString bs"
    by (simp only: pem_body_def concat_chunks [of 64] filter_plain [OF Encode_plain] zero_less_numeral)
  then show ?thesis by (simp only: DecodeString_def b64_quads_Encode)
qed

end
