(* ===== verification/Aws_Client.thy ===== *)
theory Aws_Client
  imports Api_Types Base64
begin

text \<open>
  \<open>internal/aws\<close>: the kubeconfig of an EKS cluster and the cache of Kubernetes clients. The AWS
  API and client-go are outside the repository and are the functions of \<open>aws_env\<close>. Shown: what
  the kubeconfig refers to and which command obtains the token, that the cache hands out a
  client without looking at the specification it was made for, and what the cleanup removes.
\<close>

subsection \<open>Kubeconfigs\<close>

record eks_Cluster =
  Endpoint :: "string option"
  CertificateAuthority :: "string option option"

definition StringValue :: "string option \<Rightarrow> string" where
  "StringValue p = (case p of None \<Rightarrow> [] | Some s \<Rightarrow> s)"

record api_Cluster =
  Server :: string
  CertificateAuthorityData :: string

record api_Context =
  ctx_Cluster :: string
  ctx_AuthInfo :: string

record ExecConfig =
  exec_APIVersion :: string
  Command :: string
  Args :: "string list"
  InteractiveMode :: string

record KubeConfig =
  kc_Clusters :: "api_Cluster gomap"
  Contexts :: "api_Context gomap"
  CurrentContext :: string
  AuthInfos :: "ExecConfig gomap"

definition buildAwsArgs :: "EKSClusterRegistry \<Rightarrow> string list" where
  "buildAwsArgs cluster =
     (let spec = ec_Spec cluster in
      [''eks'', ''get-token'', ''--cluster-name'', eks_ClusterName spec] @
      (if Region spec \<noteq> [] then [''--region'', Region spec] else []) @
      (if AssumeRoleARN spec \<noteq> [] then [''--role-arn'', AssumeRoleARN spec] else []))"

text \<open>\<open>None\<close>: a description without a cluster or without certificate authority is dereferenced.\<close>

definition NewKubeConfigForCluster ::
  "EKSClusterRegistry \<Rightarrow> eks_Cluster option \<Rightarrow> (go_error + KubeConfig) option" where
  "NewKubeConfigForCluster cluster eksCluster = do {
     eks \<leftarrow> eksCluster;
     ca \<leftarrow> CertificateAuthority eks;
     Some (ebind (wrap ''failed to decode CA data'' (DecodeString (StringValue ca))) (\<lambda>caData.
       let name = eks_ClusterName (ec_Spec cluster) in
       Inr \<lparr>kc_Clusters = [(name, \<lparr>Server = StringValue (Endpoint eks), CertificateAuthorityData = caData\<rparr>)],
            Contexts = [(name, \<lparr>ctx_Cluster = name, ctx_AuthInfo = ''spire-server-sa''\<rparr>)],
            CurrentContext = name,
            AuthInfos = [(''spire-server-sa'',
              \<lparr>exec_APIVersion = ''client.authentication.k8s.io/v1beta1'', Command = ''aws'',
               Args = buildAwsArgs cluster, InteractiveMode = ''Never''\<rparr>)]\<rparr>)) }"

subsection \<open>Clients\<close>

text \<open>
  \<open>DescribeCluster\<close> takes the region and the name of the EKS cluster. A REST configuration is
  only handed to \<open>kubernetes.NewForConfig\<close>, so \<open>ClientConfig\<close> gives the result of that call.
\<close>

record ('w, 'k) aws_env =
  DescribeCluster :: "'w \<Rightarrow> string \<Rightarrow> string \<Rightarrow> go_error + eks_Cluster option"
  ClientConfig :: "KubeConfig \<Rightarrow> go_error + (go_error + 'k)"
  clientcmd_Write :: "KubeConfig \<Rightarrow> go_error + string"
  aws_Now :: "'w \<Rightarrow> gotime"

definition cluster_kubeconfig ::
  "('w, 'k) aws_env \<Rightarrow> 'w \<Rightarrow> EKSClusterRegistry \<Rightarrow> (go_error + KubeConfig) option" where
  "cluster_kubeconfig env w cluster =
     (case DescribeCluster env w (Region (ec_Spec cluster)) (eks_ClusterName (ec_Spec cluster)) of
        Inl err \<Rightarrow> Some (Inl (Wrap ''failed to describe cluster'' err))
      | Inr describeResp \<Rightarrow>
          map_option (wrap ''failed to create kubeconfig'') (NewKubeConfigForCluster cluster describeResp))"

definition createClusterClient ::
  "('w, 'k) aws_env \<Rightarrow> 'w \<Rightarrow> EKSClusterRegistry \<Rightarrow> (go_error + 'k) option" where
  "createClusterClient env w cluster =
     map_option (\<lambda>r. ebind r (\<lambda>kubeConfig.
         ebind (wrap ''failed to build client config'' (ClientConfig env kubeConfig)) (\<lambda>client. client)))
       (cluster_kubeconfig env w cluster)"

definition GenerateKubeConfig ::
  "('w, 'k) aws_env \<Rightarrow> 'w \<Rightarrow> EKSClusterRegistry \<Rightarrow> (go_error + string) option" where
  "GenerateKubeConfig env w cluster =
     map_option (\<lambda>r. ebind r (clientcmd_Write env)) (cluster_kubeconfig env w cluster)"

record 'k clusterClient =
  Interface :: 'k
  lastUsed :: gotime

text \<open>The state of the manager is its map \<open>clients\<close>, keyed by the name of the registry object.\<close>

definition GetClusterClient ::
  "('w, 'k) aws_env \<Rightarrow> 'w \<Rightarrow> EKSClusterRegistry \<Rightarrow> 'k clusterClient gomap \<Rightarrow>
   ((go_error + 'k) \<times> 'k clusterClient gomap) option" where
  "GetClusterClient env w cluster clients =
     (case map_of clients (ec_Name cluster) of
        Some client \<Rightarrow>
          Some (Inr (Interface client),
                AList.update (ec_Name cluster) (client\<lparr>lastUsed := aws_Now env w\<rparr>) clients)
      | None \<Rightarrow> do {
          r \<leftarrow> createClusterClient env w cluster;
          case r of
            Inl err \<Rightarrow> Some (Inl err, clients)
          | Inr client \<Rightarrow>
              Some (Inr client,
                    AList.update (ec_Name cluster) \<lparr>Interface = client, lastUsed = aws_Now env w\<rparr> clients) })"

definition CleanupStaleClients :: "gotime \<Rightarrow> 'k clusterClient gomap \<Rightarrow> 'k clusterClient gomap" where
  "CleanupStaleClients now clients =
     (let cutoff = now + (- 30 * Minute) in filter (\<lambda>(name, client). \<not> lastUsed client < cutoff) clients)"

subsection \<open>Lemmas\<close>

lemma GetClusterClient_wf:
  "GetClusterClient env w cluster clients = Some (r, clients') \<Longrightarrow> wf_map clients \<Longrightarrow> wf_map clients'"
  by (auto simp: GetClusterClient_def split: option.splits sum.splits bind_splits)

lemma CleanupStaleClients_wf: "wf_map clients \<Longrightarrow> wf_map (CleanupStaleClients now clients)"
  by (auto simp: CleanupStaleClients_def wf_map_def Let_def intro: distinct_map_filter)

lemma map_of_eq_optionI:
  assumes "wf_map m" and "\<And>v. (k, v) \<in> set m \<longleftrightarrow> x = Some v"
  shows "map_of m k = x"
proof (cases x)
  case None
  then show ?thesis using assms(2) by (auto simp: map_of_eq_None_iff)
next
  case (Some v)
  then show ?thesis using assms wf_map_mem_iff [OF assms(1)] by simp
qed

text \<open>An AWS account with one EKS cluster, for evaluation: a client is its server and its arguments.\<close>

definition ref_aws :: "('w, string \<times> string list) aws_env" where
  "ref_aws =
     \<lparr>DescribeCluster = (\<lambda>w region name.
        if region = ''us'' then Inr (Some \<lparr>Endpoint = Some (''https://'' @ name), CertificateAuthority = Some (Some ''Y2E='')\<rparr>)
        else Inl (Errs ''ResourceNotFoundException'')),
      ClientConfig = (\<lambda>kc. Inr (case map_of (kc_Clusters kc) (CurrentContext kc) of
        None \<Rightarrow> Inl (Errs ''no cluster'')
      | Some c \<Rightarrow> Inr (Server c, concat (map (\<lambda>(_, a). Args a) (AuthInfos kc))))),
      clientcmd_Write = (\<lambda>kc. Inr (CurrentContext kc)),
      aws_Now = (\<lambda>_. 1000 * Hour)\<rparr>"

subsection \<open>Properties\<close>

text \<open>C31: a kubeconfig that is built has, as its current context, the described endpoint with the
  decoded certificate authority and the service account whose token is obtained for exactly the
  cluster name, region and role of the specification (the last two when they are given).\<close>

theorem kubeconfig_refers_to_cluster:
  assumes "NewKubeConfigForCluster cluster (Some eks) = Some (Inr kc)"
  shows "\<exists>ca. CertificateAuthority eks = Some ca \<and>
    map_of (Contexts kc) (CurrentContext kc) =
      Some \<lparr>ctx_Cluster = eks_ClusterName (ec_Spec cluster), ctx_AuthInfo = ''spire-server-sa''\<rparr> \<and>
    (\<exists>d. DecodeString (StringValue ca) = Inr d \<and>
      map_of (kc_Clusters kc) (eks_ClusterName (ec_Spec cluster)) =
        Some \<lparr>Server = StringValue (Endpoint eks), CertificateAuthorityData = d\<rparr>) \<and>
    (\<exists>x. map_of (AuthInfos kc) ''spire-server-sa'' = Some x \<and> Command x = ''aws'' \<and>
      take 4 (Args x) = [''eks'', ''get-token'', ''--cluster-name'', eks_ClusterName (ec_Spec cluster)] \<and>
      drop 4 (Args x) =
        concat (map (\<lambda>(flag, v). if v = [] then [] else [flag, v])
          [(''--region'', Region (ec_Spec cluster)), (''--role-arn'', AssumeRoleARN (ec_Spec cluster))]))"
  using assms
  by (cases "CertificateAuthority eks")
    (auto simp: NewKubeConfigForCluster_def ebind_Inr_iff Let_def buildAwsArgs_def)

theorem kubeconfig_refers_to_cluster_witness:
  "\<exists>kc. NewKubeConfigForCluster (zero_EKSClusterRegistry\<lparr>ec_Spec := (ec_Spec zero_EKSClusterRegistry)\<lparr>eks_ClusterName := ''prod''\<rparr>\<rparr>)
      (Some \<lparr>Endpoint = Some ''https://prod'', CertificateAuthority = Some (Some ''Y2E='')\<rparr>) = Some (Inr kc) \<and>
     map_of (kc_Clusters kc) ''prod'' = Some \<lparr>Server = ''https://prod'', CertificateAuthorityData = ''ca''\<rparr>"
proof -
  let ?c = "zero_EKSClusterRegistry\<lparr>ec_Spec := (ec_Spec zero_EKSClusterRegistry)\<lparr>eks_ClusterName := ''prod''\<rparr>\<rparr>"
  let ?e = "\<lparr>Endpoint = Some ''https://prod'', CertificateAuthority = Some (Some ''Y2E='')\<rparr>"
  have ca: "DecodeString ''Y2E='' = Inr ''ca''" by code_simp
  then have "\<exists>kc. NewKubeConfigForCluster ?c (Some ?e) = Some (Inr kc)"
    by (simp add: NewKubeConfigForCluster_def StringValue_def Let_def)
  then obtain kc where kc: "NewKubeConfigForCluster ?c (Some ?e) = Some (Inr kc)" ..
  from kubeconfig_refers_to_cluster [OF kc] ca have
    "map_of (kc_Clusters kc) ''prod'' = Some \<lparr>Server = ''https://prod'', CertificateAuthorityData = ''ca''\<rparr>"
    by (auto simp: StringValue_def)
  with kc show ?thesis by blast
qed

text \<open>Once a client was handed out for a registry object, every later request for that object is
  answered with the same client, whatever region, cluster name or role the specification then
  names and whatever AWS says at that time.\<close>

theorem cached_client_ignores_spec:
  assumes "GetClusterClient env w cluster clients = Some (Inr k, clients')"
  shows "\<exists>clients''. GetClusterClient env w' (cluster\<lparr>ec_Spec := spec\<rparr>) clients' = Some (Inr k, clients'')"
  using assms
  by (auto simp: GetClusterClient_def map_of_update split: option.splits sum.splits bind_splits)

theorem cached_client_ignores_spec_witness:
  "\<exists>clients' clients''.
     GetClusterClient ref_aws () (zero_EKSClusterRegistry\<lparr>ec_Spec := (ec_Spec zero_EKSClusterRegistry)\<lparr>Region := ''us''\<rparr>\<rparr>) [] =
       Some (Inr (''https://'', [''eks'', ''get-token'', ''--cluster-name'', '''', ''--region'', ''us'']), clients') \<and>
     GetClusterClient ref_aws () (zero_EKSClusterRegistry\<lparr>ec_Spec := (ec_Spec zero_EKSClusterRegistry)\<lparr>Region := ''eu''\<rparr>\<rparr>) clients' =
       Some (Inr (''https://'', [''eks'', ''get-token'', ''--cluster-name'', '''', ''--region'', ''us'']), clients'')"
proof -
  let ?c = "zero_EKSClusterRegistry\<lparr>ec_Spec := (ec_Spec zero_EKSClusterRegistry)\<lparr>Region := ''us''\<rparr>\<rparr>"
  let ?k = "(''https://'', [''eks'', ''get-token'', ''--cluster-name'', '''', ''--region'', ''us''])"
  have "DecodeString ''Y2E='' = Inr ''ca''" by code_simp
  then have "\<exists>m. GetClusterClient ref_aws () ?c [] = Some (Inr ?k, m)"
    by (simp add: GetClusterClient_def createClusterClient_def cluster_kubeconfig_def ref_aws_def
        NewKubeConfigForCluster_def StringValue_def buildAwsArgs_def zero_EKSClusterRegistry_def Let_def)
  then obtain m where m: "GetClusterClient ref_aws () ?c [] = Some (Inr ?k, m)" ..
  from cached_client_ignores_spec [OF m, of "()" "(ec_Spec zero_EKSClusterRegistry)\<lparr>Region := ''eu''\<rparr>"] m
  show ?thesis by auto
qed

text \<open>The cleanup keeps exactly the clients used within the last thirty minutes.\<close>

theorem cleanup_keeps_recent_clients:
  assumes "wf_map clients"
  shows "map_of (CleanupStaleClients now clients) name =
    (case map_of clients name of
       None \<Rightarrow> None
     | Some c \<Rightarrow> if now - lastUsed c \<le> 30 * Minute then Some c else None)"
proof (rule map_of_eq_optionI)
  show "wf_map (CleanupStaleClients now clients)" by (rule CleanupStaleClients_wf [OF assms])
  show "(name, c) \<in> set (CleanupStaleClients now clients) \<longleftrightarrow>
      (case map_of clients name of
         None \<Rightarrow> None | Some c \<Rightarrow> if now - lastUsed c \<le> 30 * Minute then Some c else None) = Some c" for c
    using wf_map_mem_iff [OF assms, of name] by (auto simp: CleanupStaleClients_def Let_def split: option.splits)
qed

theorem cleanup_keeps_recent_clients_witness:
  "map_of (CleanupStaleClients (60 * Minute) [(''a'', \<lparr>Interface = (), lastUsed = 0\<rparr>), (''b'', \<lparr>Interface = (), lastUsed = 40 * Minute\<rparr>)]) ''a'' = None \<and>
   map_of (CleanupStaleClients (60 * Minute) [(''a'', \<lparr>Interface = (), lastUsed = 0\<rparr>), (''b'', \<lparr>Interface = (), lastUsed = 40 * Minute\<rparr>)]) ''b'' \<noteq> None"
  by (subst (1 2) cleanup_keeps_recent_clients) (simp_all add: wf_map_def Minute_def Second_def)

end
