(* ===== verification/Cluster_Manager.thy ===== *)
theory Cluster_Manager
  imports Aws_Client
begin

text \<open>
  \<open>internal/cluster/manager.go\<close>: the connections to the workload clusters. A stop channel is its
  number; the manager's state records which were made and which were closed, so that closing a
  channel twice, which panics, is a branch of the model. Operations hold the manager's lock for
  their whole body and are single steps here; \<open>Manager_Lock\<close> takes them apart and shows that they may be.
  Shown: the invariant under which no operation panics, that every operation keeps it, and what each
  does to the connections.
\<close>

subsection \<open>State and environment\<close>

record 'k ClusterConnection =
  conn_Cluster :: EKSClusterRegistry
  K8sClient :: 'k
  PodInformer :: "'k SharedIndexInformer"
  StopCh :: nat
  LastConnected :: gotime

record 'k Manager =
  awsClients :: "'k clusterClient gomap"
  clusters :: "'k ClusterConnection gomap"
  made :: nat
  closedChs :: "nat list"
  has_triggerer :: bool
  has_podReconciler :: bool

text \<open>
  \<open>WaitForCacheSync\<close> (client-go) returns whether the informer has synced, after a time in which
  the world moves on, or never returns.
\<close>

record ('w, 'k) cluster_env =
  cl_aws :: "('w, 'k) aws_env"
  WaitForCacheSync :: "'w \<Rightarrow> 'k SharedIndexInformer \<Rightarrow> (bool \<times> 'w) option"

subsection \<open>Operations\<close>

definition NewManager :: "bool \<Rightarrow> go_error option \<Rightarrow> go_error + 'k Manager" where
  "NewManager triggerer sessionErr =
     (case sessionErr of
        Some err \<Rightarrow> Inl err
      | None \<Rightarrow> Inr \<lparr>awsClients = [], clusters = [], made = 0, closedChs = [], has_triggerer = triggerer,
                     has_podReconciler = False\<rparr>)"

definition SetPodReconciler :: "'k Manager \<Rightarrow> 'k Manager" where
  "SetPodReconciler m = m\<lparr>has_podReconciler := True\<rparr>"

text \<open>\<open>close\<close> of a closed channel panics.\<close>

definition stopClusterConnection :: "'k ClusterConnection \<Rightarrow> 'k Manager \<Rightarrow> 'k Manager option" where
  "stopClusterConnection conn m =
     (if StopCh conn \<in> set (closedChs m) then None else Some (m\<lparr>closedChs := StopCh conn # closedChs m\<rparr>))"

definition createK8sClient ::
  "('w, 'k) cluster_env \<Rightarrow> 'w \<Rightarrow> EKSClusterRegistry \<Rightarrow> 'k Manager \<Rightarrow> ((go_error + 'k) \<times> 'k Manager) option" where
  "createK8sClient env w cluster m = do {
     (r, clients) \<leftarrow> GetClusterClient (cl_aws env) w cluster (awsClients m);
     Some (r, m\<lparr>awsClients := clients\<rparr>) }"

definition createPodInformer :: "'k \<Rightarrow> string \<Rightarrow> 'k SharedIndexInformer" where
  "createPodInformer k8sClient clusterName = \<lparr>inf_client = k8sClient, inf_cluster = clusterName\<rparr>"

definition createClusterConnection ::
  "('w, 'k) cluster_env \<Rightarrow> 'w \<Rightarrow> EKSClusterRegistry \<Rightarrow> 'k Manager \<Rightarrow>
   ((go_error + 'k ClusterConnection) \<times> 'k Manager) option" where
  "createClusterConnection env w cluster m = do {
     (r, m) \<leftarrow> createK8sClient env w cluster m;
     case r of
       Inl err \<Rightarrow> Some (Inl err, m)
     | Inr k8sClient \<Rightarrow>
         Some (Inr \<lparr>conn_Cluster = cluster, K8sClient = k8sClient,
                    PodInformer = createPodInformer k8sClient (ec_Name cluster),
                    StopCh = made m, LastConnected = aws_Now (cl_aws env) w\<rparr>,
               m\<lparr>made := Suc (made m)\<rparr>) }"

definition same_connection :: "EKSClusterRegistry \<Rightarrow> EKSClusterRegistry \<Rightarrow> bool" where
  "same_connection a b \<longleftrightarrow>
     eks_ClusterName (ec_Spec a) = eks_ClusterName (ec_Spec b) \<and> Region (ec_Spec a) = Region (ec_Spec b) \<and>
     AssumeRoleARN (ec_Spec a) = AssumeRoleARN (ec_Spec b)"

text \<open>From \<open>if !cluster.Spec.Enabled\<close> on: a connection that fails to sync stays in the map.\<close>

definition connectCluster ::
  "('w, 'k) cluster_env \<Rightarrow> EKSClusterRegistry \<Rightarrow> 'k Manager \<Rightarrow> 'w \<Rightarrow> (go_error option \<times> 'k Manager \<times> 'w) option" where
  "connectCluster env cluster m w =
     (if \<not> Enabled (ec_Spec cluster) then Some (None, m, w)
      else do {
        (r, m) \<leftarrow> createClusterConnection env w cluster m;
        case r of
          Inl err \<Rightarrow> Some (Some (Wrap ''failed to create cluster connection'' err), m, w)
        | Inr conn \<Rightarrow> do {
            let m = m\<lparr>clusters := AList.update (ec_Name cluster) conn (clusters m)\<rparr>;
            (synced, w) \<leftarrow> WaitForCacheSync env w (PodInformer conn);
            Some (if synced then None else Some (Errs ''failed to sync pod cache''), m, w) } })"

definition AddOrUpdateCluster ::
  "('w, 'k) cluster_env \<Rightarrow> EKSClusterRegistry \<Rightarrow> 'k Manager \<Rightarrow> 'w \<Rightarrow> (go_error option \<times> 'k Manager \<times> 'w) option" where
  "AddOrUpdateCluster env cluster m w =
     (case map_of (clusters m) (ec_Name cluster) of
        Some existing \<Rightarrow>
          if same_connection (conn_Cluster existing) cluster
          then Some (None, m\<lparr>clusters := AList.update (ec_Name cluster) (existing\<lparr>conn_Cluster := cluster\<rparr>) (clusters m)\<rparr>, w)
          else do {
            m \<leftarrow> stopClusterConnection existing m;
            connectCluster env cluster (m\<lparr>clusters := AList.delete (ec_Name cluster) (clusters m)\<rparr>) w }
      | None \<Rightarrow> connectCluster env cluster m w)"

definition RemoveCluster :: "string \<Rightarrow> 'k Manager \<Rightarrow> 'k Manager option" where
  "RemoveCluster clusterName m =
     (case map_of (clusters m) clusterName of
        Some conn \<Rightarrow> do {
          m \<leftarrow> stopClusterConnection conn m;
          Some (m\<lparr>clusters := AList.delete clusterName (clusters m)\<rparr>) }
      | None \<Rightarrow> Some m)"

definition GetClusterConnection :: "string \<Rightarrow> 'k Manager \<Rightarrow> 'k ClusterConnection option" where
  "GetClusterConnection clusterName m = map_of (clusters m) clusterName"

definition GetAllConnections ::
  "((string \<times> 'k ClusterConnection) list \<Rightarrow> (string \<times> 'k ClusterConnection) list) \<Rightarrow> 'k Manager \<Rightarrow>
   'k ClusterConnection list" where
  "GetAllConnections it m = map snd (it (clusters m))"

definition IsConnected :: "string \<Rightarrow> 'k Manager \<Rightarrow> bool" where
  "IsConnected clusterName m \<longleftrightarrow> map_of (clusters m) clusterName \<noteq> None"

text \<open>One tick of the loop of \<open>StartCleanupLoop\<close>.\<close>

definition cleanup_tick :: "gotime \<Rightarrow> 'k Manager \<Rightarrow> 'k Manager" where
  "cleanup_tick now m = m\<lparr>awsClients := CleanupStaleClients now (awsClients m)\<rparr>"

definition Shutdown ::
  "((string \<times> 'k ClusterConnection) list \<Rightarrow> (string \<times> 'k ClusterConnection) list) \<Rightarrow> 'k Manager \<Rightarrow> 'k Manager option" where
  "Shutdown it m = do {
     m \<leftarrow> for_each (\<lambda>(name, conn). stopClusterConnection conn) (it (clusters m)) m;
     Some (m\<lparr>clusters := []\<rparr>) }"

text \<open>
  The reaction to an informer event: which of the three ways is taken, with the pod and the
  connection handed to the pod reconciler.
\<close>

datatype pod_reaction = ReconcilePod Pod EKSClusterRegistry string | TriggerAll | NoReaction

definition event_pod :: "store_obj \<Rightarrow> Pod option" where
  "event_pod obj =
     (case obj of
        PodObj pod \<Rightarrow> Some pod
      | DeletedFinalStateUnknown (PodObj pod) \<Rightarrow> Some pod
      | _ \<Rightarrow> None)"

definition handlePodChange :: "string \<Rightarrow> store_obj \<Rightarrow> string \<Rightarrow> 'k Manager \<Rightarrow> pod_reaction" where
  "handlePodChange action obj clusterName m =
     (case event_pod obj of
        None \<Rightarrow> NoReaction
      | Some pod \<Rightarrow>
          if has_podReconciler m then
            (case map_of (clusters m) clusterName of
               Some conn \<Rightarrow> ReconcilePod pod (conn_Cluster conn) action
             | None \<Rightarrow> NoReaction)
          else if has_triggerer m then TriggerAll
          else NoReaction)"

subsection \<open>The invariant\<close>

text \<open>
  A connection is filed under the name of its registry object; stop channels are pairwise
  different, were made, and are open exactly while their connection is in the map.
\<close>

definition wf_manager :: "'k Manager \<Rightarrow> bool" where
  "wf_manager m \<longleftrightarrow>
     wf_map (clusters m) \<and> wf_map (awsClients m) \<and>
     (\<forall>n c. map_of (clusters m) n = Some c \<longrightarrow>
        ec_Name (conn_Cluster c) = n \<and> StopCh c < made m \<and> StopCh c \<notin> set (closedChs m)) \<and>
     (\<forall>n n' c c'. map_of (clusters m) n = Some c \<longrightarrow> map_of (clusters m) n' = Some c' \<longrightarrow>
        StopCh c = StopCh c' \<longrightarrow> n = n') \<and>
     set (closedChs m) \<union> StopCh ` ran (map_of (clusters m)) = {..<made m}"

lemma wf_managerD:
  assumes "wf_manager m" and "map_of (clusters m) n = Some c"
  shows "ec_Name (conn_Cluster c) = n" "StopCh c < made m" "StopCh c \<notin> set (closedChs m)"
  using assms unfolding wf_manager_def by blast+

lemma wf_manager_closed: "wf_manager m \<Longrightarrow> set (closedChs m) \<subseteq> {..<made m}"
  unfolding wf_manager_def by blast

lemma wf_manager_channels: "wf_manager m \<Longrightarrow> set (closedChs m) \<union> StopCh ` ran (map_of (clusters m)) = {..<made m}"
  unfolding wf_manager_def by blast

lemma StopCh_ran_update:
  "StopCh ` ran (m(n \<mapsto> c)) = insert (StopCh c) (StopCh ` ran (m(n := None)))"
  by (auto simp: ran_def)

lemma StopCh_ran_delete: "m n = Some c \<Longrightarrow> insert (StopCh c) (StopCh ` ran (m(n := None))) = StopCh ` ran m"
  by (force simp: ran_def image_iff)

lemma wf_manager_shrink:
  assumes "wf_manager m" and "map_of (clusters m) n = Some c"
  shows "wf_manager (m\<lparr>closedChs := StopCh c # closedChs m, clusters := AList.delete n (clusters m)\<rparr>)"
proof -
  let ?m = "m\<lparr>closedChs := StopCh c # closedChs m, clusters := AList.delete n (clusters m)\<rparr>"
  have sel: "map_of (clusters ?m) = (map_of (clusters m))(n := None)" "wf_map (clusters ?m)" "wf_map (awsClients ?m)"
    "made ?m = made m" "set (closedChs ?m) = insert (StopCh c) (set (closedChs m))"
    using assms(1) by (simp_all add: map_of_delete wf_manager_def)
  have "insert (StopCh c) (set (closedChs m)) \<union> StopCh ` ran ((map_of (clusters m))(n := None)) = {..<made m}"
    using wf_manager_channels [OF assms(1)] unfolding Un_insert_left Un_insert_right [symmetric] StopCh_ran_delete [of "map_of (clusters m)", OF assms(2)] .
  moreover have "\<forall>n1 c1. ((map_of (clusters m))(n := None)) n1 = Some c1 \<longrightarrow>
      ec_Name (conn_Cluster c1) = n1 \<and> StopCh c1 < made m \<and> StopCh c1 \<notin> insert (StopCh c) (set (closedChs m))"
    using assms unfolding wf_manager_def by (metis fun_upd_apply insert_iff option.distinct(1))
  moreover have "\<forall>n1 n2 c1 c2. ((map_of (clusters m))(n := None)) n1 = Some c1 \<longrightarrow>
      ((map_of (clusters m))(n := None)) n2 = Some c2 \<longrightarrow> StopCh c1 = StopCh c2 \<longrightarrow> n1 = n2"
    using assms(1) unfolding wf_manager_def by (metis fun_upd_apply option.distinct(1))
  ultimately show ?thesis unfolding wf_manager_def sel(1,4,5) using sel(2,3) by (intro conjI)
qed

text \<open>A connection is put under a name: in place of one with the same channel, or with a new channel.\<close>

lemma wf_manager_put:
  assumes "wf_manager m" and "ec_Name (conn_Cluster c) = n" and "StopCh c < k" and "StopCh c \<notin> set (closedChs m)"
    and "\<And>n' c'. map_of (clusters m) n' = Some c' \<Longrightarrow> n' \<noteq> n \<Longrightarrow> StopCh c' \<noteq> StopCh c" and "made m \<le> k"
    and "set (closedChs m) \<union> insert (StopCh c) (StopCh ` ran ((map_of (clusters m))(n := None))) = {..<k}"
  shows "wf_manager (m\<lparr>made := k, clusters := AList.update n c (clusters m)\<rparr>)"
proof -
  let ?m = "m\<lparr>made := k, clusters := AList.update n c (clusters m)\<rparr>"
  have sel: "map_of (clusters ?m) = (map_of (clusters m))(n \<mapsto> c)" "wf_map (clusters ?m)" "wf_map (awsClients ?m)"
    "made ?m = k" "closedChs ?m = closedChs m"
    "set (closedChs m) \<union> StopCh ` ran ((map_of (clusters m))(n \<mapsto> c)) = {..<k}"
    using assms(1,7) by (simp_all add: map_of_update wf_manager_def StopCh_ran_update)
  have "\<forall>n1 n2 c1 c2. ((map_of (clusters m))(n \<mapsto> c)) n1 = Some c1 \<longrightarrow>
      ((map_of (clusters m))(n \<mapsto> c)) n2 = Some c2 \<longrightarrow> StopCh c1 = StopCh c2 \<longrightarrow> n1 = n2"
    using assms(1,5) unfolding wf_manager_def by auto metis
  moreover have "\<forall>n1 c1. ((map_of (clusters m))(n \<mapsto> c)) n1 = Some c1 \<longrightarrow>
      ec_Name (conn_Cluster c1) = n1 \<and> StopCh c1 < k \<and> StopCh c1 \<notin> set (closedChs m)"
    using assms(1-4,6) unfolding wf_manager_def by (auto intro: less_le_trans)
  ultimately show ?thesis unfolding wf_manager_def sel(1,4,5) using sel(2,3,6) by (intro conjI)
qed

lemma wf_manager_refresh:
  assumes "wf_manager m" and "map_of (clusters m) (ec_Name cluster) = Some old"
  shows "wf_manager (m\<lparr>clusters := AList.update (ec_Name cluster) (old\<lparr>conn_Cluster := cluster\<rparr>) (clusters m)\<rparr>)"
proof -
  have "StopCh c' \<noteq> StopCh old" if "map_of (clusters m) n' = Some c'" "n' \<noteq> ec_Name cluster" for n' c'
    using that assms unfolding wf_manager_def by metis
  moreover have "set (closedChs m) \<union> insert (StopCh old) (StopCh ` ran ((map_of (clusters m))(ec_Name cluster := None))) = {..<made m}"
    unfolding StopCh_ran_delete [of "map_of (clusters m)", OF assms(2)] by (rule wf_manager_channels [OF assms(1)])
  ultimately have "wf_manager (m\<lparr>made := made m, clusters := AList.update (ec_Name cluster) (old\<lparr>conn_Cluster := cluster\<rparr>) (clusters m)\<rparr>)"
    using wf_managerD [OF assms] by (intro wf_manager_put [OF assms(1)]) auto
  then show ?thesis by simp
qed

lemma wf_manager_new:
  assumes "wf_manager m" and "map_of (clusters m) n = None" and "ec_Name (conn_Cluster c) = n" and "StopCh c = made m"
  shows "wf_manager (m\<lparr>made := Suc (made m), clusters := AList.update n c (clusters m)\<rparr>)"
proof (rule wf_manager_put [OF assms(1,3)])
  show "StopCh c \<notin> set (closedChs m)" using wf_manager_closed [OF assms(1)] assms(4) by auto
  show "StopCh c' \<noteq> StopCh c" if "map_of (clusters m) n' = Some c'" for n' c'
    using wf_managerD(2) [OF assms(1) that] assms(4) by simp
  have "(map_of (clusters m))(n := None) = map_of (clusters m)" using assms(2) by (simp add: fun_eq_iff)
  then show "set (closedChs m) \<union> insert (StopCh c) (StopCh ` ran ((map_of (clusters m))(n := None))) = {..<Suc (made m)}"
    using assms(1,4) unfolding wf_manager_def by (simp add: lessThan_Suc)
qed (use assms(4) in simp_all)

lemma wf_manager_clients [simp]:
  "wf_map clients \<Longrightarrow> wf_manager m \<Longrightarrow> wf_manager (m\<lparr>awsClients := clients\<rparr>)"
  by (auto simp: wf_manager_def)

lemma createClusterConnection_shape:
  assumes "createClusterConnection env w cluster m = Some (r, m')" and "wf_manager m"
  obtains clients where "wf_manager (m\<lparr>awsClients := clients\<rparr>)"
    "case r of Inl _ \<Rightarrow> m' = m\<lparr>awsClients := clients\<rparr>
     | Inr conn \<Rightarrow> conn_Cluster conn = cluster \<and> StopCh conn = made m \<and> m' = m\<lparr>awsClients := clients, made := Suc (made m)\<rparr>"
proof -
  obtain q clients where q: "GetClusterClient (cl_aws env) w cluster (awsClients m) = Some (q, clients)"
    using assms(1) by (auto simp: createClusterConnection_def createK8sClient_def split: bind_splits)
  have "wf_map (awsClients m)" using assms(2) by (simp add: wf_manager_def)
  from GetClusterClient_wf [OF q this] have wf: "wf_manager (m\<lparr>awsClients := clients\<rparr>)" using assms(2) by simp
  show thesis
    by (rule that [OF wf]) (use assms(1) q in \<open>cases q; auto simp: createClusterConnection_def createK8sClient_def\<close>)
qed

lemma connectCluster_shape:
  assumes "connectCluster env cluster m w = Some (err, m', w')" and "wf_manager m"
    and "map_of (clusters m) (ec_Name cluster) = None"
  shows "wf_manager m' \<and> (\<forall>n. n \<noteq> ec_Name cluster \<longrightarrow> map_of (clusters m') n = map_of (clusters m) n) \<and>
    (\<not> Enabled (ec_Spec cluster) \<longrightarrow> m' = m) \<and>
    (Enabled (ec_Spec cluster) \<longrightarrow> err = None \<longrightarrow>
      (\<exists>conn. map_of (clusters m') (ec_Name cluster) = Some conn \<and> conn_Cluster conn = cluster))"
proof (cases "Enabled (ec_Spec cluster)")
  case True
  then obtain r m1 where r: "createClusterConnection env w cluster m = Some (r, m1)"
    using assms(1) by (auto simp: connectCluster_def split: bind_splits)
  obtain clients where wf: "wf_manager (m\<lparr>awsClients := clients\<rparr>)" and
    c: "case r of Inl _ \<Rightarrow> m1 = m\<lparr>awsClients := clients\<rparr>
      | Inr conn \<Rightarrow> conn_Cluster conn = cluster \<and> StopCh conn = made m \<and> m1 = m\<lparr>awsClients := clients, made := Suc (made m)\<rparr>"
    by (rule createClusterConnection_shape [OF r assms(2)])
  show ?thesis
  proof (cases r)
    case (Inl e)
    then show ?thesis using assms(1) r True wf c by (auto simp: connectCluster_def)
  next
    case (Inr conn)
    have "wf_manager (m1\<lparr>clusters := AList.update (ec_Name cluster) conn (clusters m1)\<rparr>)"
      using wf_manager_new [OF wf, of "ec_Name cluster" conn] assms(3) c Inr by simp
    then show ?thesis using assms(1) r True Inr c
      by (auto simp: connectCluster_def Let_def map_of_update split: bind_splits)
  qed
qed (use assms in \<open>auto simp: connectCluster_def\<close>)

lemma stopClusterConnection_wf:
  "wf_manager m \<Longrightarrow> map_of (clusters m) n = Some c \<Longrightarrow>
     stopClusterConnection c m = Some (m\<lparr>closedChs := StopCh c # closedChs m\<rparr>)"
  using wf_managerD(3) by (auto simp: stopClusterConnection_def)

lemma AddOrUpdateCluster_shape:
  assumes "AddOrUpdateCluster env cluster m w = Some (err, m', w')" and "wf_manager m"
  shows "wf_manager m' \<and> (\<forall>n. n \<noteq> ec_Name cluster \<longrightarrow> map_of (clusters m') n = map_of (clusters m) n)"
proof (cases "map_of (clusters m) (ec_Name cluster)")
  case None
  then have "connectCluster env cluster m w = Some (err, m', w')"
    using assms(1) by (simp add: AddOrUpdateCluster_def)
  from connectCluster_shape [OF this assms(2) None] show ?thesis by blast
next
  case (Some old)
  show ?thesis
  proof (cases "same_connection (conn_Cluster old) cluster")
    case True
    from wf_manager_refresh [OF assms(2) Some]
    show ?thesis using assms(1) Some True by (auto simp: AddOrUpdateCluster_def map_of_update)
  next
    case False
    let ?m = "m\<lparr>closedChs := StopCh old # closedChs m, clusters := AList.delete (ec_Name cluster) (clusters m)\<rparr>"
    have "connectCluster env cluster ?m w = Some (err, m', w')"
      using assms(1) Some False by (simp add: AddOrUpdateCluster_def stopClusterConnection_wf [OF assms(2) Some])
    from connectCluster_shape [OF this wf_manager_shrink [OF assms(2) Some]] show ?thesis
      by (auto simp: map_of_delete)
  qed
qed

lemma RemoveCluster_shape:
  assumes "wf_manager m"
  shows "\<exists>m'. RemoveCluster n m = Some m' \<and> wf_manager m' \<and> map_of (clusters m') = (map_of (clusters m))(n := None)"
proof (cases "map_of (clusters m) n")
  case None
  then show ?thesis using assms by (auto simp: RemoveCluster_def)
next
  case (Some c)
  then show ?thesis using wf_manager_shrink [OF assms Some]
    by (simp add: RemoveCluster_def stopClusterConnection_wf [OF assms] map_of_delete)
qed


subsection \<open>The contract the reconcilers rely on\<close>

locale connection_manager =
  fixes inv :: "'m \<Rightarrow> bool"
    and connection :: "'m \<Rightarrow> string \<Rightarrow> 'c option"
    and add :: "'e \<Rightarrow> EKSClusterRegistry \<Rightarrow> 'm \<Rightarrow> 'w \<Rightarrow> (go_error option \<times> 'm \<times> 'w) option"
    and remove :: "string \<Rightarrow> 'm \<Rightarrow> 'm option"
  assumes add_law: "inv m \<Longrightarrow> add env c m w = Some (err, m', w') \<Longrightarrow>
      inv m' \<and> (\<forall>n. n \<noteq> ec_Name c \<longrightarrow> connection m' n = connection m n)"
    and remove_law: "inv m \<Longrightarrow>
      \<exists>m'. remove n m = Some m' \<and> inv m' \<and> connection m' = (connection m)(n := None)"
begin

lemma add_each:
  assumes "for_each (\<lambda>c (m, w). map_option snd (add env c m w)) cs (m, w) = Some (m', w')" and "inv m"
  shows "inv m' \<and> (\<forall>n. n \<notin> ec_Name ` set cs \<longrightarrow> connection m' n = connection m n)"
  using assms
proof (induction cs arbitrary: m w)
  case (Cons c cs)
  then obtain err m1 w1 where a: "add env c m w = Some (err, m1, w1)"
    "for_each (\<lambda>c (m, w). map_option snd (add env c m w)) cs (m1, w1) = Some (m', w')"
    by (auto split: bind_splits)
  from add_law [OF Cons.prems(2) a(1)] Cons.IH [OF a(2)] show ?case by auto
qed simp

lemma remove_each:
  assumes "inv m"
  shows "\<exists>m'. for_each remove ns m = Some m' \<and> inv m' \<and> connection m' = connection m |` (- set ns)"
  using assms
proof (induction ns arbitrary: m)
  case (Cons n ns)
  from remove_law [OF Cons.prems] obtain m1 where
    m1: "remove n m = Some m1" "inv m1" "connection m1 = (connection m)(n := None)" by blast
  from Cons.IH [OF m1(2)] obtain m' where
    m': "for_each remove ns m1 = Some m'" "inv m'" "connection m' = connection m1 |` (- set ns)" by blast
  have "connection m' = connection m |` (- set (n # ns))"
    unfolding m'(3) m1(3) by (auto simp: restrict_map_def fun_eq_iff)
  with m1(1) m'(1,2) show ?case by simp
qed (simp add: restrict_map_def)

end

interpretation conns: connection_manager wf_manager "\<lambda>m. map_of (clusters m)" AddOrUpdateCluster RemoveCluster
proof (unfold_locales, goal_cases)
  case (1 m env c w err m' w')
  then show ?case by (intro AddOrUpdateCluster_shape) auto
next
  case (2 m n)
  then show ?case by (rule RemoveCluster_shape)
qed

lemma Shutdown_loop:
  assumes "distinct (map (StopCh \<circ> snd) cs)" and "\<And>n c. (n, c) \<in> set cs \<Longrightarrow> StopCh c \<notin> set (closedChs m)"
  shows "for_each (\<lambda>(name, conn). stopClusterConnection conn) cs m =
    Some (m\<lparr>closedChs := rev (map (StopCh \<circ> snd) cs) @ closedChs m\<rparr>)"
  using assms
proof (induction cs arbitrary: m)
  case (Cons x cs)
  obtain n c where x: "x = (n, c)" by force
  have "StopCh c \<notin> set (closedChs m)" by (rule Cons.prems(2) [of n]) (simp add: x)
  moreover have "for_each (\<lambda>(name, conn). stopClusterConnection conn) cs (m\<lparr>closedChs := StopCh c # closedChs m\<rparr>) =
      Some (m\<lparr>closedChs := rev (map (StopCh \<circ> snd) cs) @ StopCh c # closedChs m\<rparr>)"
    by (subst Cons.IH) (use Cons.prems x in \<open>auto simp: image_iff comp_def\<close>)
  moreover from calculation(1) have "stopClusterConnection c m = Some (m\<lparr>closedChs := StopCh c # closedChs m\<rparr>)"
    by (simp add: stopClusterConnection_def)
  ultimately show ?case using x by simp
qed simp

lemma Shutdown_run:
  assumes "wf_manager m" and "visits it"
  shows "\<exists>m'. Shutdown it m = Some m' \<and> wf_manager m' \<and> clusters m' = [] \<and> made m' = made m \<and>
    set (closedChs m') = set (closedChs m) \<union> StopCh ` ran (map_of (clusters m)) \<and> set (closedChs m') = {..<made m'}"
proof -
  have wf: "wf_map (it (clusters m))" using visits_distinct_keys [OF assms(2)] assms(1) by (simp add: wf_manager_def)
  have mem: "(n, c) \<in> set (it (clusters m)) \<longleftrightarrow> map_of (clusters m) n = Some c" for n c
    using assms by (simp add: wf_map_mem_iff wf_manager_def)
  have "inj_on (StopCh \<circ> snd) (set (it (clusters m)))"
  proof (rule inj_onI)
    fix x y assume xy: "x \<in> set (it (clusters m))" "y \<in> set (it (clusters m))" "(StopCh \<circ> snd) x = (StopCh \<circ> snd) y"
    obtain n c n' c' where x: "x = (n, c)" and y: "y = (n', c')" by (cases x, cases y)
    have "map_of (clusters m) n = Some c" "map_of (clusters m) n' = Some c'" "StopCh c = StopCh c'"
      using xy mem unfolding x y by auto
    moreover from this have "n = n'" using assms(1) unfolding wf_manager_def by blast
    ultimately show "x = y" unfolding x y by simp
  qed
  moreover have "distinct (it (clusters m))" using wf unfolding wf_map_def by (simp add: distinct_map)
  ultimately have d: "distinct (map (StopCh \<circ> snd) (it (clusters m)))" by (simp add: distinct_map)
  have o: "StopCh c \<notin> set (closedChs m)" if "(n, c) \<in> set (it (clusters m))" for n c
    using that wf_managerD(3) [OF assms(1)] unfolding mem by blast
  let ?m = "m\<lparr>closedChs := rev (map (StopCh \<circ> snd) (it (clusters m))) @ closedChs m, clusters := []\<rparr>"
  have "Shutdown it m = Some ?m" unfolding Shutdown_def by (subst Shutdown_loop [OF d o]) simp_all
  moreover have "StopCh ` ran (map_of (clusters m)) = (StopCh \<circ> snd) ` set (it (clusters m))"
    unfolding ran_def using mem by (force simp: image_iff)
  moreover from this have "set (closedChs ?m) = {..<made ?m}" using assms(1) unfolding wf_manager_def by auto
  then have "wf_manager ?m" using assms(1) unfolding wf_manager_def by auto
  ultimately show ?thesis using \<open>set (closedChs ?m) = {..<made ?m}\<close> by auto
qed

subsection \<open>Properties\<close>


text \<open>A shutdown closes every stop channel that is still open, each once, and leaves no
  connection, whatever the order in which the map is visited; after it every channel that was ever
  made is closed.\<close>

theorem shutdown_closes_all:
  assumes "wf_manager m" and "visits it"
  shows "\<exists>m'. Shutdown it m = Some m' \<and> wf_manager m' \<and> clusters m' = [] \<and> made m' = made m \<and>
    set (closedChs m') = set (closedChs m) \<union> StopCh ` ran (map_of (clusters m)) \<and> set (closedChs m') = {..<made m'}"
  by (rule Shutdown_run [OF assms])

text \<open>A manager with one connection, for evaluation.\<close>

definition ref_registry :: "string \<Rightarrow> EKSClusterRegistry" where
  "ref_registry region =
     zero_EKSClusterRegistry\<lparr>ec_Meta := zero_meta\<lparr>Name := ''east''\<rparr>,
       ec_Spec := (ec_Spec zero_EKSClusterRegistry)\<lparr>Region := region, Enabled := True\<rparr>\<rparr>"

definition ref_cluster_env :: "(unit, string \<times> string list) cluster_env" where
  "ref_cluster_env = \<lparr>cl_aws = ref_aws, WaitForCacheSync = (\<lambda>w i. Some (True, w))\<rparr>"

definition ref_manager :: "(string \<times> string list) Manager" where
  "ref_manager =
     \<lparr>awsClients = [(''east'', \<lparr>Interface = (''old'', []), lastUsed = 0\<rparr>)],
      clusters = [(''east'', \<lparr>conn_Cluster = ref_registry ''us'', K8sClient = (''old'', []),
        PodInformer = \<lparr>inf_client = (''old'', []), inf_cluster = ''east''\<rparr>, StopCh = 0, LastConnected = 0\<rparr>)],
      made = 1, closedChs = [], has_triggerer = False, has_podReconciler = False\<rparr>"

lemma ref_manager_wf: "wf_manager ref_manager"
  by (auto simp: ref_manager_def wf_manager_def wf_map_def ref_registry_def zero_meta_def)


theorem shutdown_closes_all_witness:
  "\<exists>m'. Shutdown rev ref_manager = Some m' \<and> clusters m' = [] \<and> set (closedChs m') = {0}"
proof -
  have "visits (rev :: (string \<times> (string \<times> string list) ClusterConnection) list \<Rightarrow> _)" by (simp add: visits_def)
  moreover have "StopCh ` ran (map_of (clusters ref_manager)) = {0}" "set (closedChs ref_manager) = {}"
    by (auto simp: ref_manager_def ran_def image_def)
  ultimately show ?thesis using shutdown_closes_all [OF ref_manager_wf, of rev] by auto
qed

text \<open>After an update that reports no error an enabled cluster is connected with the given
  registry object, and a disabled one is connected exactly when it was already and neither its
  EKS name, region nor role changed (its connection is then kept although it is disabled).\<close>

theorem add_or_update_outcome:
  assumes "wf_manager m" and "AddOrUpdateCluster env cluster m w = Some (None, m', w')"
  shows "(if Enabled (ec_Spec cluster)
     then \<exists>conn. GetClusterConnection (ec_Name cluster) m' = Some conn \<and> conn_Cluster conn = cluster
     else IsConnected (ec_Name cluster) m' \<longleftrightarrow>
       (\<exists>old. GetClusterConnection (ec_Name cluster) m = Some old \<and> same_connection (conn_Cluster old) cluster))"
proof (cases "map_of (clusters m) (ec_Name cluster)")
  case None
  then have "connectCluster env cluster m w = Some (None, m', w')" using assms(2) by (simp add: AddOrUpdateCluster_def)
  from connectCluster_shape [OF this assms(1) None] None show ?thesis
    by (auto simp: GetClusterConnection_def IsConnected_def)
next
  case (Some old)
  show ?thesis
  proof (cases "same_connection (conn_Cluster old) cluster")
    case True
    then show ?thesis using assms(2) Some
      by (auto simp: AddOrUpdateCluster_def GetClusterConnection_def IsConnected_def map_of_update)
  next
    case False
    have c: "connectCluster env cluster (m\<lparr>closedChs := StopCh old # closedChs m,
        clusters := AList.delete (ec_Name cluster) (clusters m)\<rparr>) w = Some (None, m', w')"
      using assms(2) Some False by (simp add: AddOrUpdateCluster_def stopClusterConnection_wf [OF assms(1) Some])
    from connectCluster_shape [OF c wf_manager_shrink [OF assms(1) Some]] Some False show ?thesis
      by (auto simp: GetClusterConnection_def IsConnected_def map_of_delete)
  qed
qed

theorem add_or_update_outcome_witness:
  "\<exists>m' conn. AddOrUpdateCluster ref_cluster_env (ref_registry ''us'') ref_manager () = Some (None, m', ()) \<and>
     GetClusterConnection ''east'' m' = Some conn \<and> conn_Cluster conn = ref_registry ''us''"
proof -
  have "\<exists>m'. AddOrUpdateCluster ref_cluster_env (ref_registry ''us'') ref_manager () = Some (None, m', ())"
    by (simp add: AddOrUpdateCluster_def ref_manager_def ref_registry_def zero_meta_def same_connection_def)
  then obtain m' where m': "AddOrUpdateCluster ref_cluster_env (ref_registry ''us'') ref_manager () = Some (None, m', ())" ..
  from add_or_update_outcome [OF ref_manager_wf m'] m' show ?thesis
    by (simp add: ref_registry_def zero_meta_def)
qed

text \<open>When region, EKS name or role of a connected, enabled cluster change, the old stop channel
  is closed and a new connection is made, but on the client that was cached for the old
  specification.\<close>

theorem reconnect_uses_stale_client:
  assumes "wf_manager m" and "AddOrUpdateCluster env cluster m w = Some (None, m', w')"
    and "map_of (clusters m) (ec_Name cluster) = Some old" and "\<not> same_connection (conn_Cluster old) cluster"
    and "map_of (awsClients m) (ec_Name cluster) = Some cached" and "Enabled (ec_Spec cluster)"
  shows "\<exists>conn. map_of (clusters m') (ec_Name cluster) = Some conn \<and> conn_Cluster conn = cluster \<and>
    K8sClient conn = Interface cached \<and> StopCh old \<in> set (closedChs m') \<and> StopCh conn \<notin> set (closedChs m')"
proof -
  have made: "made m \<notin> set (closedChs m)" "made m \<noteq> StopCh old"
    using assms(1) wf_managerD(2) [OF assms(1,3)] unfolding wf_manager_def by auto
  have "connectCluster env cluster (m\<lparr>closedChs := StopCh old # closedChs m,
      clusters := AList.delete (ec_Name cluster) (clusters m)\<rparr>) w = Some (None, m', w')"
    using assms(2-4) by (simp add: AddOrUpdateCluster_def stopClusterConnection_wf [OF assms(1,3)])
  with assms(5,6) made show ?thesis
    by (auto simp: connectCluster_def createClusterConnection_def createK8sClient_def GetClusterClient_def
        Let_def map_of_update split: bind_splits)
qed

theorem reconnect_uses_stale_client_witness:
  "\<exists>m' conn. AddOrUpdateCluster ref_cluster_env (ref_registry ''eu'') ref_manager () = Some (None, m', ()) \<and>
     map_of (clusters m') ''east'' = Some conn \<and> K8sClient conn = (''old'', [])"
proof -
  have n: "ec_Name (ref_registry r) = ''east''" "Enabled (ec_Spec (ref_registry r))" for r
    by (simp_all add: ref_registry_def zero_meta_def)
  have "\<exists>m'. AddOrUpdateCluster ref_cluster_env (ref_registry ''eu'') ref_manager () = Some (None, m', ())"
    by (simp add: AddOrUpdateCluster_def ref_manager_def ref_registry_def zero_meta_def same_connection_def
        stopClusterConnection_def connectCluster_def createClusterConnection_def createK8sClient_def
        GetClusterClient_def ref_cluster_env_def Let_def)
  then obtain m' where m': "AddOrUpdateCluster ref_cluster_env (ref_registry ''eu'') ref_manager () = Some (None, m', ())" ..
  let ?old = "snd (hd (clusters ref_manager))" and ?cached = "snd (hd (awsClients ref_manager))"
  have "map_of (clusters ref_manager) (ec_Name (ref_registry ''eu'')) = Some ?old"
    "\<not> same_connection (conn_Cluster ?old) (ref_registry ''eu'')"
    "map_of (awsClients ref_manager) (ec_Name (ref_registry ''eu'')) = Some ?cached"
    unfolding n by (simp_all add: ref_manager_def same_connection_def ref_registry_def)
  from reconnect_uses_stale_client [OF ref_manager_wf m' this n(2)] m' show ?thesis
    unfolding n by (auto simp: ref_manager_def)
qed

text \<open>A pod event leads to a targeted reconciliation of exactly that pod, with the registry object
  the manager holds for the cluster, when a pod reconciler is set and the cluster is connected
  (a tombstone counts as its pod); anything that is not a pod leads to nothing.\<close>

theorem pod_event_reaction:
  "handlePodChange action obj name m = ReconcilePod pod registry a \<longleftrightarrow>
     (obj = PodObj pod \<or> obj = DeletedFinalStateUnknown (PodObj pod)) \<and> has_podReconciler m \<and> a = action \<and>
     (\<exists>conn. GetClusterConnection name m = Some conn \<and> registry = conn_Cluster conn)"
  by (auto simp: handlePodChange_def event_pod_def GetClusterConnection_def split: option.splits store_obj.splits if_splits)

end
