(* ===== verification/Main_Reconciler.thy ===== *)
theory Main_Reconciler
  imports Entries_State Cluster_Manager
begin

text \<open>
  \<open>internal/controller/main_reconciler.go\<close>: the full reconciliation. It brings the connections in
  line with the registry objects, declares an entry for every eligible pod, compares with the
  entries the SPIRE server holds and applies the difference, then writes the statuses.

  Shown: which entries are declared, that the connections afterwards belong to enabled clusters,
  that entries without the prefix are never touched, and that the managed part of the server's
  table becomes the declared one.
\<close>

subsection \<open>The reconciler\<close>

text \<open>
  \<open>client.Client\<close> is \<open>mr_kube\<close>; a regular expression is only matched and is its match function.
  The visiting order of a \<open>range\<close> over a map may be different at every moment, so it depends on
  the world.
\<close>

record ('id, 'td, 'w, 'k) MainReconciler =
  mr_lib :: "('id, 'td) lib"
  mr_kube :: "('w, 'k) kube"
  mr_env :: "('w, 'k) cluster_env"
  TrustDomain :: 'td
  ClusterName :: string
  IgnoreNamespaces :: "(string \<Rightarrow> bool) list"
  EntryIDPrefix :: string
  GCInterval :: duration
  SPIREClient :: "('id, 'td, 'w) Client"
  range_clusters :: "'w \<Rightarrow> (string \<times> 'k ClusterConnection) list \<Rightarrow> (string \<times> 'k ClusterConnection) list"
  range_declared :: "'w \<Rightarrow> ('id, 'td) map_order"
  range_current :: "'w \<Rightarrow> ('id, 'td) map_order"

subsection \<open>Selection\<close>

text \<open>\<open>None\<close>: a nil selector without an error is dereferenced.\<close>

definition shouldProcessIdentity ::
  "('id, 'td, 'w, 'k) MainReconciler \<Rightarrow> WorkloadIdentity \<Rightarrow> EKSClusterRegistry \<Rightarrow> bool option" where
  "shouldProcessIdentity r identity cluster =
     (if ClusterSelector (wi_Spec identity) = None then Some True
      else case LabelSelectorAsSelector (mr_kube r) (ClusterSelector (wi_Spec identity)) of
             Inl _ \<Rightarrow> Some False
           | Inr None \<Rightarrow> None
           | Inr (Some sel) \<Rightarrow> Some (sel (eks_Labels (ec_Spec cluster))))"

definition shouldProcessEntry :: "('id, 'td, 'w, 'k) MainReconciler \<Rightarrow> ('id, 'td) Entry \<Rightarrow> bool" where
  "shouldProcessEntry r entry =
     (if EntryIDPrefix r = [] then True else HasPrefix (ID entry) (EntryIDPrefix r))"

definition isNamespaceIgnored :: "('id, 'td, 'w, 'k) MainReconciler \<Rightarrow> string \<Rightarrow> bool" where
  "isNamespaceIgnored r namespace = list_ex (\<lambda>regex. regex namespace) (IgnoreNamespaces r)"

text \<open>The body of the loop over the informer's store.\<close>

definition selectPod :: "WorkloadIdentity \<Rightarrow> labels_Selector option \<Rightarrow> store_obj \<Rightarrow> Pod option" where
  "selectPod identity podSelector obj =
     (case obj of
        PodObj pod \<Rightarrow>
          if Namespace (pod_Meta pod) \<noteq> spec_Namespace (wi_Spec identity) then None
          else if (case podSelector of None \<Rightarrow> False | Some sel \<Rightarrow> \<not> sel (Labels (pod_Meta pod))) then None
          else Some pod
      | _ \<Rightarrow> None)"

definition getPodsFromInformer ::
  "('id, 'td, 'w, 'k) MainReconciler \<Rightarrow> 'w \<Rightarrow> 'k ClusterConnection \<Rightarrow> WorkloadIdentity \<Rightarrow> go_error + Pod list" where
  "getPodsFromInformer r w conn identity =
     ebind (LabelSelectorAsSelector (mr_kube r) (PodSelector (wi_Spec identity))) (\<lambda>podSelector.
     Inr (List.map_filter (selectPod identity podSelector) (store_List (mr_kube r) w (PodInformer conn))))"

definition pod_active :: "Pod \<Rightarrow> bool" where
  "pod_active pod \<longleftrightarrow>
     pod_Phase pod = ''Running'' \<and> DeletionTimestamp (pod_Meta pod) = None \<and> NodeName (pod_Spec pod) \<noteq> []"

subsection \<open>Declaring\<close>

text \<open>The body of the pod loop of \<open>processWorkloadIdentity\<close>.\<close>

definition declarePod ::
  "('id, 'td, 'w, 'k) MainReconciler \<Rightarrow> 'w \<Rightarrow> WorkloadIdentity \<Rightarrow> 'k ClusterConnection \<Rightarrow> Pod \<Rightarrow>
   ('id, 'td) entriesState \<Rightarrow> ('id, 'td) entriesState" where
  "declarePod r w identity conn pod state =
     (if pod_Phase pod \<noteq> ''Running'' \<or> DeletionTimestamp (pod_Meta pod) \<noteq> None then state
      else if NodeName (pod_Spec pod) = [] then state
      else case nodes_Get (mr_kube r) w (K8sClient conn) (NodeName (pod_Spec pod)) of
             Inl _ \<Rightarrow> state
           | Inr node \<Rightarrow>
               (case RenderEntry (mr_lib r) identity (conn_Cluster conn) pod node (TrustDomain_String (mr_lib r) (TrustDomain r)) of
                  Inl _ \<Rightarrow> state
                | Inr entry \<Rightarrow> AddDeclared (mr_lib r) entry state))"

definition processWorkloadIdentity ::
  "('id, 'td, 'w, 'k) MainReconciler \<Rightarrow> 'w \<Rightarrow> WorkloadIdentity \<Rightarrow> 'k ClusterConnection \<Rightarrow>
   ('id, 'td) entriesState \<Rightarrow> ('id, 'td) entriesState" where
  "processWorkloadIdentity r w identity conn state =
     (if isNamespaceIgnored r (spec_Namespace (wi_Spec identity)) then state
      else case getPodsFromInformer r w conn identity of
             Inl _ \<Rightarrow> state
           | Inr pods \<Rightarrow> fold (declarePod r w identity conn) pods state)"

definition processCluster ::
  "('id, 'td, 'w, 'k) MainReconciler \<Rightarrow> 'w \<Rightarrow> 'k ClusterConnection \<Rightarrow> WorkloadIdentity list \<Rightarrow>
   ('id, 'td) entriesState \<Rightarrow> ('id, 'td) entriesState option" where
  "processCluster r w conn identities state =
     for_each (\<lambda>identity state. do {
         ok \<leftarrow> shouldProcessIdentity r identity (conn_Cluster conn);
         Some (if \<not> ok then state else processWorkloadIdentity r w identity conn state) })
       identities state"

subsection \<open>Applying\<close>

definition applyEntryChanges ::
  "('id, 'td, 'w, 'k) MainReconciler \<Rightarrow> ('id, 'td) entriesState \<Rightarrow> 'w \<Rightarrow> 'w option" where
  "applyEntryChanges r state w =
     (case GetChanges (mr_lib r) (range_declared r w) (range_current r w) state of
        (toCreate, toUpdate, toDelete) \<Rightarrow> do {
          w \<leftarrow> for_each (\<lambda>entry w. map_option snd (DeleteEntry (SPIREClient r) (ID entry) w)) toDelete w;
          w \<leftarrow> for_each (\<lambda>entry w. map_option snd (CreateEntry (SPIREClient r) entry w)) toCreate w;
          for_each (\<lambda>entry w. map_option snd (UpdateEntry (SPIREClient r) entry w)) toUpdate w })"

subsection \<open>Statuses\<close>

definition pendingChanges :: "('id, 'td, 'w, 'k) MainReconciler \<Rightarrow> 'w \<Rightarrow> ('id, 'td) entriesState \<Rightarrow> int" where
  "pendingChanges r w state =
     (case GetChanges (mr_lib r) (range_declared r w) (range_current r w) state of
        (toCreate, toUpdate, _) \<Rightarrow> int (length toCreate) + int (length toUpdate))"

definition count_targeted ::
  "('id, 'td, 'w, 'k) MainReconciler \<Rightarrow> WorkloadIdentity \<Rightarrow> EKSClusterRegistry \<Rightarrow> int \<Rightarrow> int option" where
  "count_targeted r identity cluster n =
     (if \<not> Enabled (ec_Spec cluster) then Some n
      else do { ok \<leftarrow> shouldProcessIdentity r identity cluster; Some (if ok then n + 1 else n) })"

definition count_pods ::
  "('id, 'td, 'w, 'k) MainReconciler \<Rightarrow> 'w \<Rightarrow> WorkloadIdentity \<Rightarrow> 'k ClusterConnection \<Rightarrow> int \<Rightarrow> int option" where
  "count_pods r w identity conn n = do {
     ok \<leftarrow> shouldProcessIdentity r identity (conn_Cluster conn);
     Some (if ok then
             (case getPodsFromInformer r w conn identity of
                Inl _ \<Rightarrow> n
              | Inr pods \<Rightarrow> n + int (length (filter pod_active pods)))
           else n) }"

definition calculateIdentityStats ::
  "('id, 'td, 'w, 'k) MainReconciler \<Rightarrow> 'k Manager \<Rightarrow> 'w \<Rightarrow> WorkloadIdentity \<Rightarrow> EKSClusterRegistry list \<Rightarrow>
   ('id, 'td) entriesState \<Rightarrow> WorkloadIdentityStats option" where
  "calculateIdentityStats r m w identity cls state = do {
     targeted \<leftarrow> for_each (count_targeted r identity) cls 0;
     pods \<leftarrow> for_each (count_pods r w identity) (GetAllConnections (range_clusters r w) m) 0;
     Some \<lparr>ClustersTargeted = targeted, NamespacesFound = 0, PodsSelected = pods,
           stats_EntriesRegistered = pendingChanges r w state, EntryFailures = 0\<rparr> }"

definition calculateClusterEntries ::
  "('id, 'td, 'w, 'k) MainReconciler \<Rightarrow> 'w \<Rightarrow> ('id, 'td) entriesState \<Rightarrow> int" where
  "calculateClusterEntries r w state = pendingChanges r w state"

definition ready_condition :: "gotime \<Rightarrow> bool \<Rightarrow> Condition \<Rightarrow> Condition" where
  "ready_condition now isConn c =
     (if isConn
      then c\<lparr>cond_Status := ''True'', cond_Reason := ''Connected'',
             cond_Message := ''Successfully connected to cluster''\<rparr>
      else c\<lparr>cond_Status := ''False'', cond_Reason := ''NotConnected'',
             cond_Message := ''Unable to connect to cluster''\<rparr>)\<lparr>cond_LastTransitionTime := now\<rparr>"

text \<open>The first condition of type \<open>Ready\<close> is changed in place; without one, a new one is appended.\<close>

fun set_ready :: "gotime \<Rightarrow> bool \<Rightarrow> Condition list \<Rightarrow> Condition list" where
  "set_ready now isConn [] =
     [ready_condition now isConn \<lparr>cond_Type = ''Ready'', cond_Status = [], cond_Reason = [],
        cond_Message = [], cond_LastTransitionTime = zero_time\<rparr>]"
| "set_ready now isConn (c # cs) =
     (if cond_Type c = ''Ready'' then ready_condition now isConn c # cs else c # set_ready now isConn cs)"

definition updateClusterConditions :: "gotime \<Rightarrow> EKSClusterRegistry \<Rightarrow> bool \<Rightarrow> EKSClusterRegistry" where
  "updateClusterConditions now cluster isConn =
     cluster\<lparr>ec_Status := (ec_Status cluster)\<lparr>Conditions := set_ready now isConn (Conditions (ec_Status cluster))\<rparr>\<rparr>"

definition updateIdentityStatus ::
  "('id, 'td, 'w, 'k) MainReconciler \<Rightarrow> 'k Manager \<Rightarrow> EKSClusterRegistry list \<Rightarrow> ('id, 'td) entriesState \<Rightarrow>
   WorkloadIdentity \<Rightarrow> 'w \<Rightarrow> 'w option" where
  "updateIdentityStatus r m cls state identity w = do {
     stats \<leftarrow> calculateIdentityStats r m w identity cls state;
     Some (snd (status_update_identity (mr_kube r) w
       (identity\<lparr>wi_Status := \<lparr>Stats = stats, LastReconciliation = Some (time_Now (mr_kube r) w)\<rparr>\<rparr>))) }"

definition updateClusterStatus ::
  "('id, 'td, 'w, 'k) MainReconciler \<Rightarrow> 'k Manager \<Rightarrow> ('id, 'td) entriesState \<Rightarrow> EKSClusterRegistry \<Rightarrow> 'w \<Rightarrow> 'w option" where
  "updateClusterStatus r m state cluster w =
     (let now = time_Now (mr_kube r) w;
          status = ec_Status cluster;
          status = (if Enabled (ec_Spec cluster) then status\<lparr>LastSync := Some now\<rparr> else status);
          cluster = cluster\<lparr>ec_Status := status\<lparr>ec_EntriesRegistered := calculateClusterEntries r w state\<rparr>\<rparr>;
          cluster = updateClusterConditions now cluster (IsConnected (ec_Name cluster) m)
      in Some (snd (status_update_cluster (mr_kube r) w cluster)))"

definition updateStatuses ::
  "('id, 'td, 'w, 'k) MainReconciler \<Rightarrow> 'k Manager \<Rightarrow> WorkloadIdentity list \<Rightarrow> EKSClusterRegistry list \<Rightarrow>
   ('id, 'td) entriesState \<Rightarrow> 'w \<Rightarrow> 'w option" where
  "updateStatuses r m identities cls state w = do {
     w \<leftarrow> for_each (updateIdentityStatus r m cls state) identities w;
     for_each (updateClusterStatus r m state) cls w }"

subsection \<open>The cycle\<close>

text \<open>The two loops that bring the connections in line with the registry objects.\<close>

definition syncConnections ::
  "('id, 'td, 'w, 'k) MainReconciler \<Rightarrow> EKSClusterRegistry list \<Rightarrow> 'k Manager \<times> 'w \<Rightarrow> ('k Manager \<times> 'w) option" where
  "syncConnections r cls s = do {
     (m, w) \<leftarrow> for_each (\<lambda>cluster (m, w). map_option snd (AddOrUpdateCluster (mr_env r) cluster m w)) cls s;
     let existing = map ec_Name (filter (\<lambda>cluster. Enabled (ec_Spec cluster)) cls);
     let gone = filter (\<lambda>n. n \<notin> set existing)
                  (map (\<lambda>conn. ec_Name (conn_Cluster conn)) (GetAllConnections (range_clusters r w) m));
     m \<leftarrow> for_each RemoveCluster gone m;
     Some (m, w) }"

text \<open>From the creation of the entries state to the status updates, on the listed entries.\<close>

definition reconcileEntries ::
  "('id, 'td, 'w, 'k) MainReconciler \<Rightarrow> EKSClusterRegistry list \<Rightarrow> WorkloadIdentity list \<Rightarrow> ('id, 'td) Entry list \<Rightarrow>
   'k Manager \<Rightarrow> 'w \<Rightarrow> 'w option" where
  "reconcileEntries r cls identities currentEntries m w = do {
     let state = NewEntriesStateWithPrefix (EntryIDPrefix r);
     let state = fold AddCurrent (filter (shouldProcessEntry r) currentEntries) state;
     state \<leftarrow> for_each (\<lambda>conn. processCluster r w conn identities) (GetAllConnections (range_clusters r w) m) state;
     w \<leftarrow> applyEntryChanges r state w;
     updateStatuses r m identities cls state w }"

definition reconcileAll ::
  "('id, 'td, 'w, 'k) MainReconciler \<Rightarrow> 'k Manager \<times> 'w \<Rightarrow> ('k Manager \<times> 'w) option" where
  "reconcileAll r s =
     (case list_clusters (mr_kube r) (snd s) of
        Inl _ \<Rightarrow> Some s
      | Inr cls \<Rightarrow> do {
          (m, w) \<leftarrow> syncConnections r cls s;
          case list_identities (mr_kube r) w of
            Inl _ \<Rightarrow> Some (m, w)
          | Inr identities \<Rightarrow> do {
              (listed, w) \<leftarrow> ListEntries (SPIREClient r) w;
              case listed of
                Inl _ \<Rightarrow> Some (m, w)
              | Inr currentEntries \<Rightarrow> do {
                  w \<leftarrow> reconcileEntries r cls identities currentEntries m w;
                  Some (m, w) } } })"


subsection \<open>What is declared\<close>

text \<open>Apimachinery documents that a selector that could be made is not nil.\<close>

definition selectors_not_nil :: "('w, 'k) kube \<Rightarrow> bool" where
  "selectors_not_nil k \<longleftrightarrow> (\<forall>ls. LabelSelectorAsSelector k ls \<noteq> Inr None)"

definition selects :: "('id, 'td, 'w, 'k) MainReconciler \<Rightarrow> WorkloadIdentity \<Rightarrow> EKSClusterRegistry \<Rightarrow> bool" where
  "selects r identity cluster \<longleftrightarrow> shouldProcessIdentity r identity cluster = Some True"

definition podEntry ::
  "('id, 'td, 'w, 'k) MainReconciler \<Rightarrow> 'w \<Rightarrow> 'k ClusterConnection \<Rightarrow> WorkloadIdentity \<Rightarrow> Pod \<Rightarrow> ('id, 'td) Entry option" where
  "podEntry r w conn identity pod =
     (if \<not> pod_active pod then None
      else case nodes_Get (mr_kube r) w (K8sClient conn) (NodeName (pod_Spec pod)) of
             Inl _ \<Rightarrow> None
           | Inr node \<Rightarrow>
               (case RenderEntry (mr_lib r) identity (conn_Cluster conn) pod node (TrustDomain_String (mr_lib r) (TrustDomain r)) of
                  Inl _ \<Rightarrow> None | Inr entry \<Rightarrow> Some entry))"

definition identityEntries ::
  "('id, 'td, 'w, 'k) MainReconciler \<Rightarrow> 'w \<Rightarrow> 'k ClusterConnection \<Rightarrow> WorkloadIdentity \<Rightarrow> ('id, 'td) Entry list" where
  "identityEntries r w conn identity =
     (if isNamespaceIgnored r (spec_Namespace (wi_Spec identity)) then []
      else case getPodsFromInformer r w conn identity of
             Inl _ \<Rightarrow> [] | Inr pods \<Rightarrow> List.map_filter (podEntry r w conn identity) pods)"

definition clusterEntries ::
  "('id, 'td, 'w, 'k) MainReconciler \<Rightarrow> 'w \<Rightarrow> WorkloadIdentity list \<Rightarrow> 'k ClusterConnection \<Rightarrow> ('id, 'td) Entry list" where
  "clusterEntries r w identities conn =
     concat (map (\<lambda>i. if selects r i (conn_Cluster conn) then identityEntries r w conn i else []) identities)"

definition desiredEntries ::
  "('id, 'td, 'w, 'k) MainReconciler \<Rightarrow> 'w \<Rightarrow> WorkloadIdentity list \<Rightarrow> 'k ClusterConnection list \<Rightarrow> ('id, 'td) Entry list" where
  "desiredEntries r w identities conns = concat (map (clusterEntries r w identities) conns)"

text \<open>The pods of an identity in a cluster, and the entry each is to have.\<close>

definition pod_selected ::
  "('id, 'td, 'w, 'k) MainReconciler \<Rightarrow> 'w \<Rightarrow> 'k ClusterConnection \<Rightarrow> WorkloadIdentity \<Rightarrow> Pod \<Rightarrow> bool" where
  "pod_selected r w conn identity pod \<longleftrightarrow>
     PodObj pod \<in> set (store_List (mr_kube r) w (PodInformer conn)) \<and>
     Namespace (pod_Meta pod) = spec_Namespace (wi_Spec identity) \<and>
     (\<exists>sel. LabelSelectorAsSelector (mr_kube r) (PodSelector (wi_Spec identity)) = Inr sel \<and>
        (case sel of None \<Rightarrow> True | Some f \<Rightarrow> f (Labels (pod_Meta pod))))"

lemma shouldProcessIdentity_total:
  "selectors_not_nil (mr_kube r) \<Longrightarrow> shouldProcessIdentity r identity cluster = Some (selects r identity cluster)"
  unfolding selectors_not_nil_def
  by (auto simp: selects_def shouldProcessIdentity_def split: sum.splits option.splits)

lemma declarePod_eq:
  "declarePod r w identity conn pod state =
     (case podEntry r w conn identity pod of None \<Rightarrow> state | Some e \<Rightarrow> AddDeclared (mr_lib r) e state)"
  by (auto simp: declarePod_def podEntry_def pod_active_def split: sum.splits)

lemma fold_map_filter:
  "fold (\<lambda>x s. case f x of None \<Rightarrow> s | Some y \<Rightarrow> g y s) xs s = fold g (List.map_filter f xs) s"
  by (induction xs arbitrary: s) (auto simp: map_filter_simps split: option.splits)

lemma processWorkloadIdentity_eq:
  "processWorkloadIdentity r w identity conn state = fold (AddDeclared (mr_lib r)) (identityEntries r w conn identity) state"
  by (simp add: processWorkloadIdentity_def identityEntries_def declarePod_eq [abs_def] fold_map_filter split: sum.splits)

lemma for_each_fold_concat:
  assumes "\<And>x s. x \<in> set xs \<Longrightarrow> f x s = Some (fold g (h x) s)"
  shows "for_each f xs s = Some (fold g (concat (map h xs)) s)"
  using assms by (induction xs arbitrary: s) auto

lemma processCluster_eq:
  assumes "selectors_not_nil (mr_kube r)"
  shows "processCluster r w conn identities state = Some (fold (AddDeclared (mr_lib r)) (clusterEntries r w identities conn) state)"
  unfolding processCluster_def clusterEntries_def
  by (rule for_each_fold_concat) (simp add: shouldProcessIdentity_total [OF assms] processWorkloadIdentity_eq)

lemma process_all_eq:
  assumes "selectors_not_nil (mr_kube r)"
  shows "for_each (\<lambda>conn. processCluster r w conn identities) conns state =
    Some (fold (AddDeclared (mr_lib r)) (desiredEntries r w identities conns) state)"
  unfolding desiredEntries_def by (rule for_each_fold_concat) (rule processCluster_eq [OF assms])

lemma podEntry_Some:
  "podEntry r w conn identity pod = Some e \<longleftrightarrow> pod_active pod \<and>
     (\<exists>node. nodes_Get (mr_kube r) w (K8sClient conn) (NodeName (pod_Spec pod)) = Inr node \<and>
        RenderEntry (mr_lib r) identity (conn_Cluster conn) pod node (TrustDomain_String (mr_lib r) (TrustDomain r)) = Inr e)"
  by (auto simp: podEntry_def split: sum.splits)

lemma selectPod_Some:
  "selectPod identity sel obj = Some pod \<longleftrightarrow> obj = PodObj pod \<and>
     Namespace (pod_Meta pod) = spec_Namespace (wi_Spec identity) \<and>
     (case sel of None \<Rightarrow> True | Some f \<Rightarrow> f (Labels (pod_Meta pod)))"
  by (auto simp: selectPod_def split: store_obj.splits option.splits)

lemma in_getPods:
  "(\<exists>pods. getPodsFromInformer r w conn identity = Inr pods \<and> pod \<in> set pods) \<longleftrightarrow> pod_selected r w conn identity pod"
  by (auto simp: getPodsFromInformer_def ebind_Inr_iff set_map_filter selectPod_Some pod_selected_def)

lemma in_identityEntries:
  "e \<in> set (identityEntries r w conn identity) \<longleftrightarrow>
     \<not> isNamespaceIgnored r (spec_Namespace (wi_Spec identity)) \<and>
     (\<exists>pod. pod_selected r w conn identity pod \<and> podEntry r w conn identity pod = Some e)"
  unfolding in_getPods [symmetric]
  by (cases "getPodsFromInformer r w conn identity") (auto simp: identityEntries_def set_map_filter)

lemma in_desiredEntries:
  "e \<in> set (desiredEntries r w identities conns) \<longleftrightarrow>
     (\<exists>conn \<in> set conns. \<exists>identity \<in> set identities. selects r identity (conn_Cluster conn) \<and>
        \<not> isNamespaceIgnored r (spec_Namespace (wi_Spec identity)) \<and>
        (\<exists>pod. pod_selected r w conn identity pod \<and> podEntry r w conn identity pod = Some e))"
  by (auto simp: desiredEntries_def clusterEntries_def in_identityEntries split: if_splits)

lemma desired_parsed: "e \<in> set (desiredEntries r w identities conns) \<Longrightarrow> parsed_entry (mr_lib r) e"
  by (auto simp: in_desiredEntries podEntry_Some intro: RenderEntry_parsed)

subsection \<open>Connections\<close>

lemma sync_connections:
  assumes "syncConnections r cls (m, w) = Some (m', w')" and "wf_manager m" and "\<And>w. visits (range_clusters r w)"
  shows "wf_manager m' \<and> dom (map_of (clusters m')) \<subseteq> ec_Name ` {c \<in> set cls. Enabled (ec_Spec c)}"
proof -
  from assms(1) obtain m1 where
    add: "for_each (\<lambda>cluster (m, w). map_option snd (AddOrUpdateCluster (mr_env r) cluster m w)) cls (m, w) = Some (m1, w')"
    and rem: "for_each RemoveCluster (filter (\<lambda>n. n \<notin> set (map ec_Name (filter (\<lambda>c. Enabled (ec_Spec c)) cls)))
      (map (\<lambda>conn. ec_Name (conn_Cluster conn)) (GetAllConnections (range_clusters r w') m1))) m1 = Some m'"
    by (auto simp: syncConnections_def Let_def split: bind_splits)
  have wf: "wf_manager m1" using conns.add_each [OF add assms(2)] by blast
  have names: "set (map (\<lambda>conn. ec_Name (conn_Cluster conn)) (GetAllConnections (range_clusters r w') m1)) =
      dom (map_of (clusters m1))"
  proof -
    have "wf_map (clusters m1)" using wf by (simp add: wf_manager_def)
    then have "set (clusters m1) = {(n, c). map_of (clusters m1) n = Some c}" by (auto simp: wf_map_mem_iff)
    then show ?thesis
      using assms(3) wf_managerD(1) [OF wf] by (force simp: GetAllConnections_def image_iff)
  qed
  show ?thesis using conns.remove_each [OF wf, of "filter (\<lambda>n. n \<notin> set (map ec_Name (filter (\<lambda>c. Enabled (ec_Spec c)) cls)))
      (map (\<lambda>conn. ec_Name (conn_Cluster conn)) (GetAllConnections (range_clusters r w') m1))"] rem names
    by (auto simp: restrict_map_def split: if_splits)
qed


subsection \<open>Applying the changes to a server that keeps its contract\<close>

text \<open>No two of the entries, and no entry and one that is already there, register the same workload
  under different identifiers.\<close>

definition registrations_unique ::
  "(string \<Rightarrow> ('id, 'td) Entry option) \<Rightarrow> (string \<Rightarrow> ('id, 'td) Entry option) \<Rightarrow> bool" where
  "registrations_unique table ds \<longleftrightarrow>
     (\<forall>d \<in> ran ds. \<forall>x \<in> ran table \<union> ran ds. same_registration x d \<longrightarrow> ID x = ID d)"

definition managed :: "('id, 'td, 'w, 'k) MainReconciler \<Rightarrow> string \<Rightarrow> bool" where
  "managed r i \<longleftrightarrow> HasPrefix i (EntryIDPrefix r)"

lemma shouldProcessEntry_iff: "shouldProcessEntry r e \<longleftrightarrow> managed r (ID e)"
  by (simp add: shouldProcessEntry_def managed_def)

text \<open>The table a reconciliation aims at: declared entries replace managed ones that differ.\<close>

definition reconciled ::
  "('id, 'td, 'w, 'k) MainReconciler \<Rightarrow> (string \<Rightarrow> ('id, 'td) Entry option) \<Rightarrow>
   (string \<Rightarrow> ('id, 'td) Entry option) \<Rightarrow> string \<Rightarrow> ('id, 'td) Entry option" where
  "reconciled r ds table i =
     (if \<not> managed r i then table i
      else case ds i of
             None \<Rightarrow> None
           | Some d \<Rightarrow> (case table i of
                         None \<Rightarrow> Some d
                       | Some e \<Rightarrow> if entriesEqual (mr_lib r) e d then Some e else Some d))"

lemma apply_changes_reconciled:
  assumes "wf_state (mr_lib r) s" "visits itd" "visits itc" "entryPrefix s = EntryIDPrefix r"
    and cur: "map_of (current s) = table |` {i. managed r i}"
  shows "apply_changes table (GetChanges (mr_lib r) itd itc s) = reconciled r (map_of (declared s)) table"
proof
  fix i
  have man: "managed r i" if "map_of (declared s) i = Some d" for d
    using wf_state_declared [OF assms(1) that] assms(4) by (simp add: managed_def)
  have cur_i: "map_of (current s) i = (if managed r i then table i else None)" by (simp add: cur restrict_map_def)
  show "apply_changes table (GetChanges (mr_lib r) itd itc s) i = reconciled r (map_of (declared s)) table i"
    unfolding apply_changes_def map_add_def restrict_map_def reconciled_def
    using man by (auto simp: by_id_changes [OF assms(1-3)] cur_i split: option.splits)
qed

subsection \<open>What the other writes leave alone\<close>

text \<open>\<open>f\<close> observes the world (in the properties: the SPIRE server). Neither writing a status nor
  waiting for an informer changes what it sees.\<close>

definition status_writes_keep :: "('w, 'k) kube \<Rightarrow> ('w \<Rightarrow> 'o) \<Rightarrow> bool" where
  "status_writes_keep k f \<longleftrightarrow>
     (\<forall>w x. f (snd (status_update_identity k w x)) = f w) \<and> (\<forall>w x. f (snd (status_update_cluster k w x)) = f w)"

definition sync_keeps :: "('w, 'k) cluster_env \<Rightarrow> ('w \<Rightarrow> 'o) \<Rightarrow> bool" where
  "sync_keeps env f \<longleftrightarrow> (\<forall>w i b w'. WaitForCacheSync env w i = Some (b, w') \<longrightarrow> f w' = f w)"

lemma calculateIdentityStats_total:
  assumes "selectors_not_nil (mr_kube r)"
  shows "\<exists>stats. calculateIdentityStats r m w identity cls state = Some stats"
proof -
  have "\<exists>n. for_each (count_targeted r identity) cls 0 = Some n \<and> True"
    by (rule for_each_total) (auto simp: count_targeted_def shouldProcessIdentity_total [OF assms])
  moreover have "\<exists>n. for_each (count_pods r w identity) (GetAllConnections (range_clusters r w) m) 0 = Some n \<and> True"
    by (rule for_each_total) (auto simp: count_pods_def shouldProcessIdentity_total [OF assms])
  ultimately show ?thesis by (auto simp: calculateIdentityStats_def)
qed

lemma updateStatuses_keeps:
  assumes "selectors_not_nil (mr_kube r)" and "status_writes_keep (mr_kube r) f"
  shows "\<exists>w'. updateStatuses r m identities cls state w = Some w' \<and> f w' = f w"
proof -
  have "\<exists>w1. for_each (updateIdentityStatus r m cls state) identities w = Some w1 \<and> f w1 = f w"
  proof (rule for_each_total)
    fix identity t assume "f t = f w"
    moreover obtain stats where "calculateIdentityStats r m t identity cls state = Some stats"
      using calculateIdentityStats_total [OF assms(1)] by blast
    ultimately show "\<exists>t'. updateIdentityStatus r m cls state identity t = Some t' \<and> f t' = f w"
      using assms(2) by (simp add: updateIdentityStatus_def status_writes_keep_def)
  qed simp
  then obtain w1 where w1: "for_each (updateIdentityStatus r m cls state) identities w = Some w1" "f w1 = f w" by blast
  have "\<exists>w2. for_each (updateClusterStatus r m state) cls w1 = Some w2 \<and> f w2 = f w"
    by (rule for_each_total) (use w1(2) assms(2) in \<open>auto simp: updateClusterStatus_def Let_def status_writes_keep_def\<close>)
  with w1(1) show ?thesis by (simp add: updateStatuses_def)
qed

lemma AddOrUpdateCluster_keeps:
  "sync_keeps env f \<Longrightarrow> AddOrUpdateCluster env cluster m w = Some (err, m', w') \<Longrightarrow> f w' = f w"
  by (auto simp: AddOrUpdateCluster_def connectCluster_def Let_def sync_keeps_def
      split: option.splits if_splits bind_splits sum.splits)

lemma syncConnections_keeps:
  assumes "sync_keeps (mr_env r) f" and "syncConnections r cls (m, w) = Some (m', w')"
  shows "f w' = f w"
proof -
  from assms(2) obtain m1 where
    add: "for_each (\<lambda>cluster (m, w). map_option snd (AddOrUpdateCluster (mr_env r) cluster m w)) cls (m, w) = Some (m1, w')"
    by (auto simp: syncConnections_def Let_def split: bind_splits)
  have "case (m1, w') of (m, w1) \<Rightarrow> f w1 = f w"
    by (rule for_each_inv [OF add]) (auto dest: AddOrUpdateCluster_keeps [OF assms(1)])
  then show ?thesis by simp
qed

text \<open>The table of the entries to be declared: the last rendered entry of each identifier.\<close>

definition desiredTable ::
  "('id, 'td, 'w, 'k) MainReconciler \<Rightarrow> 'w \<Rightarrow> WorkloadIdentity list \<Rightarrow> 'k Manager \<Rightarrow> string \<Rightarrow> ('id, 'td) Entry option" where
  "desiredTable r w identities m =
     by_id (rev (map (\<lambda>d. d\<lparr>ID := EntryIDPrefix r @ makeEntryKey (mr_lib r) d\<rparr>)
       (desiredEntries r w identities (GetAllConnections (range_clusters r w) m))))"

lemma by_id_rev_filter:
  assumes "distinct (map ID es)"
  shows "by_id (rev (filter (\<lambda>e. P (ID e)) es)) = by_id es |` {i. P i}"
proof (rule ext, rule option_eqI)
  fix i e
  have "distinct (map ID (rev (filter (\<lambda>e. P (ID e)) es)))"
    using assms by (simp add: rev_map [symmetric] distinct_map_filter)
  then show "by_id (rev (filter (\<lambda>e. P (ID e)) es)) i = Some e \<longleftrightarrow> (by_id es |` {i. P i}) i = Some e"
    using by_id_Some [OF assms, of i e] by (simp only: by_id_Some) (auto simp: restrict_map_def split: if_splits)
qed

lemma desiredTable_parsed: "d \<in> ran (desiredTable r w identities m) \<Longrightarrow> parsed_entry (mr_lib r) d"
  unfolding desiredTable_def ran_def by (auto dest!: map_of_SomeD simp: desired_parsed)

context client_contract
begin

lemma view_ID:
  assumes "good c w" and "view c w i = Some e"
  shows "ID e = i"
proof -
  from list_law [OF assms(1)] obtain es where es: "distinct (map ID es)" "view c w = by_id es" by blast
  show ?thesis using assms(2) unfolding es(2) by_id_Some [OF es(1)] by blast
qed

lemma apply_entry_changes:
  fixes r :: "('id, 'td, 'w, 'k) MainReconciler"
  assumes "good c w" and "SPIREClient r = client c"
    and st: "wf_state (mr_lib r) s" "entryPrefix s = EntryIDPrefix r"
    and vis: "visits (range_declared r w)" "visits (range_current r w)"
    and cur: "map_of (current s) = view c w |` {i. managed r i}"
    and val: "\<And>d. d \<in> ran (map_of (declared s)) \<Longrightarrow> valid c d"
    and uniq: "registrations_unique (view c w) (map_of (declared s))"
  shows "\<exists>w'. applyEntryChanges r s w = Some w' \<and> good c w' \<and>
    view c w' = reconciled r (map_of (declared s)) (view c w)"
proof -
  let ?ch = "GetChanges (mr_lib r) (range_declared r w) (range_current r w) s"
  note mem = in_changes [OF st(1) vis] and dist = distinct_changes [OF st(1) vis]
  have man: "managed r (ID d)" "ID d \<noteq> []" "d \<in> ran (map_of (declared s))" if "map_of (declared s) (ID d) = Some d" for d
    using wf_state_declared [OF st(1) that] st(2) ranI [of "map_of (declared s)", OF that]
    by (metis managed_def HasPrefix_append append_is_Nil_conv makeEntryKey_nonempty)+
  obtain w1 where w1: "for_each (\<lambda>e w. map_option snd (DeleteEntry (client c) (ID e) w)) (deletes ?ch) w = Some w1"
    "good c w1" "view c w1 = view c w |` (- ID ` set (deletes ?ch))"
    using delete_each [OF assms(1), of ID "deletes ?ch"] by blast
  have v1: "view c w1 (ID d) = (if managed r (ID d) then map_of (current s) (ID d) else view c w (ID d))"
    if "map_of (declared s) (ID d) = Some d" for d
    unfolding w1(3) using that cur by (auto simp: restrict_map_def image_iff mem)
  have ran1: "ran (view c w1) \<subseteq> ran (view c w)" unfolding w1(3) by (auto simp: ran_def restrict_map_def split: if_splits)
  have same: "ID x = ID d" if "map_of (declared s) (ID d) = Some d" "x \<in> ran (view c w) \<union> ran (map_of (declared s))"
    "same_registration x d" for x d
    using that uniq man(3) unfolding registrations_unique_def by blast
  have none: "\<not> same_registration x e" if "e \<in> set (creates ?ch)" "x \<in> ran (view c w1)" for e x
  proof
    assume sr: "same_registration x e"
    have "\<exists>i. view c w1 i = Some x" using that(2) by (simp add: ran_def)
    then obtain i where i: "view c w1 i = Some x" ..
    have e: "map_of (declared s) (ID e) = Some e" "map_of (current s) (ID e) = None" using that(1) mem by auto
    have "ID x = ID e" using same [OF e(1) _ sr] that(2) ran1 by blast
    moreover have "ID x = i" using view_ID [OF w1(2) i] .
    ultimately show False using i v1 [OF e(1)] e man(1) [OF e(1)] by simp
  qed
  obtain w2 where w2: "for_each (\<lambda>e w. map_option snd (CreateEntry (client c) e w)) (creates ?ch) w1 = Some w2"
    "good c w2" "view c w2 = view c w1 ++ by_id (creates ?ch)"
  proof -
    have a: "valid c e \<and> ID e \<noteq> [] \<and> view c w1 (ID e) = None" if "e \<in> set (creates ?ch)" for e
      using that man val v1 by (simp add: mem)
    have b: "ID x = ID e" if "e \<in> set (creates ?ch)" "x \<in> set (creates ?ch)" "same_registration x e" for e x
      using that same man(3) by (simp add: mem)
    show thesis using create_each [OF w1(2) a none b dist(1)] that by blast
  qed
  obtain w3 where w3: "for_each (\<lambda>e w. map_option snd (UpdateEntry (client c) e w)) (updates ?ch) w2 = Some w3"
    "good c w3" "view c w3 = view c w2 ++ by_id (updates ?ch)"
  proof -
    have "valid c e \<and> ID e \<in> dom (view c w2)" if "e \<in> set (updates ?ch)" for e
      using that man val v1 unfolding w2(3) mem by auto
    then show thesis using update_each [OF w2(2) _ dist(2)] that by blast
  qed
  have "applyEntryChanges r s w = Some w3"
    using w1(1) w2(1) w3(1) assms(2) by (simp add: applyEntryChanges_def case_prod_beta)
  moreover have "view c w3 = apply_changes (view c w) ?ch"
    unfolding w3(3) w2(3) w1(3) apply_changes_def ..
  ultimately show ?thesis using w3(2) apply_changes_reconciled [OF st(1) vis st(2) cur] by simp
qed

text \<open>The state the entries are compared in: the managed entries of the server and the desired table.\<close>

lemma reconcile_entries_state:
  fixes r :: "('id, 'td, 'w, 'k) MainReconciler"
  assumes "selectors_not_nil (mr_kube r)" and es: "distinct (map ID es)" "view c w = by_id es"
  obtains s where "wf_state (mr_lib r) s" "entryPrefix s = EntryIDPrefix r"
    "map_of (current s) = view c w |` {i. managed r i}" "map_of (declared s) = desiredTable r w identities m"
    "reconcileEntries r cls identities es m w =
       Option.bind (applyEntryChanges r s w) (updateStatuses r m identities cls s)"
proof -
  let ?init = "fold AddCurrent (filter (shouldProcessEntry r) es) (NewEntriesStateWithPrefix (EntryIDPrefix r)) :: ('id, 'td) entriesState"
  let ?ds = "desiredEntries r w identities (GetAllConnections (range_clusters r w) m)"
  have wf0: "wf_state (mr_lib r) ?init" by simp
  note st = fold_AddDeclared [OF wf0, of ?ds]
  have "map_of (current (fold (AddDeclared (mr_lib r)) ?ds ?init)) = by_id (rev (filter (\<lambda>e. managed r (ID e)) es))"
    unfolding st(2) map_of_fold_AddCurrent by (simp add: shouldProcessEntry_iff [abs_def])
  then show thesis
    by (intro that [of "fold (AddDeclared (mr_lib r)) ?ds ?init"])
      (simp_all add: st desiredTable_def by_id_rev_filter [OF es(1)] es(2) reconcileEntries_def Let_def process_all_eq [OF assms(1)])
qed

lemma reconcile_entries:
  fixes r :: "('id, 'td, 'w, 'k) MainReconciler"
  assumes "good c w" and "SPIREClient r = client c" and "selectors_not_nil (mr_kube r)"
    and keep: "status_writes_keep (mr_kube r) (\<lambda>w. (good c w, view c w))"
    and vis: "\<And>w. visits (range_declared r w)" "\<And>w. visits (range_current r w)"
    and es: "distinct (map ID es)" "view c w = by_id es"
    and val: "\<And>e. parsed_entry (mr_lib r) e \<Longrightarrow> valid c e"
    and uniq: "registrations_unique (view c w) (desiredTable r w identities m)"
  shows "\<exists>w'. reconcileEntries r cls identities es m w = Some w' \<and> good c w' \<and>
    view c w' = reconciled r (desiredTable r w identities m) (view c w)"
proof -
  obtain s where s: "wf_state (mr_lib r) s" "entryPrefix s = EntryIDPrefix r"
    "map_of (current s) = view c w |` {i. managed r i}" "map_of (declared s) = desiredTable r w identities m"
    "reconcileEntries r cls identities es m w =
       Option.bind (applyEntryChanges r s w) (updateStatuses r m identities cls s)"
    by (rule reconcile_entries_state [where r = r and identities = identities and m = m and cls = cls, OF assms(3) es])
  have "valid c d" if "d \<in> ran (map_of (declared s))" for d
    by (rule val, rule desiredTable_parsed) (use that in \<open>simp only: s(4)\<close>)
  from apply_entry_changes [OF assms(1,2) s(1,2) vis s(3) this] uniq s(4) obtain w1 where
    w1: "applyEntryChanges r s w = Some w1" "good c w1" "view c w1 = reconciled r (desiredTable r w identities m) (view c w)"
    by auto
  obtain w2 where "updateStatuses r m identities cls s w1 = Some w2" "(good c w2, view c w2) = (good c w1, view c w1)"
    using updateStatuses_keeps [OF assms(3) keep] by blast
  then show ?thesis using w1 s(5) by simp
qed

lemma reconcile_all:
  fixes r :: "('id, 'td, 'w, 'k) MainReconciler"
  assumes "good c w" and "SPIREClient r = client c" and "selectors_not_nil (mr_kube r)"
    and keep: "status_writes_keep (mr_kube r) (\<lambda>w. (good c w, view c w))" "sync_keeps (mr_env r) (\<lambda>w. (good c w, view c w))"
    and vis: "\<And>w. visits (range_declared r w)" "\<And>w. visits (range_current r w)"
    and val: "\<And>e. parsed_entry (mr_lib r) e \<Longrightarrow> valid c e"
    and lists: "list_clusters (mr_kube r) w = Inr cls" "syncConnections r cls (m, w) = Some (m1, w1)"
      "list_identities (mr_kube r) w1 = Inr identities"
    and uniq: "registrations_unique (view c w) (desiredTable r w1 identities m1)"
  shows "\<exists>w'. reconcileAll r (m, w) = Some (m1, w') \<and> good c w' \<and>
    view c w' = reconciled r (desiredTable r w1 identities m1) (view c w)"
proof -
  have f: "good c w1" "view c w1 = view c w" using syncConnections_keeps [OF keep(2) lists(2)] assms(1) by auto
  obtain es where es: "ListEntries (client c) w1 = Some (Inr es, w1)" "distinct (map ID es)" "view c w1 = by_id es"
    using list_law [OF f(1)] by blast
  from reconcile_entries [OF f(1) assms(2,3) keep(1) vis es(2,3) val] uniq f(2) obtain w' where
    "reconcileEntries r cls identities es m1 w1 = Some w'" "good c w'"
    "view c w' = reconciled r (desiredTable r w1 identities m1) (view c w)" by metis
  then show ?thesis using lists es(1) assms(2) by (simp add: reconcileAll_def)
qed

end

subsection \<open>A small installation, for evaluation\<close>

text \<open>One connected cluster with one running pod, one identity that selects every pod of its
  namespace, and the server of the reference environment.\<close>

definition ref_selector :: "LabelSelector option \<Rightarrow> go_error + labels_Selector option" where
  "ref_selector ls =
     (case ls of
        None \<Rightarrow> Inr (Some (\<lambda>_. False))
      | Some s \<Rightarrow> if MatchExpressions s = [] then Inr (Some (\<lambda>labels. list_all (\<lambda>kv. kv \<in> set labels) (MatchLabels s)))
                  else Inl (Errs ''not a valid selector operator''))"

definition ref_app :: WorkloadIdentity where
  "ref_app = (let i = ref_identity ''app'' [] [] in
     i\<lparr>wi_Spec := (wi_Spec i)\<lparr>PodSelector := Some \<lparr>MatchLabels = [], MatchExpressions = []\<rparr>\<rparr>\<rparr>)"

definition ref_kube :: "(go_error + Node) \<Rightarrow> (ref_world, unit) kube" where
  "ref_kube node =
     \<lparr>list_clusters = (\<lambda>w. Inr [ref_cluster ''east'']), list_identities = (\<lambda>w. Inr [ref_app]),
      get_cluster = (\<lambda>w n. if n = ''east'' then Inr (ref_cluster ''east'') else Inl (Errs ''not found'')),
      get_identity = (\<lambda>w n. if n = ''app'' then Inr ref_app else Inl (Errs ''not found'')),
      update_cluster = (\<lambda>w x. (None, w)), update_identity = (\<lambda>w x. (None, w)),
      status_update_cluster = (\<lambda>w x. (None, w)), status_update_identity = (\<lambda>w x. (None, w)),
      IsNotFound = (\<lambda>e. e = Errs ''not found''), nodes_Get = (\<lambda>w k n. node),
      store_List = (\<lambda>w i. [OtherObj, PodObj (ref_pod ''web'' ''u1'')]),
      LabelSelectorAsSelector = ref_selector, time_Now = (\<lambda>w. 0)\<rparr>"

definition ref_env :: "(ref_world, unit) cluster_env" where
  "ref_env =
     \<lparr>cl_aws = \<lparr>DescribeCluster = (\<lambda>w region name. Inl (Errs ''no cluster'')), ClientConfig = (\<lambda>kc. Inr (Inr ())),
        clientcmd_Write = (\<lambda>kc. Inr []), aws_Now = (\<lambda>w. 0)\<rparr>,
      WaitForCacheSync = (\<lambda>w i. Some (True, w))\<rparr>"

definition ref_conn :: "unit ClusterConnection" where
  "ref_conn = \<lparr>conn_Cluster = ref_cluster ''east'', K8sClient = (), PodInformer = \<lparr>inf_client = (), inf_cluster = ''east''\<rparr>,
     StopCh = 0, LastConnected = 0\<rparr>"

definition ref_mgr :: "unit Manager" where
  "ref_mgr = \<lparr>awsClients = [], clusters = [(''east'', ref_conn)], made = 1, closedChs = [], has_triggerer = False,
     has_podReconciler = True\<rparr>"

definition ref_main :: "(go_error + Node) \<Rightarrow> string \<Rightarrow> (string \<times> string, string, ref_world, unit) MainReconciler" where
  "ref_main node prefix =
     \<lparr>mr_lib = ref_lib, mr_kube = ref_kube node, mr_env = ref_env, TrustDomain = ''a.org'', ClusterName = ''mgmt'',
      IgnoreNamespaces = [\<lambda>ns. ns = ''kube-system''], EntryIDPrefix = prefix, GCInterval = 0,
      SPIREClient = spire_client ref_connection, range_clusters = (\<lambda>w m. m), range_declared = (\<lambda>w m. m),
      range_current = (\<lambda>w m. rev m)\<rparr>"

lemma ref_main_simps [simp]:
  "mr_lib (ref_main node p) = ref_lib" "mr_kube (ref_main node p) = ref_kube node" "mr_env (ref_main node p) = ref_env"
  "EntryIDPrefix (ref_main node p) = p" "SPIREClient (ref_main node p) = spire_client ref_connection"
  "range_clusters (ref_main node p) w m1 = m1" "range_declared (ref_main node p) w m2 = m2"
  "range_current (ref_main node p) w m2 = rev m2" "TrustDomain (ref_main node p) = ''a.org''"
  "IgnoreNamespaces (ref_main node p) = [\<lambda>ns. ns = ''kube-system'']"
  by (simp_all add: ref_main_def)

lemma ref_kube_simps [simp]:
  "list_clusters (ref_kube node) w = Inr [ref_cluster ''east'']" "list_identities (ref_kube node) w = Inr [ref_app]"
  "nodes_Get (ref_kube node) w k n = node" "store_List (ref_kube node) w i = [OtherObj, PodObj (ref_pod ''web'' ''u1'')]"
  "LabelSelectorAsSelector (ref_kube node) = ref_selector"
  by (simp_all add: ref_kube_def)

lemma ref_documented:
  "selectors_not_nil (ref_kube node)" "status_writes_keep (ref_kube node) f" "sync_keeps ref_env g" "wf_manager ref_mgr"
  by (auto simp: selectors_not_nil_def ref_kube_def ref_selector_def status_writes_keep_def sync_keeps_def ref_env_def
      wf_manager_def ref_mgr_def wf_map_def ref_conn_def ref_objects split: option.splits)

lemma ref_sync: "syncConnections (ref_main node p) [ref_cluster ''east''] (ref_mgr, w) = Some (ref_mgr, w)"
  by (simp add: syncConnections_def AddOrUpdateCluster_def ref_mgr_def ref_conn_def same_connection_def
      GetAllConnections_def Let_def ref_objects)

lemma ref_desired:
  "\<exists>e. desiredEntries (ref_main (Inr ref_node) p) w [ref_app] [ref_conn] = [e]"
  by (simp add: desiredEntries_def clusterEntries_def selects_def shouldProcessIdentity_def identityEntries_def
      isNamespaceIgnored_def getPodsFromInformer_def ref_selector_def selectPod_def podEntry_def pod_active_def
      map_filter_simps ref_app_def ref_conn_def Let_def RenderEntry_def ref_objects ref_library
      defaultParentIDTemplate_def defaultParentIDTemplate_text_def mk_TemplateData_def renderOne_def)

end
