(* ===== verification/Main_Properties.thy ===== *)
theory Main_Properties
  imports Main_Reconciler
begin

text \<open>The properties of the full reconciliation, each with an evaluation on a small installation.\<close>

subsection \<open>The cycle\<close>

text \<open>C1: a full reconciliation against a SPIRE server that behaves as documented terminates and leaves
  the server's table as follows: entries outside the configured identifier prefix are as before;
  under the prefix there is exactly one entry for every identifier that is to be declared, namely
  the declared one, or the one that was there when the comparison finds no difference. Assumed:
  the lists can be read, status updates and informer synchronisation do not change the server, and
  no two entries register the same workload under different identifiers.\<close>

theorem reconcile_all_converges:
  assumes "spire_good c w" and "SPIREClient r = spire_client c" and "mr_lib r = fst c"
    and "selectors_not_nil (mr_kube r)"
    and "status_writes_keep (mr_kube r) (\<lambda>w. (spire_good c w, spire_view c w))"
    and "sync_keeps (mr_env r) (\<lambda>w. (spire_good c w, spire_view c w))"
    and "\<And>w. visits (range_declared r w)" and "\<And>w. visits (range_current r w)"
    and "list_clusters (mr_kube r) w = Inr cls" and "syncConnections r cls (m, w) = Some (m1, w1)"
    and "list_identities (mr_kube r) w1 = Inr identities"
    and "registrations_unique (spire_view c w) (desiredTable r w1 identities m1)"
  shows "\<exists>w'. reconcileAll r (m, w) = Some (m1, w') \<and> spire_good c w' \<and>
    spire_view c w' =
      (\<lambda>i. if \<not> HasPrefix i (EntryIDPrefix r) then spire_view c w i
           else case desiredTable r w1 identities m1 i of
                  None \<Rightarrow> None
                | Some d \<Rightarrow> (case spire_view c w i of
                              None \<Rightarrow> Some d
                            | Some e \<Rightarrow> if entriesEqual (mr_lib r) e d then Some e else Some d))"
proof -
  have "parsed_entry (mr_lib r) e \<Longrightarrow> spire_valid c e" for e using assms(3) by (cases c) simp
  from spire.reconcile_all [OF assms(1,2,4-8) this assms(9-12)] show ?thesis
    unfolding reconciled_def [abs_def] managed_def by simp
qed

lemma ref_connection_good: "spire_good ref_connection []" "spire_view ref_connection [] = Map.empty"
  using ref_good [of "[]"] ref_view [of "[]"] by simp_all

lemma ref_visits: "visits (range_declared (ref_main node p) w)" "visits (range_current (ref_main node p) w)"
  by (simp_all add: visits_def ref_main_def)

lemma ref_unique:
  "registrations_unique (spire_view ref_connection []) (desiredTable (ref_main (Inr ref_node) p) [] [ref_app] ref_mgr)"
proof -
  obtain e where "desiredEntries (ref_main (Inr ref_node) p) [] [ref_app] [ref_conn] = [e]" using ref_desired by blast
  then show ?thesis
    by (simp add: registrations_unique_def desiredTable_def GetAllConnections_def ref_mgr_def ref_connection_good)
qed

theorem reconcile_all_converges_witness:
  "\<exists>e w'. reconcileAll (ref_main (Inr ref_node) ''p.'') (ref_mgr, []) = Some (ref_mgr, w') \<and>
     spire_view ref_connection w' (''p.'' @ makeEntryKey ref_lib e) = Some (e\<lparr>ID := ''p.'' @ makeEntryKey ref_lib e\<rparr>)"
proof -
  obtain e where e: "desiredEntries (ref_main (Inr ref_node) ''p.'') [] [ref_app] [ref_conn] = [e]" using ref_desired by blast
  let ?i = "''p.'' @ makeEntryKey ref_lib e"
  have t: "desiredTable (ref_main (Inr ref_node) ''p.'') [] [ref_app] ref_mgr ?i = Some (e\<lparr>ID := ?i\<rparr>)"
    using e by (simp add: desiredTable_def GetAllConnections_def ref_mgr_def)
  note all = reconcile_all_converges [where r = "ref_main (Inr ref_node) ''p.''" and c = ref_connection and w = "[]",
      OF ref_connection_good(1) _ _ _ _ _ ref_visits _ _ _ ref_unique, unfolded ref_main_simps ref_kube_simps,
      OF refl _ ref_documented(1-3) refl ref_sync refl]
  from all obtain w' where w': "reconcileAll (ref_main (Inr ref_node) ''p.'') (ref_mgr, []) = Some (ref_mgr, w')"
    "spire_view ref_connection w' ?i = Some (e\<lparr>ID := ?i\<rparr>)"
    using t by (auto simp: ref_connection_good ref_connection_def [THEN arg_cong [of _ _ fst]])
  then show ?thesis by blast
qed

text \<open>C39: when no node of any cluster can be read, a full reconciliation deletes every entry under the
  prefix, although the pods are unchanged.\<close>

theorem unreadable_nodes_delete_all:
  assumes "spire_good c w" and "SPIREClient r = spire_client c" and "mr_lib r = fst c"
    and "selectors_not_nil (mr_kube r)"
    and "status_writes_keep (mr_kube r) (\<lambda>w. (spire_good c w, spire_view c w))"
    and "sync_keeps (mr_env r) (\<lambda>w. (spire_good c w, spire_view c w))"
    and "\<And>w. visits (range_declared r w)" and "\<And>w. visits (range_current r w)"
    and "list_clusters (mr_kube r) w = Inr cls" and "syncConnections r cls (m, w) = Some (m1, w1)"
    and "list_identities (mr_kube r) w1 = Inr identities"
    and "\<And>k n. nodes_Get (mr_kube r) w1 k n = Inl err"
  shows "\<exists>w'. reconcileAll r (m, w) = Some (m1, w') \<and>
    spire_view c w' = spire_view c w |` {i. \<not> HasPrefix i (EntryIDPrefix r)}"
proof -
  have "desiredEntries r w1 identities conns = []" for conns
  proof -
    have "e \<notin> set (desiredEntries r w1 identities conns)" for e
      unfolding in_desiredEntries podEntry_Some using assms(12) by simp
    then show ?thesis by (metis list.set_intros(1) neq_Nil_conv)
  qed
  then have d: "desiredTable r w1 identities m1 = Map.empty" by (simp add: desiredTable_def)
  then have u: "registrations_unique (spire_view c w) (desiredTable r w1 identities m1)" by (simp add: registrations_unique_def)
  have "parsed_entry (mr_lib r) e \<Longrightarrow> spire_valid c e" for e using assms(3) by (cases c) simp
  from spire.reconcile_all [OF assms(1,2,4-8) this assms(9-11) u] show ?thesis
    unfolding d by (auto simp: reconciled_def managed_def restrict_map_def fun_eq_iff)
qed

theorem unreadable_nodes_delete_all_witness:
  "\<exists>w'. reconcileAll (ref_main (Inl (Errs ''timeout'')) []) (ref_mgr, map (toAPIEntry ref_lib) [ref_entry ''e'' []]) = Some (ref_mgr, w') \<and>
     spire_view ref_connection w' = Map.empty"
proof -
  have p: "list_all (parsed_entry ref_lib) [ref_entry ''e'' []]"
  proof -
    have "FromString ref_lib ''spiffe://a.org/ns/shop'' = Inr (''a.org'', ''/ns/shop'')"
      "FromString ref_lib ''spiffe://a.org/agent'' = Inr (''a.org'', ''/agent'')" by (simp_all add: ref_library)
    then show ?thesis by (auto simp: parsed_entry_def parsed_id_def ref_entry_def)
  qed
  have "spire_good ref_connection (map (toAPIEntry ref_lib) [ref_entry ''e'' []])"
    by (rule ref_good [OF p]) simp
  from unreadable_nodes_delete_all [where r = "ref_main (Inl (Errs ''timeout'')) []" and c = ref_connection, OF this
      _ _ _ _ _ ref_visits, unfolded ref_main_simps ref_kube_simps, OF refl _ ref_documented(1-3) refl ref_sync refl refl]
  show ?thesis by (simp add: restrict_map_def ref_connection_def)
qed

text \<open>The entry \<open>e\<close> is one that a connected cluster and an identity ask for.\<close>

definition wanted ::
  "('id, 'td, 'w, 'k) MainReconciler \<Rightarrow> 'w \<Rightarrow> WorkloadIdentity list \<Rightarrow> 'k ClusterConnection list \<Rightarrow> ('id, 'td) Entry \<Rightarrow> bool" where
  "wanted r w identities conns e \<longleftrightarrow>
     (\<exists>conn identity pod node. conn \<in> set conns \<and> identity \<in> set identities \<and>
        shouldProcessIdentity r identity (conn_Cluster conn) = Some True \<and>
        \<not> isNamespaceIgnored r (spec_Namespace (wi_Spec identity)) \<and> pod_selected r w conn identity pod \<and> pod_active pod \<and>
        nodes_Get (mr_kube r) w (K8sClient conn) (NodeName (pod_Spec pod)) = Inr node \<and>
        RenderEntry (mr_lib r) identity (conn_Cluster conn) pod node (TrustDomain_String (mr_lib r) (TrustDomain r)) = Inr e)"

lemma wanted_iff: "wanted r w identities conns e \<longleftrightarrow> e \<in> set (desiredEntries r w identities conns)"
  unfolding wanted_def in_desiredEntries selects_def podEntry_Some Bex_def by iprover

text \<open>C12: the entries declared by processing the connected clusters are exactly those rendered for an
  identity whose cluster selector matches the cluster and whose namespace is not ignored, and a
  pod of that namespace which the identity's pod selector matches, which is running, not being
  deleted and assigned to a node that can be read; each is filed under the prefix and its key.\<close>

theorem declared_exactly_for_eligible_pods:
  assumes "selectors_not_nil (mr_kube r)"
  shows "\<exists>s. for_each (\<lambda>conn. processCluster r w conn identities) conns (NewEntriesStateWithPrefix (EntryIDPrefix r)) = Some s \<and>
    wf_state (mr_lib r) s \<and> current s = [] \<and>
    {d\<lparr>ID := []\<rparr> |d. d \<in> ran (map_of (declared s))} \<subseteq> {e. wanted r w identities conns e} \<and>
    dom (map_of (declared s)) =
      {EntryIDPrefix r @ makeEntryKey (mr_lib r) e |e. wanted r w identities conns e}"
    (is "\<exists>s. ?run = Some s \<and> _ \<and> _ \<and> _ \<subseteq> _ \<and> dom (map_of (declared s)) = ?K")
proof -
  let ?ds = "desiredEntries r w identities conns"
  let ?st = "fold (AddDeclared (mr_lib r)) ?ds (NewEntriesStateWithPrefix (EntryIDPrefix r))"
  have K: "?K = (\<lambda>e. EntryIDPrefix r @ makeEntryKey (mr_lib r) e) ` set ?ds" unfolding wanted_iff by blast
  note st = fold_AddDeclared [OF wf_state_New, of "mr_lib r" ?ds "EntryIDPrefix r"]
  have run: "?run = Some ?st" by (rule process_all_eq [OF assms])
  have "d\<lparr>ID := []\<rparr> \<in> set ?ds" if "d \<in> ran (map_of (declared ?st))" for d
  proof -
    have "d \<in> set (map (\<lambda>d. d\<lparr>ID := EntryIDPrefix r @ makeEntryKey (mr_lib r) d\<rparr>) ?ds)"
      using that unfolding st(4) ran_def by (auto dest!: map_of_SomeD)
    then obtain e where e: "e \<in> set ?ds" "d = e\<lparr>ID := EntryIDPrefix r @ makeEntryKey (mr_lib r) e\<rparr>" by auto
    have "ID e = []" using e(1) unfolding in_desiredEntries podEntry_Some by (auto elim: RenderEntry_InrE)
    then have "d\<lparr>ID := []\<rparr> = e" unfolding e(2) by simp
    then show ?thesis using e(1) by simp
  qed
  moreover have "dom (map_of (declared ?st)) = (\<lambda>e. EntryIDPrefix r @ makeEntryKey (mr_lib r) e) ` set ?ds"
    unfolding st(4) New_fields dom_map_add map_of.simps dom_empty Un_empty_right dom_by_id by (auto simp: image_image)
  ultimately show ?thesis unfolding K wanted_iff using run st(1,2) by (intro exI [of _ ?st]) auto
qed

theorem declared_exactly_for_eligible_pods_witness:
  "\<exists>s e. for_each (\<lambda>conn. processCluster (ref_main (Inr ref_node) ''p.'') [] conn [ref_app]) [ref_conn] (NewEntriesStateWithPrefix ''p.'') = Some s \<and>
     wanted (ref_main (Inr ref_node) ''p.'') [] [ref_app] [ref_conn] e \<and>
     ''p.'' @ makeEntryKey ref_lib e \<in> dom (map_of (declared s))"
proof -
  obtain e where e: "desiredEntries (ref_main (Inr ref_node) ''p.'') [] [ref_app] [ref_conn] = [e]" using ref_desired by blast
  then have "wanted (ref_main (Inr ref_node) ''p.'') [] [ref_app] [ref_conn] e" unfolding wanted_iff by simp
  moreover from declared_exactly_for_eligible_pods [of "ref_main (Inr ref_node) ''p.''" "[]" "[ref_app]" "[ref_conn]"]
  obtain s where "for_each (\<lambda>conn. processCluster (ref_main (Inr ref_node) ''p.'') [] conn [ref_app]) [ref_conn] (NewEntriesStateWithPrefix ''p.'') = Some s"
    "dom (map_of (declared s)) = {''p.'' @ makeEntryKey ref_lib e |e. wanted (ref_main (Inr ref_node) ''p.'') [] [ref_app] [ref_conn] e}"
    by (auto simp: ref_documented)
  ultimately show ?thesis by blast
qed

text \<open>C26: after the connections are brought in line, every connection belongs to a listed cluster that is
  enabled, and the manager's invariant holds.\<close>

theorem connections_only_to_enabled_clusters:
  assumes "wf_manager m" and "\<And>w. visits (range_clusters r w)" and "syncConnections r cls (m, w) = Some (m', w')"
  shows "wf_manager m' \<and> (\<forall>n. IsConnected n m' \<longrightarrow> (\<exists>c. c \<in> set cls \<and> Enabled (ec_Spec c) \<and> ec_Name c = n))"
  using sync_connections [OF assms(3,1,2)] unfolding IsConnected_def by blast

theorem connections_only_to_enabled_clusters_witness:
  "\<exists>m' w'. syncConnections (ref_main (Inr ref_node) []) [(ref_cluster ''east'')\<lparr>ec_Spec := (ec_Spec (ref_cluster ''east''))\<lparr>Enabled := False\<rparr>\<rparr>]
      (ref_mgr, []) = Some (m', w') \<and> \<not> IsConnected ''east'' m'"
proof -
  let ?cls = "[(ref_cluster ''east'')\<lparr>ec_Spec := (ec_Spec (ref_cluster ''east''))\<lparr>Enabled := False\<rparr>\<rparr>]"
  have "\<exists>m' w'. syncConnections (ref_main (Inr ref_node) []) ?cls (ref_mgr, []) = Some (m', w')"
    by (simp add: syncConnections_def AddOrUpdateCluster_def ref_mgr_def ref_conn_def same_connection_def
        GetAllConnections_def Let_def ref_objects RemoveCluster_def stopClusterConnection_def)
  then obtain m' w' where s: "syncConnections (ref_main (Inr ref_node) []) ?cls (ref_mgr, []) = Some (m', w')" by blast
  have "visits (range_clusters (ref_main (Inr ref_node) []) w)" for w by (simp add: visits_def)
  from connections_only_to_enabled_clusters [OF ref_documented(4) this s] s show ?thesis by auto
qed

text \<open>Whatever entries the server lists and whatever is declared, every entry that is created,
  updated or deleted has an identifier with the configured prefix.\<close>

theorem only_managed_entries_change:
  assumes "visits itd" and "visits itc"
  shows "let s = fold (AddDeclared (mr_lib r)) ds (fold AddCurrent (filter (shouldProcessEntry r) es)
        (NewEntriesStateWithPrefix (EntryIDPrefix r)));
      (cr, up, del) = GetChanges (mr_lib r) itd itc s
    in list_all (\<lambda>e. HasPrefix (ID e) (EntryIDPrefix r)) (cr @ up @ del)"
proof -
  let ?init = "fold AddCurrent (filter (shouldProcessEntry r) es) (NewEntriesStateWithPrefix (EntryIDPrefix r))"
  let ?st = "fold (AddDeclared (mr_lib r)) ds ?init"
  have wf0: "wf_state (mr_lib r) ?init" by simp
  note st = fold_AddDeclared [OF wf0, of ds]
  have d: "HasPrefix i (EntryIDPrefix r)" if "map_of (declared ?st) i = Some d" for i d
    using wf_state_declared [OF st(1) that] by (simp add: st(3))
  have c: "HasPrefix i (EntryIDPrefix r)" if "map_of (current ?st) i = Some e" for i e
    using that unfolding st(2) map_of_fold_AddCurrent
    by (auto dest!: map_of_SomeD simp: shouldProcessEntry_iff managed_def)
  show ?thesis
    using in_changes [OF st(1) assms] d c by (auto simp: Let_def case_prod_beta list_all_iff)
qed

theorem only_managed_entries_change_witness:
  "let s = fold (AddDeclared ref_lib) [ref_entry [] []] (fold AddCurrent (filter (shouldProcessEntry (ref_main (Inr ref_node) ''p.''))
        [ref_entry ''p.1'' [], ref_entry ''q.1'' []]) (NewEntriesStateWithPrefix ''p.''));
      (cr, up, del) = GetChanges ref_lib (\<lambda>m. m) rev s
    in list_all (\<lambda>e. HasPrefix (ID e) ''p.'') (cr @ up @ del)"
proof -
  have "visits (\<lambda>m :: (string \<times> (string \<times> string, string) Entry) list. m)"
    "visits (rev :: (string \<times> (string \<times> string, string) Entry) list \<Rightarrow> _)" by (simp_all add: visits_def)
  from only_managed_entries_change [OF this, of "ref_main (Inr ref_node) ''p.''"] show ?thesis unfolding ref_main_simps .
qed

subsection \<open>Statuses\<close>

text \<open>The number of registered entries written to the statuses is the number of declared entries that
  were missing or different before the reconciliation; it is 0 when everything was registered
  already.\<close>

theorem registered_count_is_pending:
  assumes "wf_state (mr_lib r) s" and "visits (range_declared r w)" and "visits (range_current r w)"
  shows "calculateClusterEntries r w s =
    int (card {d \<in> ran (map_of (declared s)). case map_of (current s) (ID d) of
      None \<Rightarrow> True | Some c \<Rightarrow> \<not> entriesEqual (mr_lib r) c d})"
proof -
  let ?ch = "GetChanges (mr_lib r) (range_declared r w) (range_current r w) s"
  note mem = in_changes [OF assms] and dist = distinct_changes [OF assms]
  have ran: "d \<in> ran (map_of (declared s)) \<longleftrightarrow> map_of (declared s) (ID d) = Some d" for d
    using wf_state_declared_ID [OF assms(1)] unfolding ran_def by blast
  have "{d \<in> ran (map_of (declared s)). case map_of (current s) (ID d) of
      None \<Rightarrow> True | Some c \<Rightarrow> \<not> entriesEqual (mr_lib r) c d} = set (creates ?ch) \<union> set (updates ?ch)" (is "?A = ?B")
  proof (rule set_eqI)
    fix d
    show "d \<in> ?A \<longleftrightarrow> d \<in> ?B"
      unfolding Un_iff mem mem_Collect_eq ran by (cases "map_of (current s) (ID d)") simp_all
  qed
  moreover have "set (creates ?ch) \<inter> set (updates ?ch) = {}" by (auto simp: mem)
  moreover have "card (set (creates ?ch)) = length (creates ?ch)" "card (set (updates ?ch)) = length (updates ?ch)"
    using dist by (simp_all add: distinct_map distinct_card)
  ultimately show ?thesis
    by (simp add: calculateClusterEntries_def pendingChanges_def case_prod_beta card_Un_disjoint)
qed

theorem registered_count_is_pending_witness:
  "calculateClusterEntries (ref_main (Inr ref_node) []) [] (ref_synced [Selector ''k8s'' ''a'']) = 0"
proof -
  let ?k = "makeEntryKey ref_lib (ref_entry [] [Selector ''k8s'' ''a''])"
  have m: "map_of (declared (ref_synced [Selector ''k8s'' ''a''])) = [?k \<mapsto> ref_entry ?k [Selector ''k8s'' ''a'']]"
    "map_of (current (ref_synced [Selector ''k8s'' ''a''])) = [?k \<mapsto> ref_entry ?k [Selector ''k8s'' ''a'']]"
    by (simp_all add: ref_synced_def map_of_AddCurrent map_of_AddDeclared)
  have eq: "entriesEqual ref_lib (ref_entry ?k [Selector ''k8s'' ''a'']) (ref_entry ?k [Selector ''k8s'' ''a''])"
    unfolding entriesEqual_refl_iff by (simp add: ref_entry_def)
  have wf: "wf_state (mr_lib (ref_main (Inr ref_node) [])) (ref_synced [Selector ''k8s'' ''a''])" by (simp add: ref_synced(1))
  have e: "{d \<in> ran (map_of (declared (ref_synced [Selector ''k8s'' ''a'']))). case map_of (current (ref_synced [Selector ''k8s'' ''a''])) (ID d) of
      None \<Rightarrow> True | Some c \<Rightarrow> \<not> entriesEqual ref_lib c d} = {}"
    unfolding m using eq by auto
  show ?thesis
    unfolding registered_count_is_pending [OF wf ref_visits] ref_main_simps e by simp
qed

text \<open>Updating the conditions leaves every other condition as it is and leaves one that is the
  first of type \<open>Ready\<close>, with the status and reason of the connection; its time is always the
  current one, whether or not the status changed.\<close>

theorem ready_condition_set:
  "let cs = Conditions (ec_Status cluster);
       cs' = Conditions (ec_Status (updateClusterConditions now cluster isConn))
   in filter (\<lambda>c. cond_Type c \<noteq> ''Ready'') cs' = filter (\<lambda>c. cond_Type c \<noteq> ''Ready'') cs \<and>
      length cs' = (if \<exists>c. c \<in> set cs \<and> cond_Type c = ''Ready'' then length cs else Suc (length cs)) \<and>
      (\<exists>c. find (\<lambda>c. cond_Type c = ''Ready'') cs' = Some c \<and> cond_LastTransitionTime c = now \<and>
        cond_Status c = (if isConn then ''True'' else ''False'') \<and>
        cond_Reason c = (if isConn then ''Connected'' else ''NotConnected'')) \<and>
      ec_Spec (updateClusterConditions now cluster isConn) = ec_Spec cluster"
proof -
  have "filter (\<lambda>c. cond_Type c \<noteq> ''Ready'') (set_ready now isConn cs) = filter (\<lambda>c. cond_Type c \<noteq> ''Ready'') cs" for cs
    by (induction cs) (auto simp: ready_condition_def)
  moreover have "length (set_ready now isConn cs) = (if \<exists>c. c \<in> set cs \<and> cond_Type c = ''Ready'' then length cs else Suc (length cs))" for cs
    by (induction cs) auto
  moreover have "\<exists>c. find (\<lambda>c. cond_Type c = ''Ready'') (set_ready now isConn cs) = Some c \<and> cond_LastTransitionTime c = now \<and>
      cond_Status c = (if isConn then ''True'' else ''False'') \<and>
      cond_Reason c = (if isConn then ''Connected'' else ''NotConnected'')" for cs
    by (induction cs) (auto simp: ready_condition_def)
  ultimately show ?thesis unfolding Let_def updateClusterConditions_def by simp
qed

subsection \<open>The state of a cycle\<close>

definition typed_state :: "('id, 'td, 'w, 'k) MainReconciler \<Rightarrow> ('id, 'td) entriesState \<Rightarrow> bool" where
  "typed_state r s \<longleftrightarrow> wf_state (mr_lib r) s \<and> entryPrefix s = EntryIDPrefix r \<and>
     (\<forall>i e. map_of (current s) i = Some e \<longrightarrow> managed r i) \<and>
     (\<forall>i e. map_of (declared s) i = Some e \<longrightarrow> parsed_entry (mr_lib r) e)"

lemma typed_current: "typed_state r (fold AddCurrent (filter (shouldProcessEntry r) es) (NewEntriesStateWithPrefix (EntryIDPrefix r)))"
proof -
  have one: "typed_state r s \<Longrightarrow> managed r (ID e) \<Longrightarrow> typed_state r (AddCurrent e s)" for e s
    by (auto simp: typed_state_def map_of_AddCurrent)
  have "typed_state r s \<Longrightarrow> \<forall>e \<in> set xs. managed r (ID e) \<Longrightarrow> typed_state r (fold AddCurrent xs s)" for xs s
    by (induction xs arbitrary: s) (simp_all add: one)
  moreover have "typed_state r (NewEntriesStateWithPrefix (EntryIDPrefix r))" by (simp add: typed_state_def)
  ultimately show ?thesis by (simp add: shouldProcessEntry_iff)
qed

lemma typed_declared: "typed_state r s \<Longrightarrow> parsed_entry (mr_lib r) e \<Longrightarrow> typed_state r (AddDeclared (mr_lib r) e s)"
  by (auto simp: typed_state_def map_of_AddDeclared)

lemma typed_processCluster:
  assumes "typed_state r s" and "processCluster r w conn identities s = Some s'"
  shows "typed_state r s'"
proof -
  have e: "parsed_entry (mr_lib r) e" if "e \<in> set (identityEntries r w conn identity)" for e identity
    using that by (auto simp: in_identityEntries podEntry_Some intro: RenderEntry_parsed)
  have f: "typed_state r t \<Longrightarrow> \<forall>e \<in> set xs. parsed_entry (mr_lib r) e \<Longrightarrow> typed_state r (fold (AddDeclared (mr_lib r)) xs t)" for xs t
    by (induction xs arbitrary: t) (auto intro: typed_declared)
  show ?thesis
    by (rule for_each_inv [where P = "typed_state r", OF assms(2) [unfolded processCluster_def] assms(1)])
      (auto simp: processWorkloadIdentity_eq e f split: bind_splits if_splits)
qed

text \<open>C25: the state in which a cycle compares is well-typed, whatever the server listed and whatever the
  objects hold: each table has one entry per identifier and files every entry under its own; the
  current entries are those under the prefix; and every declared entry has parsed SPIFFE IDs and
  trust domains and an identifier of the prefix and 64 characters, its key.\<close>

theorem cycle_state_well_typed:
  assumes "for_each (\<lambda>conn. processCluster r w conn identities) conns
    (fold AddCurrent (filter (shouldProcessEntry r) es) (NewEntriesStateWithPrefix (EntryIDPrefix r))) = Some s"
  shows "distinct (map fst (current s)) \<and> distinct (map fst (declared s)) \<and>
    (\<forall>i e. map_of (current s) i = Some e \<longrightarrow> ID e = i \<and> HasPrefix i (EntryIDPrefix r)) \<and>
    (\<forall>i e. map_of (declared s) i = Some e \<longrightarrow> ID e = i \<and> i = EntryIDPrefix r @ makeEntryKey (mr_lib r) e \<and>
       length i = length (EntryIDPrefix r) + 64 \<and> parsed_entry (mr_lib r) e)"
proof -
  have t: "typed_state r s"
    by (rule for_each_inv [where P = "typed_state r", OF assms typed_current]) (rule typed_processCluster)
  then have wf: "wf_state (mr_lib r) s" "entryPrefix s = EntryIDPrefix r" by (simp_all add: typed_state_def)
  have d: "ID e = i \<and> i = EntryIDPrefix r @ makeEntryKey (mr_lib r) e \<and> length i = length (EntryIDPrefix r) + 64"
    if "map_of (declared s) i = Some e" for i e
    using wf_state_declared [OF wf(1) that] wf(2) length_makeEntryKey [of "mr_lib r" e] by simp
  show ?thesis
    using t d wf_state_maps [OF wf(1)] wf_state_current [OF wf(1)]
    unfolding typed_state_def managed_def wf_map_def by blast
qed

theorem cycle_state_well_typed_witness:
  "\<exists>s i e. for_each (\<lambda>conn. processCluster (ref_main (Inr ref_node) ''p.'') [] conn [ref_app]) [ref_conn] (NewEntriesStateWithPrefix ''p.'') = Some s \<and>
     map_of (declared s) i = Some e \<and> length i = 66"
proof -
  let ?r = "ref_main (Inr ref_node) ''p.''"
  obtain e where e: "desiredEntries ?r [] [ref_app] [ref_conn] = [e]" using ref_desired by blast
  let ?s = "AddDeclared ref_lib e (NewEntriesStateWithPrefix ''p.'')"
  have run: "for_each (\<lambda>conn. processCluster ?r [] conn [ref_app]) [ref_conn] (NewEntriesStateWithPrefix ''p.'') = Some ?s"
    using process_all_eq [of ?r "[]" "[ref_app]" "[ref_conn]"] e by (simp add: ref_documented)
  obtain i d where "map_of (declared ?s) i = Some d" unfolding map_of_AddDeclared by (meson fun_upd_same)
  with cycle_state_well_typed [of ?r "[]" "[ref_app]" "[ref_conn]" "[]" ?s] run show ?thesis by auto
qed

end
