(* ===== verification/Targeted_Reconciler.thy ===== *)
theory Targeted_Reconciler
  imports Main_Properties
begin

text \<open>
  \<open>internal/controller/targeted_reconciler.go\<close>: the reactions to a single pod, identity or cluster.
  Shown: what the deletions delete, that reconciling one pod gives it an up-to-date entry, that
  hint matching recognises the entries of an identity exactly when it has no hint of its own and
  never those of a cluster, and where pod selection differs from the full reconciliation.
\<close>

subsection \<open>Matching\<close>

definition entryBelongsToIdentity :: "('id, 'td) Entry \<Rightarrow> WorkloadIdentity \<Rightarrow> bool" where
  "entryBelongsToIdentity entry identity =
     (let expectedHint = spec_Hint (wi_Spec identity)
      in if expectedHint = [] then Contains (Hint entry) (''workloadidentity:'' @ wi_Name identity @ '':'')
         else Hint entry = expectedHint)"

definition entryBelongsToCluster :: "('id, 'td) Entry \<Rightarrow> EKSClusterRegistry \<Rightarrow> bool" where
  "entryBelongsToCluster entry cluster =
     (let expectedPrefix = ''workloadidentity:''
      in if length (Hint entry) > length expectedPrefix then
           (let hintParts = drop (length expectedPrefix) (Hint entry)
            in if length hintParts > 0 then
                 (let parts = Split hintParts (CHR '':'') in length parts \<ge> 2 \<and> parts ! 1 = ec_Name cluster)
               else False)
         else False)"

definition entryHasPod :: "Pod \<Rightarrow> ('id, 'td) Entry \<Rightarrow> bool" where
  "entryHasPod pod entry =
     list_ex (\<lambda>sel. Type sel = ''k8s'' \<and> Value sel = ''pod-uid:'' @ UID (pod_Meta pod)) (Selectors entry)"

text \<open>The search for a valid pod in the two cleanup functions.\<close>

definition hasValidPod :: "string list \<Rightarrow> ('id, 'td) Entry \<Rightarrow> bool" where
  "hasValidPod validPodUIDs entry =
     list_ex (\<lambda>sel. Type sel = ''k8s'' \<and> HasPrefix (Value sel) ''pod-uid:'' \<and>
                    TrimPrefix (Value sel) ''pod-uid:'' \<in> set validPodUIDs) (Selectors entry)"

text \<open>\<open>for _, x := range xs { if f(x) { ys = append(ys, x) } }\<close>, where the test may panic.\<close>

fun selectM :: "('a \<Rightarrow> bool option) \<Rightarrow> 'a list \<Rightarrow> 'a list option" where
  "selectM f [] = Some []"
| "selectM f (x # xs) = do { b \<leftarrow> f x; ys \<leftarrow> selectM f xs; Some (if b then x # ys else ys) }"

text \<open>The errors of the two lists are ignored: the list stays empty.\<close>

definition identities_of :: "('id, 'td, 'w, 'k) MainReconciler \<Rightarrow> 'w \<Rightarrow> WorkloadIdentity list" where
  "identities_of r w = (case list_identities (mr_kube r) w of Inl _ \<Rightarrow> [] | Inr xs \<Rightarrow> xs)"

definition clusters_of :: "('id, 'td, 'w, 'k) MainReconciler \<Rightarrow> 'w \<Rightarrow> EKSClusterRegistry list" where
  "clusters_of r w = (case list_clusters (mr_kube r) w of Inl _ \<Rightarrow> [] | Inr xs \<Rightarrow> xs)"

text \<open>The body of the loop of \<open>findMatchingIdentities\<close>: \<open>None\<close> is the call of \<open>Matches\<close> on the nil
  selector that an invalid pod selector gives.\<close>

definition identityMatches ::
  "('id, 'td, 'w, 'k) MainReconciler \<Rightarrow> Pod \<Rightarrow> EKSClusterRegistry \<Rightarrow> WorkloadIdentity \<Rightarrow> bool option" where
  "identityMatches r pod cluster identity =
     (if spec_Namespace (wi_Spec identity) \<noteq> Namespace (pod_Meta pod) then Some False
      else do {
        ok \<leftarrow> shouldProcessIdentity r identity cluster;
        if \<not> ok then Some False
        else if PodSelector (wi_Spec identity) \<noteq> None then
          (case LabelSelectorAsSelector (mr_kube r) (PodSelector (wi_Spec identity)) of
             Inr (Some sel) \<Rightarrow> Some (sel (Labels (pod_Meta pod)))
           | _ \<Rightarrow> None)
        else Some True })"

definition findMatchingIdentities ::
  "('id, 'td, 'w, 'k) MainReconciler \<Rightarrow> 'w \<Rightarrow> Pod \<Rightarrow> EKSClusterRegistry \<Rightarrow> WorkloadIdentity list option" where
  "findMatchingIdentities r w pod cluster = selectM (identityMatches r pod cluster) (identities_of r w)"

definition findMatchingClusters ::
  "('id, 'td, 'w, 'k) MainReconciler \<Rightarrow> 'w \<Rightarrow> WorkloadIdentity \<Rightarrow> EKSClusterRegistry list option" where
  "findMatchingClusters r w identity =
     selectM (\<lambda>cluster. if Enabled (ec_Spec cluster) then shouldProcessIdentity r identity cluster else Some False)
       (clusters_of r w)"

definition findIdentitiesForCluster ::
  "('id, 'td, 'w, 'k) MainReconciler \<Rightarrow> 'w \<Rightarrow> EKSClusterRegistry \<Rightarrow> WorkloadIdentity list option" where
  "findIdentitiesForCluster r w cluster = selectM (\<lambda>identity. shouldProcessIdentity r identity cluster) (identities_of r w)"

definition getMatchingPods ::
  "('id, 'td, 'w, 'k) MainReconciler \<Rightarrow> 'w \<Rightarrow> 'k ClusterConnection \<Rightarrow> WorkloadIdentity \<Rightarrow> Pod list" where
  "getMatchingPods r w conn identity =
     (case LabelSelectorAsSelector (mr_kube r) (PodSelector (wi_Spec identity)) of
        Inl _ \<Rightarrow> []
      | Inr podSelector \<Rightarrow>
          List.map_filter (selectPod identity podSelector) (store_List (mr_kube r) w (PodInformer conn)))"

subsection \<open>Deleting\<close>

text \<open>List the entries and delete, one call each, those that satisfy \<open>P\<close>; nothing on a list error.\<close>

definition deleteWhere ::
  "('id, 'td, 'w, 'k) MainReconciler \<Rightarrow> (('id, 'td) Entry \<Rightarrow> bool) \<Rightarrow> 'w \<Rightarrow> 'w option" where
  "deleteWhere r P w = do {
     (listed, w) \<leftarrow> ListEntries (SPIREClient r) w;
     case listed of
       Inl _ \<Rightarrow> Some w
     | Inr entries \<Rightarrow>
         for_each (\<lambda>entry w. if P entry then map_option snd (DeleteEntry (SPIREClient r) (ID entry) w) else Some w) entries w }"

definition deleteEntriesForPod :: "('id, 'td, 'w, 'k) MainReconciler \<Rightarrow> Pod \<Rightarrow> 'w \<Rightarrow> 'w option" where
  "deleteEntriesForPod r pod w = deleteWhere r (\<lambda>entry. shouldProcessEntry r entry \<and> entryHasPod pod entry) w"

definition deleteEntriesForIdentity ::
  "('id, 'td, 'w, 'k) MainReconciler \<Rightarrow> WorkloadIdentity \<Rightarrow> 'w \<Rightarrow> 'w option" where
  "deleteEntriesForIdentity r identity w = deleteWhere r (\<lambda>entry. entryBelongsToIdentity entry identity) w"

definition deleteEntriesForCluster ::
  "('id, 'td, 'w, 'k) MainReconciler \<Rightarrow> EKSClusterRegistry \<Rightarrow> 'w \<Rightarrow> 'w option" where
  "deleteEntriesForCluster r cluster w = deleteWhere r (\<lambda>entry. entryBelongsToCluster entry cluster) w"

subsection \<open>One pod\<close>

definition reconcilePodEntry ::
  "('id, 'td, 'w, 'k) MainReconciler \<Rightarrow> Pod \<Rightarrow> Node \<Rightarrow> WorkloadIdentity \<Rightarrow> EKSClusterRegistry \<Rightarrow> 'w \<Rightarrow> 'w option" where
  "reconcilePodEntry r pod node identity cluster w =
     (case RenderEntry (mr_lib r) identity cluster pod node (TrustDomain_String (mr_lib r) (TrustDomain r)) of
        Inl _ \<Rightarrow> Some w
      | Inr entry \<Rightarrow> do {
          let entryKey = makeEntryKey (mr_lib r) entry;
          let entry = entry\<lparr>ID := (if EntryIDPrefix r \<noteq> [] then EntryIDPrefix r @ entryKey else entryKey)\<rparr>;
          (listed, w) \<leftarrow> ListEntries (SPIREClient r) w;
          let entries = (case listed of Inl _ \<Rightarrow> [] | Inr es \<Rightarrow> es);
          case find (\<lambda>e. ID e = ID entry) entries of
            None \<Rightarrow> map_option snd (CreateEntry (SPIREClient r) entry w)
          | Some existingEntry \<Rightarrow>
              if length (getOutdatedEntryFields (mr_lib r) entry existingEntry) > 0
              then map_option snd (UpdateEntry (SPIREClient r) (entry\<lparr>ID := ID existingEntry\<rparr>) w)
              else Some w })"

definition ReconcileSinglePod ::
  "('id, 'td, 'w, 'k) MainReconciler \<Rightarrow> 'k Manager \<Rightarrow> Pod \<Rightarrow> EKSClusterRegistry \<Rightarrow> string \<Rightarrow> 'w \<Rightarrow> 'w option" where
  "ReconcileSinglePod r m pod cluster action w =
     (if isNamespaceIgnored r (Namespace (pod_Meta pod)) then Some w
      else if action = ''delete'' then deleteEntriesForPod r pod w
      else do {
        identities \<leftarrow> findMatchingIdentities r w pod cluster;
        if length identities = 0 then Some w
        else if pod_Phase pod \<noteq> ''Running'' \<or> DeletionTimestamp (pod_Meta pod) \<noteq> None \<or> NodeName (pod_Spec pod) = []
        then deleteEntriesForPod r pod w
        else case GetClusterConnection (ec_Name cluster) m of
               None \<Rightarrow> Some w
             | Some conn \<Rightarrow>
                 (case nodes_Get (mr_kube r) w (K8sClient conn) (NodeName (pod_Spec pod)) of
                    Inl _ \<Rightarrow> Some w
                  | Inr node \<Rightarrow> for_each (\<lambda>identity. reconcilePodEntry r pod node identity cluster) identities w) })"

text \<open>The pod loop shared by the reactions to an identity and to a cluster.\<close>

definition reconcilePods ::
  "('id, 'td, 'w, 'k) MainReconciler \<Rightarrow> 'k ClusterConnection \<Rightarrow> WorkloadIdentity \<Rightarrow> EKSClusterRegistry \<Rightarrow> Pod list \<Rightarrow> 'w \<Rightarrow> 'w option" where
  "reconcilePods r conn identity cluster pods w =
     for_each (\<lambda>pod w.
         if pod_Phase pod \<noteq> ''Running'' \<or> DeletionTimestamp (pod_Meta pod) \<noteq> None \<or> NodeName (pod_Spec pod) = [] then Some w
         else case nodes_Get (mr_kube r) w (K8sClient conn) (NodeName (pod_Spec pod)) of
                Inl _ \<Rightarrow> Some w
              | Inr node \<Rightarrow> reconcilePodEntry r pod node identity cluster w)
       pods w"

definition activeUIDs :: "Pod list \<Rightarrow> string list" where
  "activeUIDs pods = map (\<lambda>pod. UID (pod_Meta pod)) (filter pod_active pods)"

subsection \<open>One identity\<close>

definition validUIDsForIdentity ::
  "('id, 'td, 'w, 'k) MainReconciler \<Rightarrow> 'k Manager \<Rightarrow> 'w \<Rightarrow> WorkloadIdentity \<Rightarrow> string list option" where
  "validUIDsForIdentity r m w identity = do {
     cls \<leftarrow> findMatchingClusters r w identity;
     Some (concat (map (\<lambda>cluster. case GetClusterConnection (ec_Name cluster) m of
        None \<Rightarrow> [] | Some conn \<Rightarrow> activeUIDs (getMatchingPods r w conn identity)) cls)) }"

definition cleanupOrphanedEntriesForIdentity ::
  "('id, 'td, 'w, 'k) MainReconciler \<Rightarrow> 'k Manager \<Rightarrow> WorkloadIdentity \<Rightarrow> 'w \<Rightarrow> 'w option" where
  "cleanupOrphanedEntriesForIdentity r m identity w = do {
     (listed, w) \<leftarrow> ListEntries (SPIREClient r) w;
     case listed of
       Inl _ \<Rightarrow> Some w
     | Inr entries \<Rightarrow> do {
         validPodUIDs \<leftarrow> validUIDsForIdentity r m w identity;
         for_each (\<lambda>entry w.
             if \<not> entryBelongsToIdentity entry identity then Some w
             else if \<not> hasValidPod validPodUIDs entry then map_option snd (DeleteEntry (SPIREClient r) (ID entry) w)
             else Some w) entries w } }"

definition ReconcileWorkloadIdentity ::
  "('id, 'td, 'w, 'k) MainReconciler \<Rightarrow> 'k Manager \<Rightarrow> WorkloadIdentity \<Rightarrow> bool \<Rightarrow> 'w \<Rightarrow> 'w option" where
  "ReconcileWorkloadIdentity r m identity deleted w =
     (if deleted then deleteEntriesForIdentity r identity w
      else do {
        cls \<leftarrow> findMatchingClusters r w identity;
        w \<leftarrow> for_each (\<lambda>cluster w.
               case GetClusterConnection (ec_Name cluster) m of
                 None \<Rightarrow> Some w
               | Some conn \<Rightarrow> reconcilePods r conn identity cluster (getMatchingPods r w conn identity) w) cls w;
        cleanupOrphanedEntriesForIdentity r m identity w })"

subsection \<open>One cluster\<close>

definition validUIDsForCluster ::
  "('id, 'td, 'w, 'k) MainReconciler \<Rightarrow> 'k Manager \<Rightarrow> 'w \<Rightarrow> EKSClusterRegistry \<Rightarrow> string list option" where
  "validUIDsForCluster r m w cluster =
     (case GetClusterConnection (ec_Name cluster) m of
        None \<Rightarrow> Some []
      | Some conn \<Rightarrow> do {
          identities \<leftarrow> findIdentitiesForCluster r w cluster;
          Some (concat (map (\<lambda>identity. activeUIDs (getMatchingPods r w conn identity)) identities)) })"

definition cleanupOrphanedEntriesForCluster ::
  "('id, 'td, 'w, 'k) MainReconciler \<Rightarrow> 'k Manager \<Rightarrow> EKSClusterRegistry \<Rightarrow> 'w \<Rightarrow> 'w option" where
  "cleanupOrphanedEntriesForCluster r m cluster w = do {
     (listed, w) \<leftarrow> ListEntries (SPIREClient r) w;
     case listed of
       Inl _ \<Rightarrow> Some w
     | Inr entries \<Rightarrow> do {
         validPodUIDs \<leftarrow> validUIDsForCluster r m w cluster;
         for_each (\<lambda>entry w.
             if \<not> entryBelongsToCluster entry cluster then Some w
             else if \<not> hasValidPod validPodUIDs entry then map_option snd (DeleteEntry (SPIREClient r) (ID entry) w)
             else Some w) entries w } }"

definition ReconcileEKSCluster ::
  "('id, 'td, 'w, 'k) MainReconciler \<Rightarrow> EKSClusterRegistry \<Rightarrow> bool \<Rightarrow> 'k Manager \<times> 'w \<Rightarrow> ('k Manager \<times> 'w) option" where
  "ReconcileEKSCluster r cluster deleted s =
     (case s of (m, w) \<Rightarrow>
        if deleted \<or> \<not> Enabled (ec_Spec cluster) then do {
          w \<leftarrow> deleteEntriesForCluster r cluster w;
          m \<leftarrow> RemoveCluster (ec_Name cluster) m;
          Some (m, w) }
        else do {
          (err, m, w) \<leftarrow> AddOrUpdateCluster (mr_env r) cluster m w;
          case err of
            Some _ \<Rightarrow> Some (m, w)
          | None \<Rightarrow>
              (case GetClusterConnection (ec_Name cluster) m of
                 None \<Rightarrow> Some (m, w)
               | Some conn \<Rightarrow> do {
                   identities \<leftarrow> findIdentitiesForCluster r w cluster;
                   w \<leftarrow> for_each (\<lambda>identity w. reconcilePods r conn identity cluster (getMatchingPods r w conn identity) w) identities w;
                   w \<leftarrow> cleanupOrphanedEntriesForCluster r m cluster w;
                   Some (m, w) }) })"


subsection \<open>Deleting: lemmas\<close>

lemma for_each_if [go_loops]:
  "for_each (\<lambda>x s. if P x then f x s else Some s) xs s = for_each f (filter P xs) s"
proof (induction xs arbitrary: s)
  case (Cons x xs)
  then show ?case by (cases "P x"; cases "f x s") simp_all
qed simp

text \<open>The table without the entries that satisfy \<open>P\<close>.\<close>

definition without :: "(('id, 'td) Entry \<Rightarrow> bool) \<Rightarrow> (string \<Rightarrow> ('id, 'td) Entry option) \<Rightarrow> string \<Rightarrow> ('id, 'td) Entry option" where
  "without P table i = (case table i of None \<Rightarrow> None | Some e \<Rightarrow> if P e then None else Some e)"

lemma without_by_id:
  assumes "distinct (map ID es)"
  shows "by_id es |` (- ID ` {x \<in> set es. P x}) = without P (by_id es)"
proof
  fix i
  show "(by_id es |` (- ID ` {x \<in> set es. P x})) i = without P (by_id es) i"
  proof (cases "by_id es i")
    case (Some e)
    then have e: "e \<in> set es" "ID e = i" unfolding by_id_Some [OF assms] by auto
    have "x = e" if "x \<in> set es" "ID x = i" for x
      using that e assms by (auto simp: distinct_map dest: inj_onD)
    with e have "i \<in> ID ` {x \<in> set es. P x} \<longleftrightarrow> P e" by blast
    then show ?thesis using Some by (simp add: without_def restrict_map_def)
  qed (simp add: without_def restrict_map_def)
qed

context client_contract
begin

lemma delete_where:
  assumes "good c w" and "SPIREClient r = client c"
  shows "\<exists>w'. deleteWhere r P w = Some w' \<and> good c w' \<and> view c w' = without P (view c w)"
proof -
  from list_law [OF assms(1)] obtain es where es: "ListEntries (client c) w = Some (Inr es, w)"
    "distinct (map ID es)" "view c w = by_id es" by blast
  from delete_each [OF assms(1), of ID "filter P es"] obtain w' where
    "for_each (\<lambda>e w. map_option snd (DeleteEntry (client c) (ID e) w)) (filter P es) w = Some w'" "good c w'"
    "view c w' = view c w |` (- ID ` set (filter P es))" by blast
  then show ?thesis using es assms(2) by (simp add: deleteWhere_def for_each_if without_by_id)
qed

text \<open>The loop of the two cleanup functions.\<close>

lemma cleanup_listed:
  assumes "good c w"
  obtains es where "ListEntries (client c) w = Some (Inr es, w)"
    "\<And>A B. \<exists>w'. for_each (\<lambda>e w. if \<not> A e then Some w
        else if \<not> B e then map_option snd (DeleteEntry (client c) (ID e) w) else Some w) es w = Some w' \<and> good c w' \<and>
      view c w' = without (\<lambda>e. A e \<and> \<not> B e) (view c w)"
proof -
  have if2: "(if \<not> A then x else if \<not> B then y else x) = (if A \<and> \<not> B then y else x)" for A B and x y :: "'w option" by simp
  from list_law [OF assms(1)] obtain es where es: "ListEntries (client c) w = Some (Inr es, w)"
    "distinct (map ID es)" "view c w = by_id es" by blast
  have "\<exists>w'. for_each (\<lambda>e w. if \<not> A e then Some w
        else if \<not> B e then map_option snd (DeleteEntry (client c) (ID e) w) else Some w) es w = Some w' \<and> good c w' \<and>
      view c w' = without (\<lambda>e. A e \<and> \<not> B e) (view c w)" for A B
    using delete_each [OF assms(1), of ID "filter (\<lambda>e. A e \<and> \<not> B e) es"] es
    by (simp add: if2 for_each_if without_by_id)
  with es(1) show thesis using that by blast
qed

lemma cleanup_identity:
  assumes "good c w" and "SPIREClient r = client c" and "validUIDsForIdentity r m w identity = Some uids"
  shows "\<exists>w'. cleanupOrphanedEntriesForIdentity r m identity w = Some w' \<and> good c w' \<and>
    view c w' = without (\<lambda>e. entryBelongsToIdentity e identity \<and> \<not> hasValidPod uids e) (view c w)"
proof -
  obtain es where es: "ListEntries (client c) w = Some (Inr es, w)"
    "\<And>A B. \<exists>w'. for_each (\<lambda>e w. if \<not> A e then Some w
        else if \<not> B e then map_option snd (DeleteEntry (client c) (ID e) w) else Some w) es w = Some w' \<and> good c w' \<and>
      view c w' = without (\<lambda>e. A e \<and> \<not> B e) (view c w)"
    using cleanup_listed [OF assms(1)] by blast
  have "cleanupOrphanedEntriesForIdentity r m identity w = for_each (\<lambda>e w. if \<not> entryBelongsToIdentity e identity then Some w
      else if \<not> hasValidPod uids e then map_option snd (DeleteEntry (client c) (ID e) w) else Some w) es w"
    unfolding cleanupOrphanedEntriesForIdentity_def assms(2) es(1) by (simp add: assms(3))
  then show ?thesis using es(2) by (simp only:)
qed

lemma cleanup_cluster:
  assumes "good c w" and "SPIREClient r = client c" and "validUIDsForCluster r m w cluster = Some uids"
  shows "\<exists>w'. cleanupOrphanedEntriesForCluster r m cluster w = Some w' \<and> good c w' \<and>
    view c w' = without (\<lambda>e. entryBelongsToCluster e cluster \<and> \<not> hasValidPod uids e) (view c w)"
proof -
  obtain es where es: "ListEntries (client c) w = Some (Inr es, w)"
    "\<And>A B. \<exists>w'. for_each (\<lambda>e w. if \<not> A e then Some w
        else if \<not> B e then map_option snd (DeleteEntry (client c) (ID e) w) else Some w) es w = Some w' \<and> good c w' \<and>
      view c w' = without (\<lambda>e. A e \<and> \<not> B e) (view c w)"
    using cleanup_listed [OF assms(1)] by blast
  have "cleanupOrphanedEntriesForCluster r m cluster w = for_each (\<lambda>e w. if \<not> entryBelongsToCluster e cluster then Some w
      else if \<not> hasValidPod uids e then map_option snd (DeleteEntry (client c) (ID e) w) else Some w) es w"
    unfolding cleanupOrphanedEntriesForCluster_def assms(2) es(1) by (simp add: assms(3))
  then show ?thesis using es(2) by (simp only:)
qed

lemma reconcile_pod_entry_run:
  fixes r :: "('id, 'td, 'w, 'k) MainReconciler"
  assumes "ListEntries (client c) w = Some (Inr es, w)" and "SPIREClient r = client c"
    and "RenderEntry (mr_lib r) identity cluster pod node (TrustDomain_String (mr_lib r) (TrustDomain r)) = Inr e0"
    and "e = e0\<lparr>ID := EntryIDPrefix r @ makeEntryKey (mr_lib r) e0\<rparr>"
  shows "reconcilePodEntry r pod node identity cluster w =
      (case find (\<lambda>x. ID x = ID e) es of
         None \<Rightarrow> map_option snd (CreateEntry (client c) e w)
       | Some x \<Rightarrow> if length (getOutdatedEntryFields (mr_lib r) e x) > 0
                   then map_option snd (UpdateEntry (client c) (e\<lparr>ID := ID x\<rparr>) w) else Some w)"
proof -
  have pre: "(if EntryIDPrefix r \<noteq> [] then EntryIDPrefix r @ k else k) = EntryIDPrefix r @ k" for k by simp
  show ?thesis
    using assms(1) unfolding reconcilePodEntry_def Let_def assms(2,3) sum.case pre assms(4) [symmetric] by simp
qed

lemma reconcile_pod_entry:
  fixes r :: "('id, 'td, 'w, 'k) MainReconciler"
  assumes "good c w" and "SPIREClient r = client c"
    and e0: "RenderEntry (mr_lib r) identity cluster pod node (TrustDomain_String (mr_lib r) (TrustDomain r)) = Inr e0"
    and e: "e = e0\<lparr>ID := EntryIDPrefix r @ makeEntryKey (mr_lib r) e0\<rparr>" and val: "valid c e"
    and uniq: "\<And>x. x \<in> ran (view c w) \<Longrightarrow> same_registration x e \<Longrightarrow> ID x = ID e"
  shows "\<exists>w' e'. reconcilePodEntry r pod node identity cluster w = Some w' \<and> good c w' \<and>
    view c w' = (view c w)(ID e \<mapsto> e') \<and> getOutdatedEntryFields (mr_lib r) e e' = []"
proof -
  from list_law [OF assms(1)] obtain es where es: "ListEntries (client c) w = Some (Inr es, w)"
    "distinct (map ID es)" "view c w = by_id es" by blast
  note run = reconcile_pod_entry_run [OF es(1) assms(2) e0 e]
  show ?thesis
  proof (cases "find (\<lambda>x. ID x = ID e) es")
    case None
    then have "view c w (ID e) = None" unfolding es(3) by_id_None by (auto simp: find_None_iff)
    moreover have "\<not> same_registration x e" if "x \<in> ran (view c w)" for x
      using uniq [OF that] that view_ID [OF assms(1)] \<open>view c w (ID e) = None\<close> by (force simp: ran_def)
    moreover have "ID e \<noteq> []" unfolding e by simp
    ultimately obtain w' where "CreateEntry (client c) e w = Some (None, w')" "good c w'" "view c w' = (view c w)(ID e \<mapsto> e)"
      using create_law [OF assms(1) val] by blast
    then show ?thesis using run None by auto
  next
    case (Some x)
    then have x: "view c w (ID e) = Some x" "ID x = ID e"
      unfolding es(3) by_id_Some [OF es(2)] by (auto simp: find_Some_iff)
    have upd: "e\<lparr>ID := ID x\<rparr> = e" using x(2) by simp
    show ?thesis
    proof (cases "getOutdatedEntryFields (mr_lib r) e x = []")
      case True
      then show ?thesis using run Some assms(1) x(1) by (intro exI [of _ w] exI [of _ x]) auto
    next
      case False
      obtain w' where "UpdateEntry (client c) e w = Some (None, w')" "good c w'" "view c w' = (view c w)(ID e \<mapsto> e)"
        using update_law [OF assms(1) val] x(1) by blast
      then show ?thesis using run Some False upd by auto
    qed
  qed
qed

end

subsection \<open>Hints: lemmas\<close>

lemma rendered_hint:
  assumes "RenderEntry l identity cluster pod node td = Inr e"
  shows "Hint e = (if spec_Hint (wi_Spec identity) = []
    then ''workloadidentity:'' @ wi_Name identity @ '':'' @ ec_Name cluster
    else spec_Hint (wi_Spec identity)) @ '';owner:WorkloadIdentity/'' @ wi_Name identity"
  using RenderEntry_Hint [OF assms] by (simp add: entryHint_def ownerInfo_def)

lemma Split_three:
  "CHR '':'' \<notin> set a \<Longrightarrow> CHR '':'' \<notin> set b \<Longrightarrow> Split (a @ '':'' @ b @ '':'' @ c) (CHR '':'') = a # b # Split c (CHR '':'')"
  by (simp add: Split_append)

lemma entryHasPod_iff: "entryHasPod pod e \<longleftrightarrow> Selector ''k8s'' (''pod-uid:'' @ UID (pod_Meta pod)) \<in> set (Selectors e)"
  unfolding entryHasPod_def list_ex_iff by (metis Selector.collapse Selector.sel)

lemma entryBelongsToIdentity_hint:
  assumes "Hint e = entryHint identity cluster"
  shows "entryBelongsToIdentity e identity \<longleftrightarrow> spec_Hint (wi_Spec identity) = []"
proof (cases "spec_Hint (wi_Spec identity) = []")
  case True
  have "Hint e = [] @ (''workloadidentity:'' @ wi_Name identity @ '':'') @ ec_Name cluster @ '';'' @ ownerInfo (wi_Name identity)"
    using assms True by (simp add: entryHint_def)
  then have "Contains (Hint e) (''workloadidentity:'' @ wi_Name identity @ '':'')" unfolding Contains_iff by blast
  then show ?thesis using True by (simp only: entryBelongsToIdentity_def Let_def if_True refl)
qed (use assms in \<open>simp add: entryHint_def entryBelongsToIdentity_def Let_def\<close>)

lemma entryBelongsToCluster_hint:
  assumes "Hint e = entryHint identity cluster" and "spec_Hint (wi_Spec identity) = []"
    and "CHR '':'' \<notin> set (wi_Name identity)" and "CHR '':'' \<notin> set (ec_Name cluster)" and "CHR '';'' \<notin> set (ec_Name other)"
  shows "\<not> entryBelongsToCluster e other"
proof -
  let ?rest = "wi_Name identity @ '':'' @ (ec_Name cluster @ '';owner'') @ '':'' @ ''WorkloadIdentity/'' @ wi_Name identity"
  have "Hint e = ''workloadidentity:'' @ ?rest" using assms(1,2) by (simp add: entryHint_def ownerInfo_def)
  then have rest: "drop (length ''workloadidentity:'') (Hint e) = ?rest" by (metis append_eq_conv_conj)
  have "Split ?rest (CHR '':'') = wi_Name identity # (ec_Name cluster @ '';owner'') #
      Split (''WorkloadIdentity/'' @ wi_Name identity) (CHR '':'')"
    by (rule Split_three) (use assms(3,4) in auto)
  then have "Split ?rest (CHR '':'') ! 1 = ec_Name cluster @ '';owner''" by (simp only: nth_Cons_Suc nth_Cons_0 One_nat_def)
  moreover have "ec_Name cluster @ '';owner'' \<noteq> ec_Name other" using assms(5) by (metis Un_iff list.set_intros(1) set_append)
  ultimately show ?thesis unfolding entryBelongsToCluster_def Let_def rest by simp
qed

lemma selectM_total: "(\<And>x. x \<in> set xs \<Longrightarrow> f x = Some (g x)) \<Longrightarrow> selectM f xs = Some (filter g xs)"
  by (induction xs) auto

lemma selectM_None: "x \<in> set xs \<Longrightarrow> f x = None \<Longrightarrow> selectM f xs = None"
  by (induction xs) (auto split: bind_splits)

lemma selectM_mem: "selectM f xs = Some ys \<Longrightarrow> y \<in> set ys \<longleftrightarrow> y \<in> set xs \<and> f y = Some True"
  by (induction xs arbitrary: ys) (auto split: bind_splits if_splits)

subsection \<open>Properties\<close>

text \<open>C15: when a pod is deleted, exactly the entries under the prefix that are tied to its UID are
  deleted, unless its namespace is ignored.\<close>

theorem pod_deletion_deletes_its_entries:
  assumes "spire_good c w" and "SPIREClient r = spire_client c"
  shows "\<exists>w'. ReconcileSinglePod r m pod cluster ''delete'' w = Some w' \<and>
    spire_view c w' = (if isNamespaceIgnored r (Namespace (pod_Meta pod)) then spire_view c w
      else without (\<lambda>e. HasPrefix (ID e) (EntryIDPrefix r) \<and>
        Selector ''k8s'' (''pod-uid:'' @ UID (pod_Meta pod)) \<in> set (Selectors e)) (spire_view c w))"
  using spire.delete_where [OF assms, of "\<lambda>e. shouldProcessEntry r e \<and> entryHasPod pod e"]
  unfolding ReconcileSinglePod_def deleteEntriesForPod_def shouldProcessEntry_iff managed_def entryHasPod_iff by auto

text \<open>C13: reconciling one pod for one identity leaves, under the identifier made of the prefix and the key
  of the rendered entry, an entry none of whose compared fields is outdated, and changes no other
  entry, provided no other entry registers the same workload.\<close>

theorem pod_entry_up_to_date:
  assumes "spire_good c w" and "SPIREClient r = spire_client c" and "mr_lib r = fst c"
    and "RenderEntry (mr_lib r) identity cluster pod node (TrustDomain_String (mr_lib r) (TrustDomain r)) = Inr e"
    and "\<And>x. x \<in> ran (spire_view c w) \<Longrightarrow> same_registration x e \<Longrightarrow> ID x = EntryIDPrefix r @ makeEntryKey (mr_lib r) e"
  shows "\<exists>w' e'. reconcilePodEntry r pod node identity cluster w = Some w' \<and> spire_good c w' \<and>
    spire_view c w' = (spire_view c w)(EntryIDPrefix r @ makeEntryKey (mr_lib r) e \<mapsto> e') \<and>
    getOutdatedEntryFields (mr_lib r) e e' = []"
proof -
  let ?e = "e\<lparr>ID := EntryIDPrefix r @ makeEntryKey (mr_lib r) e\<rparr>"
  have "spire_valid c ?e" using RenderEntry_parsed [OF assms(4)] assms(3) by (cases c) simp
  moreover have "ID x = ID ?e" if "x \<in> ran (spire_view c w)" "same_registration x ?e" for x
    using assms(5) [OF that(1)] that(2) by (simp add: same_registration_def)
  moreover have "getOutdatedEntryFields (mr_lib r) ?e e' = getOutdatedEntryFields (mr_lib r) e e'" for e'
    by (simp add: getOutdatedEntryFields_def)
  ultimately show ?thesis using spire.reconcile_pod_entry [OF assms(1,2,4) refl] by auto
qed

text \<open>C37: deleting the entries of an identity removes an entry rendered for it exactly when the identity
  has no hint of its own; with a hint of its own the entry stays, because the rendered hint is that
  hint followed by the owner tag.\<close>

theorem identity_deletion_misses_own_hints:
  assumes "spire_good c w" and "SPIREClient r = spire_client c"
    and "spire_view c w i = Some e" and "Hint e = entryHint identity cluster"
  shows "\<exists>w'. ReconcileWorkloadIdentity r m identity True w = Some w' \<and>
    spire_view c w' i = (if spec_Hint (wi_Spec identity) = [] then None else Some e)"
proof -
  from spire.delete_where [OF assms(1,2), of "\<lambda>e. entryBelongsToIdentity e identity"] obtain w' where
    w': "deleteWhere r (\<lambda>e. entryBelongsToIdentity e identity) w = Some w'"
    "spire_view c w' = without (\<lambda>e. entryBelongsToIdentity e identity) (spire_view c w)" by blast
  then show ?thesis
    using assms(3) entryBelongsToIdentity_hint [OF assms(4)]
    by (simp add: ReconcileWorkloadIdentity_def deleteEntriesForIdentity_def without_def)
qed

text \<open>C36: when a cluster is removed or disabled its connection is dropped, but every entry with the default
  hint stays on the server: the second part of the hint is the cluster name followed by
  \<open>;owner\<close>, which is no cluster's name (names contain neither a colon nor a semicolon).\<close>

theorem removed_cluster_entries_remain:
  assumes "spire_good c w" and "SPIREClient r = spire_client c" and "wf_manager m"
    and "spire_view c w i = Some e" and "Hint e = entryHint identity cl" and "spec_Hint (wi_Spec identity) = []"
    and "CHR '':'' \<notin> set (wi_Name identity)" and "CHR '':'' \<notin> set (ec_Name cl)" and "CHR '';'' \<notin> set (ec_Name cluster)"
  shows "\<exists>m' w'. ReconcileEKSCluster r cluster True (m, w) = Some (m', w') \<and> \<not> IsConnected (ec_Name cluster) m' \<and>
    spire_view c w' i = Some e"
proof -
  from spire.delete_where [OF assms(1,2), of "\<lambda>e. entryBelongsToCluster e cluster"] obtain w' where
    w': "deleteWhere r (\<lambda>e. entryBelongsToCluster e cluster) w = Some w'"
    "spire_view c w' = without (\<lambda>e. entryBelongsToCluster e cluster) (spire_view c w)" by blast
  from conns.remove_law [OF assms(3)] obtain m' where
    m': "RemoveCluster (ec_Name cluster) m = Some m'" "map_of (clusters m') = (map_of (clusters m))(ec_Name cluster := None)" by blast
  have "spire_view c w' i = Some e"
    unfolding w'(2) without_def using assms(4) entryBelongsToCluster_hint [OF assms(5-9)] by simp
  then show ?thesis using w'(1) m' by (simp add: ReconcileEKSCluster_def deleteEntriesForCluster_def IsConnected_def)
qed

text \<open>An identity without a pod selector is matched by every pod event of its namespace, while the full
  reconciliation selects no pod for it, so the entry the event creates is deleted by the next
  full reconciliation.\<close>

theorem nil_pod_selector_differs:
  assumes "nil_selects_nothing (mr_kube r)" and "PodSelector (wi_Spec identity) = None"
    and "spec_Namespace (wi_Spec identity) = Namespace (pod_Meta pod)"
    and "shouldProcessIdentity r identity cluster = Some True"
    and "identity \<in> set (identities_of r w)" and "findMatchingIdentities r w pod cluster = Some matching"
  shows "identity \<in> set matching \<and> getPodsFromInformer r w' conn identity = Inr []"
proof -
  have "identityMatches r pod cluster identity = Some True" using assms(2-4) by (simp add: identityMatches_def)
  then have "identity \<in> set matching"
    using selectM_mem [OF assms(6) [unfolded findMatchingIdentities_def]] assms(5) by blast
  moreover have "List.map_filter (selectPod identity (Some s)) objs = []" if "\<And>ls. \<not> s ls" for s objs
    by (induction objs) (auto simp: map_filter_simps selectPod_def that split: store_obj.splits)
  ultimately show ?thesis using assms(1,2) by (auto simp: nil_selects_nothing_def getPodsFromInformer_def)
qed

text \<open>One identity with an invalid pod selector in the namespace of a pod makes every add or update
  event of that pod panic, because the nil selector returned with the error is used.\<close>

theorem invalid_selector_panics:
  assumes "identity \<in> set (identities_of r w)" and "spec_Namespace (wi_Spec identity) = Namespace (pod_Meta pod)"
    and "shouldProcessIdentity r identity cluster = Some True" and "PodSelector (wi_Spec identity) = Some sel"
    and "LabelSelectorAsSelector (mr_kube r) (Some sel) = Inl err"
    and "\<not> isNamespaceIgnored r (Namespace (pod_Meta pod))" and "action \<noteq> ''delete''"
  shows "ReconcileSinglePod r m pod cluster action w = None"
proof -
  have "identityMatches r pod cluster identity = None" using assms(2-5) by (simp add: identityMatches_def)
  then have "findMatchingIdentities r w pod cluster = None"
    unfolding findMatchingIdentities_def using assms(1) by (rule selectM_None [rotated])
  then show ?thesis using assms(6,7) by (simp add: ReconcileSinglePod_def)
qed


subsection \<open>The properties on a small installation\<close>

definition ref_tagged :: "string \<Rightarrow> (string \<times> string, string) Entry" where
  "ref_tagged hint = (ref_entry ''e'' [Selector ''k8s'' ''pod-uid:u1''])\<lparr>Hint := hint\<rparr>"

definition ref_server :: "string \<Rightarrow> ref_world" where
  "ref_server hint = map (toAPIEntry ref_lib) [ref_tagged hint]"

lemma ref_tagged_simps [simp]:
  "ID (ref_tagged h) = ''e''" "Hint (ref_tagged h) = h" "Selectors (ref_tagged h) = [Selector ''k8s'' ''pod-uid:u1'']"
  by (simp_all add: ref_tagged_def) (simp add: ref_entry_def)

lemma ref_server:
  "spire_good ref_connection (ref_server h)" "spire_view ref_connection (ref_server h) = [''e'' \<mapsto> ref_tagged h]"
proof -
  have "FromString ref_lib ''spiffe://a.org/ns/shop'' = Inr (''a.org'', ''/ns/shop'')"
    "FromString ref_lib ''spiffe://a.org/agent'' = Inr (''a.org'', ''/agent'')" by (simp_all add: ref_library)
  then have p: "list_all (parsed_entry ref_lib) [ref_tagged h]"
    by (auto simp: parsed_entry_def parsed_id_def ref_tagged_def ref_entry_def)
  show "spire_good ref_connection (ref_server h)" unfolding ref_server_def by (rule ref_good [OF p]) simp
  show "spire_view ref_connection (ref_server h) = [''e'' \<mapsto> ref_tagged h]"
    unfolding ref_server_def ref_view [OF p] by simp
qed

definition ref_with :: "WorkloadIdentity \<Rightarrow> (string \<times> string, string, ref_world, unit) MainReconciler" where
  "ref_with identity = (ref_main (Inr ref_node) [])\<lparr>mr_kube := (ref_kube (Inr ref_node))\<lparr>list_identities := \<lambda>w. Inr [identity]\<rparr>\<rparr>"

lemma ref_with_simps [simp]:
  "mr_lib (ref_with i) = ref_lib" "LabelSelectorAsSelector (mr_kube (ref_with i)) = ref_selector"
  "SPIREClient (ref_with i) = spire_client ref_connection" "EntryIDPrefix (ref_with i) = []" "identities_of (ref_with i) w = [i]"
  "IgnoreNamespaces (ref_with i) = [\<lambda>ns. ns = ''kube-system'']" "TrustDomain (ref_with i) = ''a.org''"
  "store_List (mr_kube (ref_with i)) w k = [OtherObj, PodObj (ref_pod ''web'' ''u1'')]"
  by (simp_all add: ref_with_def identities_of_def)

lemma ref_names [simp]:
  "wi_Name (ref_identity n h sels) = n" "ec_Name (ref_cluster n) = n" "spec_Hint (wi_Spec (ref_identity n h sels)) = h"
  "Namespace (pod_Meta (ref_pod n u)) = ''shop''" "UID (pod_Meta (ref_pod n u)) = u"
  "spec_Namespace (wi_Spec (ref_identity n h sels)) = ''shop''" "PodSelector (wi_Spec (ref_identity n h sels)) = None"
  "ClusterSelector (wi_Spec (ref_identity n h sels)) = None"
  by (simp_all add: ref_objects)

theorem pod_deletion_deletes_its_entries_witness:
  "\<exists>w'. ReconcileSinglePod (ref_with ref_app) ref_mgr (ref_pod ''web'' ''u1'') (ref_cluster ''east'') ''delete'' (ref_server []) = Some w' \<and>
     spire_view ref_connection w' ''e'' = None"
  using pod_deletion_deletes_its_entries [OF ref_server(1) [of "[]"] ref_with_simps(3), of ref_app ref_mgr "ref_pod ''web'' ''u1''" "ref_cluster ''east''"]
  by (auto simp: isNamespaceIgnored_def without_def ref_server)

theorem pod_entry_up_to_date_witness:
  "\<exists>e w' e'. reconcilePodEntry (ref_with ref_app) (ref_pod ''web'' ''u1'') ref_node ref_app (ref_cluster ''east'') [] = Some w' \<and>
     spire_view ref_connection w' (makeEntryKey ref_lib e) = Some e' \<and> getOutdatedEntryFields ref_lib e e' = []"
proof -
  have "\<exists>e. RenderEntry (mr_lib (ref_with ref_app)) ref_app (ref_cluster ''east'') (ref_pod ''web'' ''u1'') ref_node
      (TrustDomain_String (mr_lib (ref_with ref_app)) (TrustDomain (ref_with ref_app))) = Inr e"
    by (simp add: RenderEntry_def Let_def ref_app_def ref_objects ref_library defaultParentIDTemplate_def
        defaultParentIDTemplate_text_def mk_TemplateData_def renderOne_def)
  then obtain e where e: "RenderEntry (mr_lib (ref_with ref_app)) ref_app (ref_cluster ''east'') (ref_pod ''web'' ''u1'') ref_node
      (TrustDomain_String (mr_lib (ref_with ref_app)) (TrustDomain (ref_with ref_app))) = Inr e" ..
  have "mr_lib (ref_with ref_app) = fst ref_connection" by (simp add: ref_connection_def)
  from pod_entry_up_to_date [OF ref_connection_good(1) ref_with_simps(3) this e] show ?thesis
    by (auto simp: ref_connection_good)
qed

theorem identity_deletion_misses_own_hints_witness:
  "\<exists>w'. ReconcileWorkloadIdentity (ref_with ref_app) ref_mgr (ref_identity ''app'' ''own'' []) True
      (ref_server (entryHint (ref_identity ''app'' ''own'' []) (ref_cluster ''east''))) = Some w' \<and>
     spire_view ref_connection w' ''e'' = Some (ref_tagged (entryHint (ref_identity ''app'' ''own'' []) (ref_cluster ''east'')))"
  using identity_deletion_misses_own_hints [OF ref_server(1) [of "entryHint (ref_identity ''app'' ''own'' []) (ref_cluster ''east'')"]
      ref_with_simps(3), of "''e''"
      "ref_tagged (entryHint (ref_identity ''app'' ''own'' []) (ref_cluster ''east''))" "ref_identity ''app'' ''own'' []" "ref_cluster ''east''" ref_app ref_mgr]
  by (simp add: ref_server)

theorem removed_cluster_entries_remain_witness:
  "\<exists>m' w'. ReconcileEKSCluster (ref_with ref_app) (ref_cluster ''east'') True
      (ref_mgr, ref_server (entryHint (ref_identity ''app'' [] []) (ref_cluster ''east''))) = Some (m', w') \<and>
     \<not> IsConnected ''east'' m' \<and> spire_view ref_connection w' ''e'' \<noteq> None"
  using removed_cluster_entries_remain [OF ref_server(1) [of "entryHint (ref_identity ''app'' [] []) (ref_cluster ''east'')"]
      ref_with_simps(3) ref_documented(4), of "''e''"
      "ref_tagged (entryHint (ref_identity ''app'' [] []) (ref_cluster ''east''))" "ref_identity ''app'' [] []"
      "ref_cluster ''east''" "ref_cluster ''east''" ref_app]
  by (auto simp: ref_server)

theorem nil_pod_selector_differs_witness:
  "\<exists>matching. findMatchingIdentities (ref_with (ref_identity ''app'' [] [])) [] (ref_pod ''web'' ''u1'') (ref_cluster ''east'') = Some matching \<and>
     ref_identity ''app'' [] [] \<in> set matching \<and>
     getPodsFromInformer (ref_with (ref_identity ''app'' [] [])) [] ref_conn (ref_identity ''app'' [] []) = Inr []"
proof -
  let ?i = "ref_identity ''app'' [] []" and ?p = "ref_pod ''web'' ''u1''" and ?c = "ref_cluster ''east''"
  have n: "nil_selects_nothing (mr_kube (ref_with ?i))" by (simp add: nil_selects_nothing_def ref_selector_def)
  have s: "shouldProcessIdentity (ref_with ?i) ?i ?c = Some True" by (simp add: shouldProcessIdentity_def)
  have m: "findMatchingIdentities (ref_with ?i) [] ?p ?c = Some [?i]"
    by (simp add: findMatchingIdentities_def identityMatches_def s)
  from nil_pod_selector_differs [OF n ref_names(7) _ s _ m] show ?thesis using m by simp
qed

theorem invalid_selector_panics_witness:
  "ReconcileSinglePod (ref_with (ref_app\<lparr>wi_Spec := (wi_Spec ref_app)\<lparr>PodSelector := Some \<lparr>MatchLabels = [],
      MatchExpressions = [\<lparr>lsr_Key = ''app'', lsr_Operator = ''Equals'', lsr_Values = []\<rparr>]\<rparr>\<rparr>\<rparr>)) ref_mgr
      (ref_pod ''web'' ''u1'') (ref_cluster ''east'') ''update'' [] = None"
  by (rule invalid_selector_panics [where sel = "\<lparr>MatchLabels = [],
      MatchExpressions = [\<lparr>lsr_Key = ''app'', lsr_Operator = ''Equals'', lsr_Values = []\<rparr>]\<rparr>"])
    (auto simp: shouldProcessIdentity_def ref_selector_def isNamespaceIgnored_def ref_app_def Let_def)


end
