(* ===== verification/Deletion_Controller.thy ===== *)
theory Deletion_Controller
  imports Targeted_Reconciler Finalizer
begin

text \<open>
  \<open>internal/controller/deletion_controller.go\<close>, \<open>workloadidentity_controller.go\<close> and
  \<open>eksclusterregistry_controller.go\<close>: the finalizer-driven cleanup and the two event controllers
  that call the targeted reconciler. Shown: which entries a deletion removes, that the finalizer
  stays when the entries cannot be listed or deleted, and that the not-found path of the event
  controllers works on an empty object.
\<close>

subsection \<open>The deletion controller\<close>

record ('id, 'td, 'w, 'k) DeletionReconciler =
  dr_kube :: "('w, 'k) kube"
  dr_SPIREClient :: "('id, 'td, 'w) Client"

text \<open>The tests of the two loops of \<open>deleteEntriesForOwner\<close>.\<close>

definition referencesCluster :: "string \<Rightarrow> string \<Rightarrow> bool" where
  "referencesCluster ownerName hint =
     (if Contains hint ('':'' @ ownerName @ '';'') \<or> Contains hint ('':'' @ ownerName) then
        if HasPrefix hint ''workloadidentity:'' then
          (let parts = Split hint (CHR '':'') in
           if length parts \<ge> 3 then
             (let clusterPart = hd (Split (parts ! 2) (CHR '';'')) in clusterPart = ownerName)
           else False)
        else False
      else False)"

definition ownedBy :: "string \<Rightarrow> string \<Rightarrow> string \<Rightarrow> bool" where
  "ownedBy ownerType ownerName hint =
     (if ownerType = ''EKSClusterRegistry'' then referencesCluster ownerName hint
      else Contains hint (''owner:'' @ ownerType @ ''/'' @ ownerName))"

text \<open>The loop that logs failed statuses reads \<open>toDelete[i]\<close>, which is out of range when there are
  more statuses than identifiers.\<close>

definition deleteEntriesForOwner ::
  "('id, 'td, 'w, 'k) DeletionReconciler \<Rightarrow> string \<Rightarrow> string \<Rightarrow> 'w \<Rightarrow> (go_error option \<times> 'w) option" where
  "deleteEntriesForOwner r ownerType ownerName w = do {
     (listed, w) \<leftarrow> ListEntries (dr_SPIREClient r) w;
     case listed of
       Inl err \<Rightarrow> Some (Some (Wrap ''failed to list SPIRE entries'' err), w)
     | Inr entries \<Rightarrow>
         (let toDelete = map ID (filter (\<lambda>entry. ownedBy ownerType ownerName (Hint entry)) entries)
          in if length toDelete > 0 then do {
               ((statuses, err), w) \<leftarrow> BatchDeleteEntries (dr_SPIREClient r) toDelete w;
               case err of
                 Some e \<Rightarrow> Some (Some (Wrap ''failed to delete entries'' e), w)
               | None \<Rightarrow> if list_ex (\<lambda>st. Code st \<noteq> 0) (drop (length toDelete) statuses) then None else Some (None, w) }
             else Some (None, w)) }"

definition drop_cleanup :: "ObjectMeta \<Rightarrow> ObjectMeta" where
  "drop_cleanup meta = meta\<lparr>Finalizers := RemoveFinalizer (Finalizers meta) SPIRECleanupFinalizer\<rparr>"

definition deletion_ReconcileWorkloadIdentity ::
  "('id, 'td, 'w, 'k) DeletionReconciler \<Rightarrow> string \<Rightarrow> 'w \<Rightarrow> (go_error option \<times> 'w) option" where
  "deletion_ReconcileWorkloadIdentity r name w =
     (case get_identity (dr_kube r) w name of
        Inl err \<Rightarrow> Some (if IsNotFound (dr_kube r) err then None else Some err, w)
      | Inr identity \<Rightarrow>
          if \<not> IsZero (DeletionTimestamp (wi_Meta identity)) \<and>
             ContainsFinalizer (Finalizers (wi_Meta identity)) SPIRECleanupFinalizer then do {
            (err, w) \<leftarrow> deleteEntriesForOwner r ''WorkloadIdentity'' (wi_Name identity) w;
            case err of
              Some e \<Rightarrow> Some (Some e, w)
            | None \<Rightarrow> Some (update_identity (dr_kube r) w (identity\<lparr>wi_Meta := drop_cleanup (wi_Meta identity)\<rparr>)) }
          else Some (None, w))"

definition deletion_ReconcileEKSClusterRegistry ::
  "('id, 'td, 'w, 'k) DeletionReconciler \<Rightarrow> string \<Rightarrow> 'w \<Rightarrow> (go_error option \<times> 'w) option" where
  "deletion_ReconcileEKSClusterRegistry r name w =
     (case get_cluster (dr_kube r) w name of
        Inl err \<Rightarrow> Some (if IsNotFound (dr_kube r) err then None else Some err, w)
      | Inr cluster \<Rightarrow>
          if \<not> IsZero (DeletionTimestamp (ec_Meta cluster)) \<and>
             ContainsFinalizer (Finalizers (ec_Meta cluster)) SPIRECleanupFinalizer then do {
            (err, w) \<leftarrow> deleteEntriesForOwner r ''EKSClusterRegistry'' (ec_Name cluster) w;
            case err of
              Some e \<Rightarrow> Some (Some e, w)
            | None \<Rightarrow> Some (update_cluster (dr_kube r) w (cluster\<lparr>ec_Meta := drop_cleanup (ec_Meta cluster)\<rparr>)) }
          else Some (None, w))"

subsection \<open>The event controllers\<close>

text \<open>\<open>mr\<close> is the main reconciler when it and its targeted reconciler are set. On not-found the
  object passed on is the zero value the failed \<open>Get\<close> left.\<close>

definition WorkloadIdentityReconciler_Reconcile ::
  "('w, 'k) kube \<Rightarrow> ('id, 'td, 'w, 'k) MainReconciler option \<Rightarrow> 'k Manager \<Rightarrow> string \<Rightarrow> 'w \<Rightarrow> (go_error option \<times> 'w) option" where
  "WorkloadIdentityReconciler_Reconcile k mr m name w =
     (case get_identity k w name of
        Inl err \<Rightarrow>
          if IsNotFound k err then
            (case mr of
               Some r \<Rightarrow> map_option (Pair None) (ReconcileWorkloadIdentity r m zero_WorkloadIdentity True w)
             | None \<Rightarrow> Some (None, w))
          else Some (Some err, w)
      | Inr identity \<Rightarrow>
          if \<not> IsZero (DeletionTimestamp (wi_Meta identity)) then Some (None, w)
          else (case mr of
                  Some r \<Rightarrow> map_option (Pair None) (ReconcileWorkloadIdentity r m identity False w)
                | None \<Rightarrow> Some (None, w)))"

definition EKSClusterRegistryReconciler_Reconcile ::
  "('w, 'k) kube \<Rightarrow> ('id, 'td, 'w, 'k) MainReconciler option \<Rightarrow> string \<Rightarrow> 'k Manager \<times> 'w \<Rightarrow>
   (go_error option \<times> 'k Manager \<times> 'w) option" where
  "EKSClusterRegistryReconciler_Reconcile k mr name s =
     (case get_cluster k (snd s) name of
        Inl err \<Rightarrow>
          if IsNotFound k err then
            (case mr of
               Some r \<Rightarrow> map_option (Pair None) (ReconcileEKSCluster r zero_EKSClusterRegistry True s)
             | None \<Rightarrow> Some (None, s))
          else Some (Some err, s)
      | Inr cluster \<Rightarrow>
          if \<not> IsZero (DeletionTimestamp (ec_Meta cluster)) then Some (None, s)
          else (case mr of
                  Some r \<Rightarrow> map_option (Pair None) (ReconcileEKSCluster r cluster False s)
                | None \<Rightarrow> Some (None, s)))"


subsection \<open>Owners: lemmas\<close>

lemma ownedBy_identity_hint:
  "ownedBy ''WorkloadIdentity'' n (entryHint identity cluster)" if "wi_Name identity = n @ rest"
proof -
  let ?u = "(if spec_Hint (wi_Spec identity) = [] then ''workloadidentity:'' @ wi_Name identity @ '':'' @ ec_Name cluster
      else spec_Hint (wi_Spec identity)) @ '';''"
  have "entryHint identity cluster = ?u @ (''owner:WorkloadIdentity/'' @ n) @ rest"
    using that by (simp add: entryHint_def ownerInfo_def Let_def)
  then have "Contains (entryHint identity cluster) (''owner:WorkloadIdentity/'' @ n)" unfolding Contains_iff by blast
  then show ?thesis by (simp add: ownedBy_def)
qed

lemma default_hint:
  "spec_Hint (wi_Spec identity) = [] \<Longrightarrow> entryHint identity cluster =
     ''workloadidentity'' @ '':'' @ wi_Name identity @ '':'' @ (ec_Name cluster @ '';owner'') @ '':'' @ ''WorkloadIdentity/'' @ wi_Name identity"
  by (simp add: entryHint_def ownerInfo_def)

lemma Split_default_hint:
  assumes "spec_Hint (wi_Spec identity) = []" and "CHR '':'' \<notin> set (wi_Name identity)" and "CHR '':'' \<notin> set (ec_Name cluster)"
  shows "Split (entryHint identity cluster) (CHR '':'') =
    [''workloadidentity'', wi_Name identity, ec_Name cluster @ '';owner'', ''WorkloadIdentity/'' @ wi_Name identity]"
proof -
  have s: "Split (a @ '':'' @ b) (CHR '':'') = a # Split b (CHR '':'')" if "CHR '':'' \<notin> set a" for a b
    using that by simp
  have "CHR '':'' \<notin> set ''workloadidentity''" "CHR '':'' \<notin> set (ec_Name cluster @ '';owner'')"
    "CHR '':'' \<notin> set (''WorkloadIdentity/'' @ wi_Name identity)" using assms by auto
  then show ?thesis unfolding default_hint [OF assms(1)] using assms(2) by (simp only: s Split_no_sep not_False_eq_True)
qed

lemma referencesCluster_default_hint:
  assumes "spec_Hint (wi_Spec identity) = []" and "CHR '':'' \<notin> set (wi_Name identity)" and "CHR '':'' \<notin> set (ec_Name cluster)"
    and "CHR '';'' \<notin> set (ec_Name cluster)"
  shows "referencesCluster n (entryHint identity cluster) \<longleftrightarrow> n = ec_Name cluster"
proof -
  have hd: "hd (Split (ec_Name cluster @ '';owner'') (CHR '';'')) = ec_Name cluster" using assms(4) by simp
  have "entryHint identity cluster = (''workloadidentity:'' @ wi_Name identity) @ ('':'' @ ec_Name cluster) @ '';'' @ ownerInfo (wi_Name identity)"
    "entryHint identity cluster = ''workloadidentity:'' @ wi_Name identity @ '':'' @ ec_Name cluster @ '';'' @ ownerInfo (wi_Name identity)"
    using assms(1) by (simp_all add: entryHint_def)
  then have "Contains (entryHint identity cluster) ('':'' @ ec_Name cluster)" "HasPrefix (entryHint identity cluster) ''workloadidentity:''"
    unfolding Contains_iff HasPrefix_iff by blast+
  moreover have "Split (entryHint identity cluster) (CHR '':'') ! 2 = ec_Name cluster @ '';owner''"
    "length (Split (entryHint identity cluster) (CHR '':'')) \<ge> 3"
    unfolding Split_default_hint [OF assms(1-3)] by (simp_all add: eval_nat_numeral)
  ultimately show ?thesis unfolding referencesCluster_def Let_def using hd by auto
qed

lemma no_double_colon:
  assumes "spec_Hint (wi_Spec identity) = []" and "CHR '':'' \<notin> set (wi_Name identity)" and "CHR '':'' \<notin> set (ec_Name cluster)"
    and "wi_Name identity \<noteq> []"
  shows "\<not> Contains (entryHint identity cluster) ''workloadidentity::''"
proof
  assume "Contains (entryHint identity cluster) ''workloadidentity::''"
  then obtain u v where "entryHint identity cluster = (u @ ''workloadidentity'') @ CHR '':'' # CHR '':'' # v"
    unfolding Contains_iff by auto
  moreover have "[] \<in> set (Split (a @ CHR '':'' # CHR '':'' # b) (CHR '':''))" for a b by (simp add: Split_append)
  ultimately have "[] \<in> set (Split (entryHint identity cluster) (CHR '':''))" by (simp only:)
  then show False unfolding Split_default_hint [OF assms(1-3)] using assms(4) by simp
qed

context client_contract
begin

lemma delete_for_owner:
  assumes "good c w" and "dr_SPIREClient r = client c"
  shows "\<exists>w'. deleteEntriesForOwner r ownerType ownerName w = Some (None, w') \<and> good c w' \<and>
    view c w' = without (\<lambda>e. ownedBy ownerType ownerName (Hint e)) (view c w)"
proof -
  let ?P = "\<lambda>e. ownedBy ownerType ownerName (Hint e)"
  from list_law [OF assms(1)] obtain es where es: "ListEntries (client c) w = Some (Inr es, w)"
    "distinct (map ID es)" "view c w = by_id es" by blast
  let ?ids = "map ID (filter ?P es)"
  have w: "view c w |` (- set ?ids) = without ?P (view c w)"
    using without_by_id [OF es(2), of ?P] unfolding es(3) by simp
  from batch_delete_law [OF assms(1), of ?ids] obtain sts w' where
    b: "BatchDeleteEntries (client c) ?ids w = Some ((sts, None), w')" "good c w'" "length sts = length ?ids"
    "view c w' = without ?P (view c w)" unfolding w by blast
  show ?thesis
  proof (cases "filter ?P es = []")
    case True
    then have "view c w |` (- set ?ids) = view c w" by (simp add: restrict_map_def)
    then show ?thesis using es(1) assms True w by (simp add: deleteEntriesForOwner_def)
  next
    case False
    then show ?thesis using es(1) assms(2) b by (simp add: deleteEntriesForOwner_def Let_def)
  qed
qed

end

subsection \<open>Properties\<close>

definition deleting :: "ObjectMeta \<Rightarrow> bool" where
  "deleting meta \<longleftrightarrow> \<not> IsZero (DeletionTimestamp meta) \<and> ContainsFinalizer (Finalizers meta) SPIRECleanupFinalizer"

lemma identity_cleanup_run:
  assumes "spire_good c w" and "dr_SPIREClient r = spire_client c"
    and "get_identity (dr_kube r) w name = Inr identity" and "deleting (wi_Meta identity)"
  shows "\<exists>w1. spire_good c w1 \<and>
    spire_view c w1 = without (\<lambda>e. ownedBy ''WorkloadIdentity'' (wi_Name identity) (Hint e)) (spire_view c w) \<and>
    deletion_ReconcileWorkloadIdentity r name w =
      Some (update_identity (dr_kube r) w1 (identity\<lparr>wi_Meta := drop_cleanup (wi_Meta identity)\<rparr>))"
  using spire.delete_for_owner [OF assms(1,2), of "''WorkloadIdentity''" "wi_Name identity"] assms(3,4)
  by (auto simp: deletion_ReconcileWorkloadIdentity_def deleting_def)

text \<open>C16: for an identity that is being deleted and carries the cleanup finalizer, the deletion controller
  first removes from the server every entry rendered for that identity, with or without a hint of
  its own, and then writes the identity back without the finalizer and otherwise unchanged.\<close>

theorem identity_deletion_cleans_up:
  assumes "spire_good c w" and "dr_SPIREClient r = spire_client c"
    and "get_identity (dr_kube r) w name = Inr identity"
    and "\<not> IsZero (DeletionTimestamp (wi_Meta identity))" and "''spire.spiffe.io/cleanup'' \<in> set (Finalizers (wi_Meta identity))"
  shows "\<exists>w1 identity'. deletion_ReconcileWorkloadIdentity r name w = Some (update_identity (dr_kube r) w1 identity') \<and>
    (\<forall>i e. spire_view c w1 i = Some e \<longrightarrow> spire_view c w i = Some e \<and> (\<forall>cl. Hint e \<noteq> entryHint identity cl)) \<and>
    ''spire.spiffe.io/cleanup'' \<notin> set (Finalizers (wi_Meta identity')) \<and>
    identity' = identity\<lparr>wi_Meta := (wi_Meta identity)\<lparr>Finalizers := filter (\<lambda>f. f \<noteq> ''spire.spiffe.io/cleanup'') (Finalizers (wi_Meta identity))\<rparr>\<rparr>"
proof -
  let ?o = "\<lambda>e. ownedBy ''WorkloadIdentity'' (wi_Name identity) (Hint e)"
  have "deleting (wi_Meta identity)"
    using assms(4,5) by (simp add: deleting_def ContainsFinalizer_def SPIRECleanupFinalizer_def)
  from identity_cleanup_run [OF assms(1-3) this] obtain w1 where w1: "spire_view c w1 = without ?o (spire_view c w)"
    "deletion_ReconcileWorkloadIdentity r name w =
      Some (update_identity (dr_kube r) w1 (identity\<lparr>wi_Meta := drop_cleanup (wi_Meta identity)\<rparr>))" by blast
  have "spire_view c w i = Some e \<and> (\<forall>cl. Hint e \<noteq> entryHint identity cl)" if "spire_view c w1 i = Some e" for i e
  proof -
    have "spire_view c w i = Some e" "\<not> ?o e" using that unfolding w1(1) without_def by (auto split: option.splits if_splits)
    then show ?thesis using ownedBy_identity_hint [of identity "wi_Name identity" "[]"] by auto
  qed
  then show ?thesis using w1(2)
    by (intro exI [of _ w1] exI [of _ "identity\<lparr>wi_Meta := drop_cleanup (wi_Meta identity)\<rparr>"])
      (auto simp: drop_cleanup_def RemoveFinalizer_def SPIRECleanupFinalizer_def)
qed

text \<open>C38: deleting an identity also removes the entries of every other identity whose name begins with its
  name, because the owner tag is searched as a substring.\<close>

theorem longer_named_identity_loses_entries:
  assumes "spire_good c w" and "dr_SPIREClient r = spire_client c"
    and "get_identity (dr_kube r) w name = Inr identity" and "deleting (wi_Meta identity)"
    and "wi_Name other = wi_Name identity @ rest" and "spire_view c w i = Some e" and "Hint e = entryHint other cl"
  shows "\<exists>w1 x. deletion_ReconcileWorkloadIdentity r name w = Some (update_identity (dr_kube r) w1 x) \<and> spire_view c w1 i = None"
proof -
  from identity_cleanup_run [OF assms(1-4)] obtain w1 where
    w1: "spire_view c w1 = without (\<lambda>e. ownedBy ''WorkloadIdentity'' (wi_Name identity) (Hint e)) (spire_view c w)"
    "deletion_ReconcileWorkloadIdentity r name w =
      Some (update_identity (dr_kube r) w1 (identity\<lparr>wi_Meta := drop_cleanup (wi_Meta identity)\<rparr>))" by blast
  have "ownedBy ''WorkloadIdentity'' (wi_Name identity) (Hint e)"
    using ownedBy_identity_hint [OF assms(5), of cl] unfolding assms(7) .
  then have "spire_view c w1 i = None" unfolding w1(1) without_def using assms(6) by simp
  with w1(2) show ?thesis by blast
qed

text \<open>Deleting a registry object removes an entry with the default hint exactly when the entry was
  rendered for a cluster of that name (names contain neither a colon nor a semicolon).\<close>

theorem cluster_deletion_exact:
  assumes "spire_good c w" and "dr_SPIREClient r = spire_client c"
    and "get_cluster (dr_kube r) w name = Inr cluster" and "deleting (ec_Meta cluster)"
    and "spire_view c w i = Some e" and "Hint e = entryHint identity cl" and "spec_Hint (wi_Spec identity) = []"
    and "CHR '':'' \<notin> set (wi_Name identity)" and "CHR '':'' \<notin> set (ec_Name cl)" and "CHR '';'' \<notin> set (ec_Name cl)"
  shows "\<exists>w1. spire_view c w1 i = (if ec_Name cl = ec_Name cluster then None else Some e) \<and>
    deletion_ReconcileEKSClusterRegistry r name w =
      Some (update_cluster (dr_kube r) w1 (cluster\<lparr>ec_Meta := drop_cleanup (ec_Meta cluster)\<rparr>))"
proof -
  from spire.delete_for_owner [OF assms(1,2), of "''EKSClusterRegistry''" "ec_Name cluster"] obtain w1 where
    w1: "deleteEntriesForOwner r ''EKSClusterRegistry'' (ec_Name cluster) w = Some (None, w1)"
    "spire_view c w1 = without (\<lambda>e. ownedBy ''EKSClusterRegistry'' (ec_Name cluster) (Hint e)) (spire_view c w)" by blast
  have "ownedBy ''EKSClusterRegistry'' (ec_Name cluster) (Hint e) \<longleftrightarrow> ec_Name cl = ec_Name cluster"
    unfolding assms(6) ownedBy_def using referencesCluster_default_hint [OF assms(7-10), of "ec_Name cluster"] by auto
  then have "spire_view c w1 i = (if ec_Name cl = ec_Name cluster then None else Some e)"
    unfolding w1(2) without_def using assms(5) by simp
  then show ?thesis using w1(1) assms(3,4) by (auto simp: deletion_ReconcileEKSClusterRegistry_def deleting_def)
qed

text \<open>When the entries cannot be listed the controllers report the error and write nothing, so the
  finalizer stays and the deletion is tried again.\<close>

theorem list_error_keeps_finalizer:
  assumes "ListEntries (dr_SPIREClient r) w = Some (Inl err, w1)"
    and "get_identity (dr_kube r) w name = Inr identity" and "deleting (wi_Meta identity)"
    and "get_cluster (dr_kube r) w name' = Inr cluster" and "deleting (ec_Meta cluster)"
  shows "deletion_ReconcileWorkloadIdentity r name w = Some (Some (Wrap ''failed to list SPIRE entries'' err), w1) \<and>
    deletion_ReconcileEKSClusterRegistry r name' w = Some (Some (Wrap ''failed to list SPIRE entries'' err), w1)"
  using assms by (auto simp: deletion_ReconcileWorkloadIdentity_def deletion_ReconcileEKSClusterRegistry_def
      deleteEntriesForOwner_def deleting_def)

text \<open>When an identity is gone the event controller reconciles an empty object in its place: no entry
  with the default hint of an identity that has a name is removed.\<close>

theorem not_found_deletes_nothing:
  assumes "spire_good c w" and "SPIREClient r = spire_client c"
    and "get_identity k w name = Inl err" and "IsNotFound k err"
    and "spire_view c w i = Some e" and "Hint e = entryHint identity cl" and "spec_Hint (wi_Spec identity) = []"
    and "wi_Name identity \<noteq> []" and "CHR '':'' \<notin> set (wi_Name identity)" and "CHR '':'' \<notin> set (ec_Name cl)"
  shows "\<exists>w'. WorkloadIdentityReconciler_Reconcile k (Some r) m name w = Some (None, w') \<and> spire_view c w' i = Some e"
proof -
  let ?P = "\<lambda>e. entryBelongsToIdentity e zero_WorkloadIdentity"
  from spire.delete_where [OF assms(1,2), of ?P] obtain w' where
    w': "deleteWhere r ?P w = Some w'" "spire_view c w' = without ?P (spire_view c w)" by blast
  have "\<not> ?P e"
    using no_double_colon [OF assms(7,9,10,8)] assms(6)
    by (simp add: entryBelongsToIdentity_def zero_WorkloadIdentity_def zero_meta_def)
  then have "spire_view c w' i = Some e" unfolding w'(2) without_def using assms(5) by simp
  then show ?thesis using w'(1) assms(3,4)
    by (simp add: WorkloadIdentityReconciler_Reconcile_def ReconcileWorkloadIdentity_def deleteEntriesForIdentity_def)
qed

subsection \<open>The properties on a small installation\<close>

definition ref_dying_meta :: "string \<Rightarrow> ObjectMeta" where
  "ref_dying_meta n = (ref_meta n ''w1'')\<lparr>DeletionTimestamp := Some 0, Finalizers := [''x'', SPIRECleanupFinalizer]\<rparr>"

definition ref_dying :: "string \<Rightarrow> WorkloadIdentity" where
  "ref_dying n = (ref_identity n [] [])\<lparr>wi_Meta := ref_dying_meta n\<rparr>"

definition ref_dying_cluster :: "string \<Rightarrow> EKSClusterRegistry" where
  "ref_dying_cluster n = (ref_cluster n)\<lparr>ec_Meta := ref_dying_meta n\<rparr>"

definition ref_dr :: "(string \<times> string, string, ref_world, unit) DeletionReconciler" where
  "ref_dr = \<lparr>dr_kube = (ref_kube (Inr ref_node))\<lparr>get_identity := \<lambda>w n. Inr (ref_dying n), get_cluster := \<lambda>w n. Inr (ref_dying_cluster n)\<rparr>,
     dr_SPIREClient = spire_client ref_connection\<rparr>"

lemma ref_dying_simps [simp]:
  "wi_Name (ref_dying n) = n" "deleting (wi_Meta (ref_dying n))" "ec_Name (ref_dying_cluster n) = n" "deleting (ec_Meta (ref_dying_cluster n))"
  "\<not> IsZero (DeletionTimestamp (wi_Meta (ref_dying n)))" "''spire.spiffe.io/cleanup'' \<in> set (Finalizers (wi_Meta (ref_dying n)))"
  "spec_Hint (wi_Spec (ref_dying n)) = []"
  by (simp_all add: ref_dying_def ref_dying_cluster_def ref_dying_meta_def ref_meta_def deleting_def ContainsFinalizer_def
      SPIRECleanupFinalizer_def zero_time_def)

lemma ref_dr_simps [simp]:
  "dr_SPIREClient ref_dr = spire_client ref_connection" "get_identity (dr_kube ref_dr) w n = Inr (ref_dying n)"
  "get_cluster (dr_kube ref_dr) w n = Inr (ref_dying_cluster n)" "update_identity (dr_kube ref_dr) w x = (None, w)"
  "update_cluster (dr_kube ref_dr) w y = (None, w)"
  by (simp_all add: ref_dr_def ref_kube_def)

theorem identity_deletion_cleans_up_witness:
  "\<exists>w1. deletion_ReconcileWorkloadIdentity ref_dr ''app'' (ref_server (entryHint (ref_dying ''app'') (ref_cluster ''east''))) = Some (None, w1) \<and>
     spire_view ref_connection w1 ''e'' = None"
proof -
  let ?h = "entryHint (ref_dying ''app'') (ref_cluster ''east'')"
  from identity_deletion_cleans_up [OF ref_server(1) [of ?h] ref_dr_simps(1,2) ref_dying_simps(5,6)] obtain w1 where
    w1: "deletion_ReconcileWorkloadIdentity ref_dr ''app'' (ref_server ?h) = Some (None, w1)"
    "\<And>i e. spire_view ref_connection w1 i = Some e \<Longrightarrow> spire_view ref_connection (ref_server ?h) i = Some e \<and> Hint e \<noteq> ?h" by fastforce
  have "spire_view ref_connection w1 ''e'' \<noteq> Some e" for e using w1(2) [of "''e''" e] by (auto simp: ref_server)
  with w1(1) show ?thesis by auto
qed

theorem longer_named_identity_loses_entries_witness:
  "\<exists>w1. deletion_ReconcileWorkloadIdentity ref_dr ''app'' (ref_server (entryHint (ref_identity ''app-admin'' [] []) (ref_cluster ''east''))) = Some (None, w1) \<and>
     spire_view ref_connection w1 ''e'' = None"
  using longer_named_identity_loses_entries [OF ref_server(1) [of "entryHint (ref_identity ''app-admin'' [] []) (ref_cluster ''east'')"]
      ref_dr_simps(1,2) ref_dying_simps(2), of "ref_identity ''app-admin'' [] []" "''app''" "''-admin''" "''e''"]
  by (auto simp: ref_server)

theorem cluster_deletion_exact_witness:
  "\<exists>w1. deletion_ReconcileEKSClusterRegistry ref_dr ''east'' (ref_server (entryHint (ref_identity ''app'' [] []) (ref_cluster ''east''))) = Some (None, w1) \<and>
     spire_view ref_connection w1 ''e'' = None"
  using cluster_deletion_exact [OF ref_server(1) [of "entryHint (ref_identity ''app'' [] []) (ref_cluster ''east'')"]
      ref_dr_simps(1,3) ref_dying_simps(4), of "''e''" _ "ref_identity ''app'' [] []" "ref_cluster ''east''" "''east''"]
  by (auto simp: ref_server)

theorem list_error_keeps_finalizer_witness:
  "deletion_ReconcileWorkloadIdentity (ref_dr\<lparr>dr_SPIREClient := (spire_client ref_connection)\<lparr>ListEntries := \<lambda>w. Some (Inl (Errs ''down''), w)\<rparr>\<rparr>) ''app'' [] =
     Some (Some (Wrap ''failed to list SPIRE entries'' (Errs ''down'')), [])"
proof -
  let ?r = "ref_dr\<lparr>dr_SPIREClient := (spire_client ref_connection)\<lparr>ListEntries := \<lambda>w. Some (Inl (Errs ''down''), w)\<rparr>\<rparr>"
  have "ListEntries (dr_SPIREClient ?r) [] = Some (Inl (Errs ''down''), [])" "get_identity (dr_kube ?r) [] ''app'' = Inr (ref_dying ''app'')"
    "get_cluster (dr_kube ?r) [] ''east'' = Inr (ref_dying_cluster ''east'')" by simp_all
  from list_error_keeps_finalizer [OF this(1,2) ref_dying_simps(2) this(3) ref_dying_simps(4)] show ?thesis by blast
qed

theorem not_found_deletes_nothing_witness:
  "\<exists>w'. WorkloadIdentityReconciler_Reconcile (ref_kube (Inr ref_node)) (Some (ref_with ref_app)) ref_mgr ''gone''
      (ref_server (entryHint (ref_identity ''gone'' [] []) (ref_cluster ''east''))) = Some (None, w') \<and>
     spire_view ref_connection w' ''e'' \<noteq> None"
proof -
  have nf: "get_identity (ref_kube (Inr ref_node)) w ''gone'' = Inl (Errs ''not found'')"
    "IsNotFound (ref_kube (Inr ref_node)) (Errs ''not found'')" for w by (simp_all add: ref_kube_def)
  from not_found_deletes_nothing [OF ref_server(1) [of "entryHint (ref_identity ''gone'' [] []) (ref_cluster ''east'')"]
      ref_with_simps(3) nf, of "''e''" _ "ref_identity ''gone'' [] []" "ref_cluster ''east''" ref_app ref_mgr]
  show ?thesis by (auto simp: ref_server)
qed

end
