(* ===== verification/Safety.thy ===== *)
theory Safety
  imports Deletion_Controller
begin

text \<open>
  What no operation of the registrar touches: entries of other tools on the same server, that is
  entries outside the identifier prefix that carry no hint. Every operation that returns leaves
  the server in order and those entries as they were, without any assumption on which entries are
  rendered; \<open>keeping\<close> is the relation between two tables that the operations are shown to respect. And
  when the operations return: always, once connecting to a cluster does and pod selectors are valid.
\<close>

subsection \<open>Foreign entries\<close>

definition foreign :: "('id, 'td, 'w, 'k) MainReconciler \<Rightarrow> ('id, 'td) Entry \<Rightarrow> bool" where
  "foreign r e \<longleftrightarrow> \<not> managed r (ID e) \<and> Hint e = []"

definition keeping ::
  "(('id, 'td) Entry \<Rightarrow> bool) \<Rightarrow> (string \<Rightarrow> ('id, 'td) Entry option) \<Rightarrow> (string \<Rightarrow> ('id, 'td) Entry option) \<Rightarrow> bool" where
  "keeping F v v' \<longleftrightarrow> (\<forall>e. F e \<longrightarrow> v (ID e) = Some e \<longrightarrow> v' (ID e) = Some e)"

text \<open>The server is in order and the foreign entries of table \<open>v\<close> are in it.\<close>

definition intact ::
  "('c \<Rightarrow> 'w \<Rightarrow> bool) \<Rightarrow> ('c \<Rightarrow> 'w \<Rightarrow> string \<Rightarrow> ('id, 'td) Entry option) \<Rightarrow> ('id, 'td, 'w, 'k) MainReconciler \<Rightarrow>
   (string \<Rightarrow> ('id, 'td) Entry option) \<Rightarrow> 'c \<Rightarrow> 'w \<Rightarrow> bool" where
  "intact good view r v c w \<longleftrightarrow> good c w \<and> keeping (foreign r) v (view c w)"

lemma keeping_refl [simp]: "keeping F v v"
  by (simp add: keeping_def)

lemma keeping_without: "keeping F v v' \<Longrightarrow> (\<And>e. F e \<Longrightarrow> \<not> P e) \<Longrightarrow> keeping F v (without P v')"
  by (simp add: keeping_def without_def)

lemma keeping_unmanaged:
  "keeping (foreign r) v v' \<Longrightarrow> (\<And>i. \<not> managed r i \<Longrightarrow> v'' i = v' i) \<Longrightarrow> keeping (foreign r) v v''"
  by (simp add: keeping_def foreign_def)

lemma managed_key [simp]: "managed r (EntryIDPrefix r @ k)"
  by (simp add: managed_def)

lemma Contains_Nil_nonempty: "p \<noteq> [] \<Longrightarrow> \<not> Contains [] p"
  by simp

lemma foreign_not_owned:
  assumes "foreign r e"
  shows "\<not> shouldProcessEntry r e" "\<not> entryBelongsToIdentity e identity" "\<not> entryBelongsToCluster e cluster"
    "\<not> ownedBy t n (Hint e)"
  using assms by (auto simp: foreign_def shouldProcessEntry_iff entryBelongsToIdentity_def entryBelongsToCluster_def
      ownedBy_def referencesCluster_def Let_def)

subsection \<open>Creations and updates of managed entries\<close>

context client_contract
begin

lemma create_any:
  assumes "good c w" and "valid c e" and "ID e \<noteq> []" and "view c w (ID e) = None"
  shows "\<exists>w'. CreateEntry (client c) e w = Some (None, w') \<and> good c w' \<and> (\<forall>i. i \<noteq> ID e \<longrightarrow> view c w' i = view c w i)"
proof (cases "\<exists>x \<in> ran (view c w). same_registration x e")
  case True
  then show ?thesis using create_dup_law [OF assms] by metis
next
  case False
  then show ?thesis using create_law [OF assms] by (metis fun_upd_other)
qed

lemma create_each_any:
  assumes "good c w" and "\<And>e. e \<in> set xs \<Longrightarrow> valid c e \<and> ID e \<noteq> [] \<and> view c w (ID e) = None" and "distinct (map ID xs)"
  shows "\<exists>w'. for_each (\<lambda>e w. map_option snd (CreateEntry (client c) e w)) xs w = Some w' \<and> good c w' \<and>
    (\<forall>i. i \<notin> ID ` set xs \<longrightarrow> view c w' i = view c w i)"
  using assms
proof (induction xs arbitrary: w)
  case (Cons x xs)
  from create_any [OF Cons.prems(1)] Cons.prems(2) [of x] obtain w1 where
    w1: "CreateEntry (client c) x w = Some (None, w1)" "good c w1" "\<forall>i. i \<noteq> ID x \<longrightarrow> view c w1 i = view c w i"
    by auto
  have "valid c e \<and> ID e \<noteq> [] \<and> view c w1 (ID e) = None" if "e \<in> set xs" for e
  proof -
    have "ID e \<noteq> ID x" using that Cons.prems(3) by (metis distinct.simps(2) image_eqI list.set_map list.simps(9))
    then show ?thesis using Cons.prems(2) [of e] that w1(3) by simp
  qed
  from Cons.IH [OF w1(2) this] Cons.prems(3) obtain w' where
    "for_each (\<lambda>e w. map_option snd (CreateEntry (client c) e w)) xs w1 = Some w'" "good c w'"
    "\<forall>i. i \<notin> ID ` set xs \<longrightarrow> view c w' i = view c w1 i" by auto
  then show ?case using w1 by auto
qed simp

lemma apply_entry_changes_any:
  fixes r :: "('id, 'td, 'w, 'k) MainReconciler"
  assumes "good c w" and "SPIREClient r = client c"
    and st: "wf_state (mr_lib r) s" "entryPrefix s = EntryIDPrefix r"
    and vis: "visits (range_declared r w)" "visits (range_current r w)"
    and cur: "map_of (current s) = view c w |` {i. managed r i}"
    and val: "\<And>d. d \<in> ran (map_of (declared s)) \<Longrightarrow> valid c d"
  shows "\<exists>w'. applyEntryChanges r s w = Some w' \<and> good c w' \<and> (\<forall>i. \<not> managed r i \<longrightarrow> view c w' i = view c w i)"
proof -
  let ?ch = "GetChanges (mr_lib r) (range_declared r w) (range_current r w) s"
  note mem = in_changes [OF st(1) vis] and dist = distinct_changes [OF st(1) vis]
  have man: "managed r (ID d)" "ID d \<noteq> []" "d \<in> ran (map_of (declared s))" if "map_of (declared s) (ID d) = Some d" for d
    using wf_state_declared [OF st(1) that] st(2) ranI [of "map_of (declared s)", OF that]
    by (metis managed_def HasPrefix_append append_is_Nil_conv makeEntryKey_nonempty)+
  have cur_i: "map_of (current s) i = (if managed r i then view c w i else None)" for i
    by (simp add: cur restrict_map_def)
  obtain w1 where w1: "for_each (\<lambda>e w. map_option snd (DeleteEntry (client c) (ID e) w)) (deletes ?ch) w = Some w1"
    "good c w1" "view c w1 = view c w |` (- ID ` set (deletes ?ch))"
    using delete_each [OF assms(1), of ID "deletes ?ch"] by blast
  have del: "managed r (ID e)" if "e \<in> set (deletes ?ch)" for e
    using that unfolding mem cur_i by (auto split: if_splits)
  have v1: "view c w1 (ID d) = map_of (current s) (ID d)" if "map_of (declared s) (ID d) = Some d" for d
    unfolding w1(3) cur_i using that man(1) [OF that] by (auto simp: restrict_map_def image_iff mem)
  obtain w2 where w2: "for_each (\<lambda>e w. map_option snd (CreateEntry (client c) e w)) (creates ?ch) w1 = Some w2"
    "good c w2" "\<And>i. i \<notin> ID ` set (creates ?ch) \<Longrightarrow> view c w2 i = view c w1 i"
  proof -
    have "valid c e \<and> ID e \<noteq> [] \<and> view c w1 (ID e) = None" if "e \<in> set (creates ?ch)" for e
      using that man val v1 by (simp add: mem)
    then show thesis using create_each_any [OF w1(2) _ dist(1)] that by blast
  qed
  have cu: "ID e \<notin> ID ` set (creates ?ch)" if "e \<in> set (updates ?ch)" for e
  proof
    assume "ID e \<in> ID ` set (creates ?ch)"
    then have "map_of (current s) (ID e) = None" by (auto simp: mem)
    then show False using that by (simp add: mem)
  qed
  obtain w3 where w3: "for_each (\<lambda>e w. map_option snd (UpdateEntry (client c) e w)) (updates ?ch) w2 = Some w3"
    "good c w3" "view c w3 = view c w2 ++ by_id (updates ?ch)"
  proof -
    have "valid c e \<and> ID e \<in> dom (view c w2)" if "e \<in> set (updates ?ch)" for e
      using that man val v1 w2(3) [OF cu [OF that]] unfolding mem by auto
    then show thesis using update_each [OF w2(2) _ dist(2)] that by blast
  qed
  have "view c w3 i = view c w i" if "\<not> managed r i" for i
  proof -
    have "i \<notin> ID ` set (creates ?ch)" "i \<notin> ID ` set (updates ?ch)" "i \<notin> ID ` set (deletes ?ch)"
      using that man(1) del by (auto simp: mem)
    then show ?thesis unfolding w3(3) map_add_def using w2(3) w1(3) by_id_None [of "updates ?ch" i] by simp
  qed
  moreover have "applyEntryChanges r s w = Some w3"
    using w1(1) w2(1) w3(1) assms(2) by (simp add: applyEntryChanges_def case_prod_beta)
  ultimately show ?thesis using w3(2) by blast
qed

subsection \<open>The full cycle\<close>

lemma reconcile_entries_any:
  fixes r :: "('id, 'td, 'w, 'k) MainReconciler"
  assumes "good c w" and "SPIREClient r = client c" and "selectors_not_nil (mr_kube r)"
    and keep: "status_writes_keep (mr_kube r) (\<lambda>w. (good c w, view c w))"
    and vis: "\<And>w. visits (range_declared r w)" "\<And>w. visits (range_current r w)"
    and es: "distinct (map ID es)" "view c w = by_id es"
    and val: "\<And>e. parsed_entry (mr_lib r) e \<Longrightarrow> valid c e"
  shows "\<exists>w'. reconcileEntries r cls identities es m w = Some w' \<and> good c w' \<and>
    (\<forall>i. \<not> managed r i \<longrightarrow> view c w' i = view c w i)"
proof -
  obtain s where s: "wf_state (mr_lib r) s" "entryPrefix s = EntryIDPrefix r"
    "map_of (current s) = view c w |` {i. managed r i}" "map_of (declared s) = desiredTable r w identities m"
    "reconcileEntries r cls identities es m w =
       Option.bind (applyEntryChanges r s w) (updateStatuses r m identities cls s)"
    by (rule reconcile_entries_state [where r = r and identities = identities and m = m and cls = cls, OF assms(3) es])
  have "valid c d" if "d \<in> ran (map_of (declared s))" for d
    by (rule val, rule desiredTable_parsed) (use that in \<open>simp only: s(4)\<close>)
  from apply_entry_changes_any [OF assms(1,2) s(1,2) vis s(3) this] obtain w1 where
    w1: "applyEntryChanges r s w = Some w1" "good c w1" "\<forall>i. \<not> managed r i \<longrightarrow> view c w1 i = view c w i" by auto
  obtain w2 where "updateStatuses r m identities cls s w1 = Some w2" "(good c w2, view c w2) = (good c w1, view c w1)"
    using updateStatuses_keeps [OF assms(3) keep] by blast
  then show ?thesis using w1 s(5) by simp
qed

text \<open>Once the connections are in line, the rest of the cycle returns.\<close>

lemma reconcile_all_any:
  fixes r :: "('id, 'td, 'w, 'k) MainReconciler"
  assumes "good c w" and "SPIREClient r = client c" and "selectors_not_nil (mr_kube r)"
    and keep: "status_writes_keep (mr_kube r) (\<lambda>w. (good c w, view c w))" "sync_keeps (mr_env r) (\<lambda>w. (good c w, view c w))"
    and vis: "\<And>w. visits (range_declared r w)" "\<And>w. visits (range_current r w)"
    and val: "\<And>e. parsed_entry (mr_lib r) e \<Longrightarrow> valid c e"
    and conn: "case list_clusters (mr_kube r) w of Inl _ \<Rightarrow> (m1, w1) = (m, w) | Inr cls \<Rightarrow> syncConnections r cls (m, w) = Some (m1, w1)"
  shows "\<exists>w'. reconcileAll r (m, w) = Some (m1, w') \<and> good c w' \<and> (\<forall>i. \<not> managed r i \<longrightarrow> view c w' i = view c w i)"
proof (cases "list_clusters (mr_kube r) w")
  case (Inl e)
  then show ?thesis using conn assms(1) by (simp add: reconcileAll_def)
next
  case (Inr cls)
  then have s: "syncConnections r cls (m, w) = Some (m1, w1)" using conn by simp
  have f: "good c w1" "view c w1 = view c w" using syncConnections_keeps [OF keep(2) s] assms(1) by auto
  show ?thesis
  proof (cases "list_identities (mr_kube r) w1")
    case (Inl e)
    then show ?thesis using Inr s f by (simp add: reconcileAll_def)
  next
    case ids: (Inr identities)
    obtain es where es: "ListEntries (client c) w1 = Some (Inr es, w1)" "distinct (map ID es)" "view c w1 = by_id es"
      using list_law [OF f(1)] by blast
    from reconcile_entries_any [OF f(1) assms(2,3) keep(1) vis es(2,3) val] f(2) obtain w' where
      "reconcileEntries r cls identities es m1 w1 = Some w'" "good c w'"
      "\<forall>i. \<not> managed r i \<longrightarrow> view c w' i = view c w i" by metis
    then show ?thesis using Inr s ids es(1) assms(2) by (simp add: reconcileAll_def)
  qed
qed

subsection \<open>The targeted operations\<close>

lemma reconcile_pod_entry_any:
  fixes r :: "('id, 'td, 'w, 'k) MainReconciler"
  assumes "good c w" and "SPIREClient r = client c" and val: "\<And>e. parsed_entry (mr_lib r) e \<Longrightarrow> valid c e"
  shows "\<exists>w'. reconcilePodEntry r pod node identity cluster w = Some w' \<and> good c w' \<and>
    (\<forall>i. \<not> managed r i \<longrightarrow> view c w' i = view c w i)"
proof (cases "RenderEntry (mr_lib r) identity cluster pod node (TrustDomain_String (mr_lib r) (TrustDomain r))")
  case (Inl err)
  then show ?thesis using assms(1) by (simp add: reconcilePodEntry_def)
next
  case (Inr e0)
  define e where "e = e0\<lparr>ID := EntryIDPrefix r @ makeEntryKey (mr_lib r) e0\<rparr>"
  have v: "valid c e" unfolding e_def using RenderEntry_parsed [OF Inr] by (intro val) simp
  have man: "managed r (ID e)" "ID e \<noteq> []" unfolding e_def by simp_all
  have ne: "i \<noteq> ID e" if "\<not> managed r i" for i using that man(1) by auto
  from list_law [OF assms(1)] obtain es where es: "ListEntries (client c) w = Some (Inr es, w)"
    "distinct (map ID es)" "view c w = by_id es" by blast
  note run = reconcile_pod_entry_run [OF es(1) assms(2) Inr e_def]
  show ?thesis
  proof (cases "find (\<lambda>x. ID x = ID e) es")
    case None
    then have "view c w (ID e) = None" unfolding es(3) by_id_None by (auto simp: find_None_iff)
    from create_any [OF assms(1) v man(2) this] obtain w' where
      "CreateEntry (client c) e w = Some (None, w')" "good c w'" "\<forall>i. i \<noteq> ID e \<longrightarrow> view c w' i = view c w i" by blast
    then show ?thesis using run None by (simp add: ne)
  next
    case (Some x)
    then have x: "view c w (ID e) = Some x" "ID x = ID e"
      unfolding es(3) by_id_Some [OF es(2)] by (auto simp: find_Some_iff)
    have upd: "e\<lparr>ID := ID x\<rparr> = e" using x(2) by simp
    obtain w' where "UpdateEntry (client c) e w = Some (None, w')" "good c w'" "view c w' = (view c w)(ID e \<mapsto> e)"
      using update_law [OF assms(1) v] x(1) by blast
    then show ?thesis using run Some upd assms(1) by (simp add: ne)
  qed
qed

lemma delete_where_intact:
  assumes "intact good view r v c w" and "SPIREClient r = client c" and "\<And>e. foreign r e \<Longrightarrow> \<not> P e"
  shows "\<exists>w'. deleteWhere r P w = Some w' \<and> intact good view r v c w'"
  using delete_where [of c w r P] assms keeping_without [of "foreign r" v "view c w" P] unfolding intact_def by auto

lemma pod_entry_intact:
  assumes "intact good view r v c w" and "SPIREClient r = client c" and "\<And>e. parsed_entry (mr_lib r) e \<Longrightarrow> valid c e"
  shows "\<exists>w'. reconcilePodEntry r pod node identity cluster w = Some w' \<and> intact good view r v c w'"
proof -
  have "good c w" using assms(1) by (simp add: intact_def)
  from reconcile_pod_entry_any [OF this assms(2,3)] obtain w' where
    "reconcilePodEntry r pod node identity cluster w = Some w'" "good c w'"
    "\<And>i. \<not> managed r i \<Longrightarrow> view c w' i = view c w i" by metis
  then show ?thesis using assms(1) keeping_unmanaged [of r v "view c w" "view c w'"] by (auto simp: intact_def)
qed

lemma reconcile_pods_intact:
  assumes "intact good view r v c w" and "SPIREClient r = client c" and "\<And>e. parsed_entry (mr_lib r) e \<Longrightarrow> valid c e"
  shows "\<exists>w'. reconcilePods r conn identity cluster pods w = Some w' \<and> intact good view r v c w'"
  unfolding reconcilePods_def
proof (rule for_each_total [where P = "intact good view r v c", OF assms(1)])
  fix pod t assume t: "intact good view r v c t"
  show "\<exists>t'. (if pod_Phase pod \<noteq> ''Running'' \<or> DeletionTimestamp (pod_Meta pod) \<noteq> None \<or> NodeName (pod_Spec pod) = []
      then Some t
      else case nodes_Get (mr_kube r) t (K8sClient conn) (NodeName (pod_Spec pod)) of
             Inl _ \<Rightarrow> Some t | Inr node \<Rightarrow> reconcilePodEntry r pod node identity cluster t) = Some t' \<and>
      intact good view r v c t'"
    using t pod_entry_intact [OF t assms(2,3)] by (auto split: sum.split)
qed

lemma reconcile_pods_intactD:
  assumes "reconcilePods r conn identity cluster pods w = Some w'" and "intact good view r v c w"
    and "SPIREClient r = client c" and "\<And>e. parsed_entry (mr_lib r) e \<Longrightarrow> valid c e"
  shows "intact good view r v c w'"
  using reconcile_pods_intact [OF assms(2-4)] assms(1) by (metis option.inject)

lemma single_pod_intact:
  assumes "intact good view r v c w" and "SPIREClient r = client c" and "\<And>e. parsed_entry (mr_lib r) e \<Longrightarrow> valid c e"
    and "ReconcileSinglePod r m pod cluster action w = Some w'"
  shows "intact good view r v c w'"
proof -
  have del: "intact good view r v c t'" if "deleteEntriesForPod r pod w = Some t'" for t'
    using delete_where_intact [OF assms(1,2), of "\<lambda>e. shouldProcessEntry r e \<and> entryHasPod pod e"] that foreign_not_owned(1)
    by (auto simp: deleteEntriesForPod_def)
  have each: "intact good view r v c t'"
    if "for_each (\<lambda>identity. reconcilePodEntry r pod node identity cluster) identities w = Some t'" for node identities t'
    by (rule for_each_inv [where P = "intact good view r v c", OF that assms(1)]) (metis assms(2,3) option.inject pod_entry_intact)
  show ?thesis
    using assms(1,4) del each unfolding ReconcileSinglePod_def
    by (auto split: if_splits bind_splits option.splits sum.splits)
qed

lemma cleanup_identity_intact:
  assumes "intact good view r v c w" and "SPIREClient r = client c"
    and "cleanupOrphanedEntriesForIdentity r m identity w = Some w'"
  shows "intact good view r v c w'"
proof -
  have g: "good c w" using assms(1) by (simp add: intact_def)
  obtain uids where u: "validUIDsForIdentity r m w identity = Some uids"
    using list_law [OF g] assms(2,3) by (auto simp: cleanupOrphanedEntriesForIdentity_def split: bind_splits)
  let ?P = "\<lambda>e. entryBelongsToIdentity e identity \<and> \<not> hasValidPod uids e"
  have "good c w'" "view c w' = without ?P (view c w)" using cleanup_identity [OF g assms(2) u] assms(3) by auto
  moreover have "keeping (foreign r) v (without ?P (view c w))"
    using assms(1) foreign_not_owned(2) by (intro keeping_without) (auto simp: intact_def)
  ultimately show ?thesis by (simp add: intact_def)
qed

lemma reconcile_identity_intact:
  assumes "intact good view r v c w" and "SPIREClient r = client c" and "\<And>e. parsed_entry (mr_lib r) e \<Longrightarrow> valid c e"
    and "ReconcileWorkloadIdentity r m identity deleted w = Some w'"
  shows "intact good view r v c w'"
proof (cases deleted)
  case True
  then show ?thesis
    using assms(4) delete_where_intact [OF assms(1,2), of "\<lambda>e. entryBelongsToIdentity e identity"] foreign_not_owned(2)
    by (auto simp: ReconcileWorkloadIdentity_def deleteEntriesForIdentity_def)
next
  case False
  with assms(4) obtain cls w1 where
    w1: "for_each (\<lambda>cluster w. case GetClusterConnection (ec_Name cluster) m of
           None \<Rightarrow> Some w
         | Some conn \<Rightarrow> reconcilePods r conn identity cluster (getMatchingPods r w conn identity) w) cls w = Some w1"
    "cleanupOrphanedEntriesForIdentity r m identity w1 = Some w'"
    by (auto simp: ReconcileWorkloadIdentity_def split: bind_splits)
  have "intact good view r v c w1"
    by (rule for_each_inv [where P = "intact good view r v c", OF w1(1) assms(1)])
      (auto split: option.splits dest: reconcile_pods_intactD [OF _ _ assms(2,3)])
  then show ?thesis using cleanup_identity_intact [OF _ assms(2) w1(2)] by blast
qed

lemma cleanup_cluster_intact:
  assumes "intact good view r v c w" and "SPIREClient r = client c"
    and "cleanupOrphanedEntriesForCluster r m cluster w = Some w'"
  shows "intact good view r v c w'"
proof -
  have g: "good c w" using assms(1) by (simp add: intact_def)
  obtain uids where u: "validUIDsForCluster r m w cluster = Some uids"
    using list_law [OF g] assms(2,3) by (auto simp: cleanupOrphanedEntriesForCluster_def split: bind_splits)
  let ?P = "\<lambda>e. entryBelongsToCluster e cluster \<and> \<not> hasValidPod uids e"
  have "good c w'" "view c w' = without ?P (view c w)" using cleanup_cluster [OF g assms(2) u] assms(3) by auto
  moreover have "keeping (foreign r) v (without ?P (view c w))"
    using assms(1) foreign_not_owned(3) by (intro keeping_without) (auto simp: intact_def)
  ultimately show ?thesis by (simp add: intact_def)
qed

lemma reconcile_cluster_intact:
  assumes "intact good view r v c w" and "SPIREClient r = client c" and "\<And>e. parsed_entry (mr_lib r) e \<Longrightarrow> valid c e"
    and keep: "sync_keeps (mr_env r) (\<lambda>w. (good c w, view c w))" and "wf_manager m"
    and run: "ReconcileEKSCluster r cluster deleted (m, w) = Some (m', w')"
  shows "intact good view r v c w' \<and> wf_manager m'"
proof (cases "deleted \<or> \<not> Enabled (ec_Spec cluster)")
  case True
  from delete_where_intact [OF assms(1,2), of "\<lambda>e. entryBelongsToCluster e cluster"] foreign_not_owned(3) obtain w1 where
    "deleteEntriesForCluster r cluster w = Some w1" "intact good view r v c w1"
    by (auto simp: deleteEntriesForCluster_def)
  moreover obtain m1 where "RemoveCluster (ec_Name cluster) m = Some m1" "wf_manager m1"
    using RemoveCluster_shape [OF assms(5)] by blast
  ultimately show ?thesis using run True by (simp add: ReconcileEKSCluster_def)
next
  case False
  with run obtain err m1 w1 where add: "AddOrUpdateCluster (mr_env r) cluster m w = Some (err, m1, w1)"
    by (auto simp: ReconcileEKSCluster_def split: bind_splits)
  have wf: "wf_manager m1" using AddOrUpdateCluster_shape [OF add assms(5)] by blast
  have i1: "intact good view r v c w1" using AddOrUpdateCluster_keeps [OF keep add] assms(1) by (simp add: intact_def)
  have rest: "intact good view r v c w3"
    if "for_each (\<lambda>identity w. reconcilePods r conn identity cluster (getMatchingPods r w conn identity) w) ids w1 = Some w2"
      "cleanupOrphanedEntriesForCluster r m1 cluster w2 = Some w3" for conn ids w2 w3
  proof -
    have "intact good view r v c w2"
      by (rule for_each_inv [where P = "intact good view r v c", OF that(1) i1])
        (auto dest: reconcile_pods_intactD [OF _ _ assms(2,3)])
    then show ?thesis using cleanup_cluster_intact [OF _ assms(2) that(2)] by blast
  qed
  show ?thesis
    using run False add wf i1 rest
    by (auto simp: ReconcileEKSCluster_def split: option.splits bind_splits)
qed

end

subsection \<open>Returning\<close>

text \<open>A description of an EKS cluster holds the cluster and its certificate authority, and an informer
  syncs or is given up.\<close>

definition connecting_returns :: "('w, 'k) cluster_env \<Rightarrow> bool" where
  "connecting_returns env \<longleftrightarrow>
     (\<forall>w region name. case DescribeCluster (cl_aws env) w region name of
        Inl _ \<Rightarrow> True | Inr None \<Rightarrow> False | Inr (Some eks) \<Rightarrow> CertificateAuthority eks \<noteq> None) \<and>
     (\<forall>w i. WaitForCacheSync env w i \<noteq> None)"

lemma GetClusterClient_returns:
  assumes "connecting_returns env"
  shows "\<exists>q clients'. GetClusterClient (cl_aws env) w cluster clients = Some (q, clients')"
proof -
  have "case DescribeCluster (cl_aws env) w (Region (ec_Spec cluster)) (eks_ClusterName (ec_Spec cluster)) of
      Inl _ \<Rightarrow> True | Inr None \<Rightarrow> False | Inr (Some eks) \<Rightarrow> CertificateAuthority eks \<noteq> None"
    using assms by (simp add: connecting_returns_def)
  then show ?thesis
    by (auto simp: GetClusterClient_def createClusterClient_def cluster_kubeconfig_def NewKubeConfigForCluster_def
        split: option.splits sum.splits)
qed

lemma connectCluster_returns:
  assumes "connecting_returns env"
  shows "\<exists>x. connectCluster env cluster m w = Some x"
proof -
  obtain q clients where q: "GetClusterClient (cl_aws env) w cluster (awsClients m) = Some (q, clients)"
    using GetClusterClient_returns [OF assms] by blast
  show ?thesis
  proof (cases q)
    case (Inl err)
    then show ?thesis using q by (simp add: connectCluster_def createClusterConnection_def createK8sClient_def)
  next
    case (Inr k)
    obtain b w' where "WaitForCacheSync env w (createPodInformer k (ec_Name cluster)) = Some (b, w')"
      using assms unfolding connecting_returns_def by (metis not_None_eq surj_pair)
    then show ?thesis using q Inr by (simp add: connectCluster_def createClusterConnection_def createK8sClient_def)
  qed
qed

lemma AddOrUpdateCluster_returns:
  assumes "connecting_returns env" and "wf_manager m"
  obtains err m' w' where "AddOrUpdateCluster env cluster m w = Some (err, m', w')" "wf_manager m'"
proof -
  have "\<exists>x. AddOrUpdateCluster env cluster m w = Some x"
    using connectCluster_returns [OF assms(1)] stopClusterConnection_wf [OF assms(2)]
    by (auto simp: AddOrUpdateCluster_def split: option.split)
  then show thesis using that AddOrUpdateCluster_shape [OF _ assms(2)] by (metis surj_pair)
qed

lemma syncConnections_returns:
  fixes r :: "('id, 'td, 'a, 'b) MainReconciler"
  assumes "connecting_returns (mr_env r)" and "wf_manager m"
  shows "\<exists>m' w'. syncConnections r cls (m, w) = Some (m', w')"
proof -
  have "\<exists>s'. for_each (\<lambda>cluster (m, w). map_option snd (AddOrUpdateCluster (mr_env r) cluster m w)) cls (m, w) = Some s' \<and>
      wf_manager (fst s')"
  proof (rule for_each_total)
    fix cluster and s :: "'b Manager \<times> 'a" assume "wf_manager (fst s)"
    then show "\<exists>t'. (case s of (m, w) \<Rightarrow> map_option snd (AddOrUpdateCluster (mr_env r) cluster m w)) = Some t' \<and> wf_manager (fst t')"
      by (rule AddOrUpdateCluster_returns [OF assms(1), of "fst s" cluster "snd s"]) (auto simp: case_prod_beta)
  qed (simp add: assms(2))
  then obtain m1 w1 where
    m1: "for_each (\<lambda>cluster (m, w). map_option snd (AddOrUpdateCluster (mr_env r) cluster m w)) cls (m, w) = Some (m1, w1)" "wf_manager m1"
    by auto
  have "\<exists>m'. for_each RemoveCluster ns m1 = Some m'" for ns using conns.remove_each [OF m1(2)] by blast
  then have "\<exists>m' w'. Option.bind (for_each RemoveCluster ns m1) (\<lambda>m. Some (m, w1)) = Some (m', w')" for ns by (metis bind.bind_lunit)
  then show ?thesis unfolding syncConnections_def m1(1) by (simp add: Let_def)
qed

lemma selectM_returns: "(\<And>x. x \<in> set xs \<Longrightarrow> \<exists>b. f x = Some b) \<Longrightarrow> \<exists>ys. selectM f xs = Some ys"
  by (induction xs) fastforce+

lemma matching_total:
  assumes "selectors_not_nil (mr_kube r)"
  shows "\<exists>cls. findMatchingClusters r w identity = Some cls" "\<exists>ids. findIdentitiesForCluster r w cluster = Some ids"
    "\<exists>u. validUIDsForIdentity r m w identity = Some u" "\<exists>u. validUIDsForCluster r m w cluster = Some u"
proof -
  show a: "\<exists>cls. findMatchingClusters r w identity = Some cls" "\<exists>ids. findIdentitiesForCluster r w cluster = Some ids"
    unfolding findMatchingClusters_def findIdentitiesForCluster_def
    by (rule selectM_returns, auto simp: shouldProcessIdentity_total [OF assms])+
  then show "\<exists>u. validUIDsForIdentity r m w identity = Some u" "\<exists>u. validUIDsForCluster r m w cluster = Some u"
    by (auto simp: validUIDsForIdentity_def validUIDsForCluster_def split: option.split)
qed

context client_contract
begin

lemma identity_returns:
  assumes "intact good view r v c w" and "SPIREClient r = client c" and "\<And>e. parsed_entry (mr_lib r) e \<Longrightarrow> valid c e"
    and "selectors_not_nil (mr_kube r)"
  shows "\<exists>w'. ReconcileWorkloadIdentity r m identity deleted w = Some w'"
proof (cases deleted)
  case True
  have "good c w" using assms(1) by (simp add: intact_def)
  then show ?thesis using True delete_where [OF _ assms(2)] by (simp add: ReconcileWorkloadIdentity_def deleteEntriesForIdentity_def) blast
next
  case False
  obtain cls where cls: "findMatchingClusters r w identity = Some cls" using matching_total(1) [OF assms(4)] by blast
  have step: "\<exists>t'. (case GetClusterConnection (ec_Name cluster) m of
           None \<Rightarrow> Some t
         | Some conn \<Rightarrow> reconcilePods r conn identity cluster (getMatchingPods r t conn identity) t) = Some t' \<and>
      intact good view r v c t'" if "intact good view r v c t" for cluster t
    using reconcile_pods_intact [OF that assms(2,3)] that by (auto split: option.split)
  have "\<exists>w1. for_each (\<lambda>cluster w. case GetClusterConnection (ec_Name cluster) m of
           None \<Rightarrow> Some w
         | Some conn \<Rightarrow> reconcilePods r conn identity cluster (getMatchingPods r w conn identity) w) cls w = Some w1 \<and>
      intact good view r v c w1"
    by (rule for_each_total [where P = "intact good view r v c", OF assms(1)]) (rule step)
  then obtain w1 where w1: "for_each (\<lambda>cluster w. case GetClusterConnection (ec_Name cluster) m of
           None \<Rightarrow> Some w
         | Some conn \<Rightarrow> reconcilePods r conn identity cluster (getMatchingPods r w conn identity) w) cls w = Some w1"
      "intact good view r v c w1" by blast
  have "good c w1" using w1(2) by (simp add: intact_def)
  moreover obtain u where "validUIDsForIdentity r m w1 identity = Some u" using matching_total(3) [OF assms(4)] by blast
  ultimately have "\<exists>w'. cleanupOrphanedEntriesForIdentity r m identity w1 = Some w'" using cleanup_identity [OF _ assms(2)] by blast
  then show ?thesis using False cls w1(1) by (auto simp: ReconcileWorkloadIdentity_def)
qed

lemma cluster_returns:
  assumes "intact good view r v c w" and "SPIREClient r = client c" and "\<And>e. parsed_entry (mr_lib r) e \<Longrightarrow> valid c e"
    and "selectors_not_nil (mr_kube r)" and keep: "sync_keeps (mr_env r) (\<lambda>w. (good c w, view c w))"
    and "wf_manager m" and "connecting_returns (mr_env r)"
  shows "\<exists>x. ReconcileEKSCluster r cluster deleted (m, w) = Some x"
proof (cases "deleted \<or> \<not> Enabled (ec_Spec cluster)")
  case True
  have "good c w" using assms(1) by (simp add: intact_def)
  from delete_where [OF this assms(2), of "\<lambda>e. entryBelongsToCluster e cluster"] conns.remove_law [OF assms(6), of "ec_Name cluster"]
  show ?thesis using True by (auto simp: ReconcileEKSCluster_def deleteEntriesForCluster_def)
next
  case False
  obtain err m1 w1 where add: "AddOrUpdateCluster (mr_env r) cluster m w = Some (err, m1, w1)"
    using AddOrUpdateCluster_returns [OF assms(7,6)] by blast
  have i1: "intact good view r v c w1" using AddOrUpdateCluster_keeps [OF keep add] assms(1) by (simp add: intact_def)
  obtain ids where ids: "findIdentitiesForCluster r w1 cluster = Some ids" using matching_total(2) [OF assms(4)] by blast
  have rest: "\<exists>w2 w3. for_each (\<lambda>identity w. reconcilePods r conn identity cluster (getMatchingPods r w conn identity) w) ids w1 = Some w2 \<and>
      cleanupOrphanedEntriesForCluster r m1 cluster w2 = Some w3" for conn
  proof -
    have "\<exists>w2. for_each (\<lambda>identity w. reconcilePods r conn identity cluster (getMatchingPods r w conn identity) w) ids w1 = Some w2 \<and>
        intact good view r v c w2"
      by (rule for_each_total [where P = "intact good view r v c", OF i1]) (rule reconcile_pods_intact [OF _ assms(2,3)])
    then obtain w2 where w2: "for_each (\<lambda>identity w. reconcilePods r conn identity cluster (getMatchingPods r w conn identity) w) ids w1 = Some w2"
      "good c w2" by (auto simp: intact_def)
    obtain u where "validUIDsForCluster r m1 w2 cluster = Some u" using matching_total(4) [OF assms(4)] by blast
    from cleanup_cluster [OF w2(2) assms(2) this] w2(1) show ?thesis by blast
  qed
  show ?thesis
  proof (cases "err = None \<and> GetClusterConnection (ec_Name cluster) m1 \<noteq> None")
    case True
    then obtain conn where "GetClusterConnection (ec_Name cluster) m1 = Some conn" by blast
    then show ?thesis using rest [of conn] False add ids True by (auto simp: ReconcileEKSCluster_def)
  next
    case conn: False
    then show ?thesis using False add by (auto simp: ReconcileEKSCluster_def split: option.split)
  qed
qed

lemma single_pod_returns:
  assumes "intact good view r v c w" and "SPIREClient r = client c" and "\<And>e. parsed_entry (mr_lib r) e \<Longrightarrow> valid c e"
    and "selectors_not_nil (mr_kube r)"
    and sel: "\<And>i. i \<in> set (identities_of r w) \<Longrightarrow> \<exists>x. LabelSelectorAsSelector (mr_kube r) (PodSelector (wi_Spec i)) = Inr x"
  shows "\<exists>w'. ReconcileSinglePod r m pod cluster action w = Some w'"
proof -
  have g: "good c w" using assms(1) by (simp add: intact_def)
  have "\<exists>b. identityMatches r pod cluster i = Some b" if "i \<in> set (identities_of r w)" for i
    using sel [OF that] assms(4) shouldProcessIdentity_total [OF assms(4)]
    by (auto simp: identityMatches_def selectors_not_nil_def split: option.split sum.split)
  then obtain ids where "findMatchingIdentities r w pod cluster = Some ids"
    using selectM_returns unfolding findMatchingIdentities_def by blast
  moreover have "\<exists>w'. deleteEntriesForPod r pod w = Some w'"
    using delete_where [OF g assms(2)] unfolding deleteEntriesForPod_def by blast
  moreover have "\<exists>w'. for_each (\<lambda>identity. reconcilePodEntry r pod node identity cluster) ids w = Some w' \<and> intact good view r v c w'" for node
    by (rule for_each_total [where P = "intact good view r v c", OF assms(1)]) (rule pod_entry_intact [OF _ assms(2,3)])
  ultimately show ?thesis by (fastforce simp: ReconcileSinglePod_def split: option.split sum.split)
qed

end

end
