(* ===== verification/Trigger_Loop.thy ===== *)
theory Trigger_Loop
  imports Go_Time
begin

text \<open>
  \<open>internal/reconciler/reconciler.go\<close>: the loop that runs the full reconciliation on a timer and on
  demand, as a step relation between the goroutine of \<open>Run\<close>, the callers of \<open>Trigger\<close>, the
  ticker and the context. The trigger channel is unbuffered and the send does not block, so a
  trigger is received exactly when \<open>Run\<close> waits in its select; a ticker keeps at most one tick.
  Shown: what a trigger does in each phase, that a trigger outside the waiting phase has no
  effect on anything that follows, and a bound on the number of reconciliations.
\<close>

subsection \<open>State\<close>

record config =
  Kind :: string
  cfg_GCInterval :: duration

text \<open>\<open>Starting\<close>: a signal was received and \<open>reconcile\<close> is entered; \<open>Running\<close>: the reconcile function
  is running.\<close>

datatype phase = NotStarted | Waiting | Starting | Running | Stopped

record reconciler =
  rc_config :: config
  triggered :: bool
  phase :: phase
  tick :: bool
  cancelled :: bool
  reconcileCount :: nat

definition New :: "config \<Rightarrow> reconciler" where
  "New cfg =
     \<lparr>rc_config = (if cfg_GCInterval cfg = 0 then cfg\<lparr>cfg_GCInterval := 10 * Minute\<rparr> else cfg),
      triggered = False, phase = NotStarted, tick = False, cancelled = False, reconcileCount = 0\<rparr>"

text \<open>\<open>Trigger\<close>, with whether the signal was received: the flag is set, then the send is tried.\<close>

definition Trigger :: "reconciler \<Rightarrow> bool \<times> reconciler" where
  "Trigger r =
     (let r = r\<lparr>triggered := True\<rparr>
      in if phase r = Waiting then (True, r\<lparr>phase := Starting, reconcileCount := Suc (reconcileCount r)\<rparr>)
         else (False, r))"

text \<open>The start of \<open>Run\<close>: \<open>time.NewTicker\<close> panics on an interval that is not positive.\<close>

definition Run_start :: "reconciler \<Rightarrow> reconciler option" where
  "Run_start r = (if cfg_GCInterval (rc_config r) > 0 then Some (r\<lparr>phase := Waiting\<rparr>) else None)"

definition reconcile_begin :: "reconciler \<Rightarrow> reconciler" where
  "reconcile_begin r = r\<lparr>triggered := False, phase := Running\<rparr>"

subsection \<open>Steps\<close>

datatype event = Start | Triggered bool | Tick | Receive_tick | Begin | Finish | Cancel | Stop

inductive step :: "reconciler \<Rightarrow> event \<Rightarrow> reconciler \<Rightarrow> bool" where
  step_start: "phase r = NotStarted \<Longrightarrow> Run_start r = Some r' \<Longrightarrow> step r Start r'"
| step_trigger: "Trigger r = (b, r') \<Longrightarrow> step r (Triggered b) r'"
| step_tick: "phase r \<noteq> NotStarted \<Longrightarrow> step r Tick (r\<lparr>tick := True\<rparr>)"
| step_receive: "phase r = Waiting \<Longrightarrow> tick r \<Longrightarrow>
    step r Receive_tick (r\<lparr>tick := False, phase := Starting, reconcileCount := Suc (reconcileCount r)\<rparr>)"
| step_begin: "phase r = Starting \<Longrightarrow> step r Begin (reconcile_begin r)"
| step_finish: "phase r = Running \<Longrightarrow> step r Finish (r\<lparr>phase := Waiting\<rparr>)"
| step_cancel: "step r Cancel (r\<lparr>cancelled := True\<rparr>)"
| step_stop: "phase r = Waiting \<Longrightarrow> cancelled r \<Longrightarrow> step r Stop (r\<lparr>phase := Stopped\<rparr>)"

inductive run :: "reconciler \<Rightarrow> event list \<Rightarrow> reconciler \<Rightarrow> bool" where
  run_nil: "run r [] r"
| run_snoc: "run r es r' \<Longrightarrow> step r' e r'' \<Longrightarrow> run r (es @ [e]) r''"

inductive_cases step_cases: "step r e r'"
inductive_simps step_trigger_iff: "step r (Triggered b) r'"

lemma Trigger_fields:
  "Trigger r = (b, r') \<Longrightarrow> b = (phase r = Waiting) \<and> triggered r' \<and> tick r' = tick r \<and> cancelled r' = cancelled r \<and>
     rc_config r' = rc_config r \<and> phase r' = (if b then Starting else phase r) \<and>
     reconcileCount r' = (if b then Suc (reconcileCount r) else reconcileCount r)"
  by (auto simp: Trigger_def Let_def split: if_splits)

subsection \<open>The flag is not read\<close>

text \<open>Two states that differ at most in \<open>triggered\<close>.\<close>

definition same_but_flag :: "reconciler \<Rightarrow> reconciler \<Rightarrow> bool" where
  "same_but_flag a b \<longleftrightarrow> a\<lparr>triggered := False\<rparr> = b\<lparr>triggered := False\<rparr>"

lemma same_but_flag_iff:
  "same_but_flag a b \<longleftrightarrow> rc_config a = rc_config b \<and> phase a = phase b \<and> tick a = tick b \<and>
     cancelled a = cancelled b \<and> reconcileCount a = reconcileCount b"
  unfolding same_but_flag_def by (cases a; cases b) auto

lemma step_flag:
  assumes "step a e a'" and "same_but_flag a b"
  shows "\<exists>b'. step b e b' \<and> same_but_flag a' b'"
  using assms
proof (cases rule: step.cases)
  case step_start
  then show ?thesis
    using assms(2) by (intro exI [of _ "b\<lparr>phase := Waiting\<rparr>"])
      (auto simp: same_but_flag_iff Run_start_def step.simps split: if_splits)
next
  case (step_trigger s)
  obtain s' b' where "Trigger b = (s', b')" by force
  with step_trigger Trigger_fields [OF step_trigger(2)] Trigger_fields [OF this] show ?thesis
    using assms(2) by (intro exI [of _ b']) (auto simp: same_but_flag_iff step_trigger_iff)
next
  case step_tick
  then show ?thesis using assms(2)
    by (intro exI [of _ "b\<lparr>tick := True\<rparr>"]) (auto simp: same_but_flag_iff intro: step.step_tick)
next
  case step_receive
  then show ?thesis using assms(2)
    by (intro exI [of _ "b\<lparr>tick := False, phase := Starting, reconcileCount := Suc (reconcileCount b)\<rparr>"])
      (auto simp: same_but_flag_iff intro: step.step_receive)
next
  case step_begin
  then show ?thesis using assms(2)
    by (intro exI [of _ "reconcile_begin b"]) (auto simp: same_but_flag_iff reconcile_begin_def step.simps)
next
  case step_finish
  then show ?thesis using assms(2)
    by (intro exI [of _ "b\<lparr>phase := Waiting\<rparr>"]) (auto simp: same_but_flag_iff intro: step.step_finish)
next
  case step_cancel
  then show ?thesis using assms(2)
    by (intro exI [of _ "b\<lparr>cancelled := True\<rparr>"]) (auto simp: same_but_flag_iff intro: step.step_cancel)
next
  case step_stop
  then show ?thesis using assms(2)
    by (intro exI [of _ "b\<lparr>phase := Stopped\<rparr>"]) (auto simp: same_but_flag_iff intro: step.step_stop)
qed

lemma run_flag: "run a es a' \<Longrightarrow> same_but_flag a b \<Longrightarrow> \<exists>b'. run b es b' \<and> same_but_flag a' b'"
proof (induction rule: run.induct)
  case (run_nil r)
  then show ?case using run.run_nil by blast
next
  case (run_snoc r es r' e r'')
  then show ?case using step_flag run.run_snoc by blast
qed

subsection \<open>Counting\<close>

definition signals :: "event list \<Rightarrow> nat" where
  "signals es = length (filter (\<lambda>e. e = Triggered True \<or> e = Tick) es)"

lemma signals_snoc [simp]: "signals (es @ [e]) = signals es + (if e = Triggered True \<or> e = Tick then 1 else 0)"
  by (simp add: signals_def)

lemma run_count:
  assumes "run r es r'"
  shows "reconcileCount r' + (if tick r' then 1 else 0) \<le> reconcileCount r + (if tick r then 1 else 0) + signals es"
  using assms
proof (induction rule: run.induct)
  case (run_snoc r es r' e r'')
  have "reconcileCount r'' + (if tick r'' then 1 else 0) \<le>
      reconcileCount r' + (if tick r' then 1 else 0) + (if e = Triggered True \<or> e = Tick then 1 else 0)"
    using run_snoc.hyps(2)
    by (cases rule: step_cases) (auto simp: Run_start_def reconcile_begin_def split: if_splits dest!: Trigger_fields)
  then show ?case using run_snoc.IH by simp
qed (simp add: signals_def)

subsection \<open>Properties\<close>

text \<open>C34: a trigger starts a reconciliation exactly when the loop is waiting; at any other time (before
  \<open>Run\<close>, during a reconciliation) it is lost: every later run of events is possible with the same
  results, up to the flag \<open>triggered\<close>, as if it had not happened.\<close>

theorem trigger_lost_unless_waiting:
  assumes "Trigger r = (received, r')"
  shows "received = (phase r = Waiting) \<and>
    (if received then phase r' = Starting \<and> reconcileCount r' = Suc (reconcileCount r)
     else \<forall>es. {(phase x, tick x, cancelled x, reconcileCount x) |x. run r' es x} =
               {(phase x, tick x, cancelled x, reconcileCount x) |x. run r es x})"
proof -
  note f = Trigger_fields [OF assms]
  have "{(phase x, tick x, cancelled x, reconcileCount x) |x. run a es x} \<subseteq>
      {(phase x, tick x, cancelled x, reconcileCount x) |x. run b es x}" if "same_but_flag a b" for a b es
    using run_flag [OF _ that, of es] by (fastforce simp: same_but_flag_iff)
  moreover have "same_but_flag r r' \<and> same_but_flag r' r" if "\<not> received" using that f by (auto simp: same_but_flag_iff)
  ultimately show ?thesis using f by (auto simp: set_eq_subset)
qed

theorem trigger_lost_unless_waiting_witness:
  "\<exists>r'. Trigger (New \<lparr>Kind = ''main'', cfg_GCInterval = 0\<rparr>) = (False, r') \<and>
     {(phase x, tick x, cancelled x, reconcileCount x) |x. run r' [] x} =
     {(phase x, tick x, cancelled x, reconcileCount x) |x. run (New \<lparr>Kind = ''main'', cfg_GCInterval = 0\<rparr>) [] x}"
proof -
  obtain b r' where t: "Trigger (New \<lparr>Kind = ''main'', cfg_GCInterval = 0\<rparr>) = (b, r')" by force
  moreover have "\<not> b" using t by (auto simp: Trigger_def New_def Let_def)
  ultimately show ?thesis using trigger_lost_unless_waiting [OF t] by auto
qed

text \<open>C35: from a new reconciler, whatever happens, the number of reconciliations is at most the number of
  received triggers and ticks; in particular the trigger sent before the loop runs never leads to
  one, and the first reconciliation waits for the first tick.\<close>

theorem reconciliations_bounded:
  assumes "run (New cfg) es r"
  shows "reconcileCount r \<le> length (filter (\<lambda>e. e = Triggered True \<or> e = Tick) es)"
  using run_count [OF assms] by (simp add: New_def signals_def split: if_splits)

theorem reconciliations_bounded_witness:
  "\<exists>r. run (New \<lparr>Kind = ''main'', cfg_GCInterval = 0\<rparr>) [Triggered False, Start] r \<and> reconcileCount r = 0"
proof -
  let ?n = "New \<lparr>Kind = ''main'', cfg_GCInterval = 0\<rparr>"
  have "step ?n (Triggered False) (?n\<lparr>triggered := True\<rparr>)" by (simp add: step_trigger_iff Trigger_def New_def Let_def)
  then have "run ?n [Triggered False] (?n\<lparr>triggered := True\<rparr>)" using run_snoc [OF run_nil] by fastforce
  moreover have "step (?n\<lparr>triggered := True\<rparr>) Start (?n\<lparr>triggered := True, phase := Waiting\<rparr>)"
    by (rule step_start) (simp_all add: New_def Run_start_def Minute_def Second_def)
  ultimately have r: "run ?n [Triggered False, Start] (?n\<lparr>triggered := True, phase := Waiting\<rparr>)"
    using run_snoc by fastforce
  from reconciliations_bounded [OF r] r show ?thesis by auto
qed

text \<open>The loop can be started exactly when the configured interval is not negative, and runs every ten
  minutes when it is zero.\<close>

theorem run_start_total_iff:
  "(Run_start (New cfg) \<noteq> None \<longleftrightarrow> cfg_GCInterval cfg \<ge> 0) \<and>
   cfg_GCInterval (rc_config (New cfg)) = (if cfg_GCInterval cfg = 0 then 600 * Second else cfg_GCInterval cfg)"
  by (auto simp: Run_start_def New_def Minute_def Second_def)

end
