(* ===== verification/System.thy ===== *)
theory System
  imports Safety Trigger_Loop
begin

text \<open>
  The components together: what \<open>main\<close> starts and the handlers that then run on the shared state,
  the manager of the connections, the shared loop and the world outside, among it the SPIRE server.
  A handler is one step; between the steps the world changes as \<open>others\<close> allows. Shown: in every
  reachable state the manager's invariant holds, the server is in order and the entries of other
  tools are untouched, and from every reachable state a full cycle returns.
\<close>

subsection \<open>Starting\<close>

text \<open>\<open>MainReconciler.SetupWithManager\<close>: the first trigger is sent before the loop runs.\<close>

definition SetupWithManager :: "duration \<Rightarrow> 'k Manager \<Rightarrow> 'k Manager \<times> reconciler" where
  "SetupWithManager gcInterval m =
     (SetPodReconciler m, snd (Trigger (New \<lparr>Kind = ''main'', cfg_GCInterval = gcInterval\<rparr>)))"

text \<open>\<open>main\<close> from the creation of the cluster manager to the start of the controllers; an error exits.\<close>

definition main_start :: "duration \<Rightarrow> go_error option \<Rightarrow> go_error + 'k Manager \<times> reconciler" where
  "main_start gcInterval sessionErr =
     ebind (wrap ''unable to create cluster manager'' (NewManager True sessionErr))
       (\<lambda>m. Inr (SetupWithManager gcInterval m))"

subsection \<open>Steps\<close>

record ('w, 'k) system =
  loop :: reconciler
  manager :: "'k Manager"
  world :: 'w

inductive sys_step ::
  "('id, 'td, 'w, 'k) MainReconciler \<Rightarrow> ('id, 'td, 'w, 'k) DeletionReconciler \<Rightarrow> ('w \<Rightarrow> 'w \<Rightarrow> bool) \<Rightarrow>
   ('w, 'k) system \<Rightarrow> ('w, 'k) system \<Rightarrow> bool" for r dr others where
  sys_loop: "step (loop s) e l \<Longrightarrow> e \<noteq> Begin \<Longrightarrow> sys_step r dr others s (s\<lparr>loop := l\<rparr>)"
| sys_cycle: "step (loop s) Begin l \<Longrightarrow> reconcileAll r (manager s, world s) = Some (m, w) \<Longrightarrow>
    sys_step r dr others s \<lparr>loop = l, manager = m, world = w\<rparr>"
| sys_pod: "handlePodChange action obj name (manager s) = ReconcilePod pod cluster a \<Longrightarrow>
    ReconcileSinglePod r (manager s) pod cluster a (world s) = Some w \<Longrightarrow> sys_step r dr others s (s\<lparr>world := w\<rparr>)"
| sys_pod_trigger: "handlePodChange action obj name (manager s) = TriggerAll \<Longrightarrow> Trigger (loop s) = (b, l) \<Longrightarrow>
    sys_step r dr others s (s\<lparr>loop := l\<rparr>)"
| sys_identity: "WorkloadIdentityReconciler_Reconcile (mr_kube r) (Some r) (manager s) name (world s) = Some (err, w) \<Longrightarrow>
    sys_step r dr others s (s\<lparr>world := w\<rparr>)"
| sys_cluster: "EKSClusterRegistryReconciler_Reconcile (mr_kube r) (Some r) name (manager s, world s) = Some (err, m, w) \<Longrightarrow>
    sys_step r dr others s (s\<lparr>manager := m, world := w\<rparr>)"
| sys_delete_identity: "deletion_ReconcileWorkloadIdentity dr name (world s) = Some (err, w) \<Longrightarrow>
    sys_step r dr others s (s\<lparr>world := w\<rparr>)"
| sys_delete_cluster: "deletion_ReconcileEKSClusterRegistry dr name (world s) = Some (err, w) \<Longrightarrow>
    sys_step r dr others s (s\<lparr>world := w\<rparr>)"
| sys_cleanup: "sys_step r dr others s (s\<lparr>manager := cleanup_tick now (manager s)\<rparr>)"
| sys_others: "others (world s) w \<Longrightarrow> sys_step r dr others s (s\<lparr>world := w\<rparr>)"

inductive reachable ::
  "('id, 'td, 'w, 'k) MainReconciler \<Rightarrow> ('id, 'td, 'w, 'k) DeletionReconciler \<Rightarrow> ('w \<Rightarrow> 'w \<Rightarrow> bool) \<Rightarrow> 'w \<Rightarrow>
   ('w, 'k) system \<Rightarrow> bool" for r dr others w where
  reach_start: "main_start (GCInterval r) None = Inr (m, l) \<Longrightarrow> reachable r dr others w \<lparr>loop = l, manager = m, world = w\<rparr>"
| reach_step: "reachable r dr others w s \<Longrightarrow> sys_step r dr others s s' \<Longrightarrow> reachable r dr others w s'"

subsection \<open>An installation\<close>

text \<open>Writing an object of the management cluster does not change what \<open>f\<close> sees.\<close>

definition object_writes_keep :: "('w, 'k) kube \<Rightarrow> ('w \<Rightarrow> 'o) \<Rightarrow> bool" where
  "object_writes_keep k f \<longleftrightarrow>
     (\<forall>w x. f (snd (update_identity k w x)) = f w) \<and> (\<forall>w x. f (snd (update_cluster k w x)) = f w)"

text \<open>
  The reconcilers use the client of connection \<open>c\<close>; label selectors and map iteration are as their
  libraries document; writes to Kubernetes and waiting for an informer leave the SPIRE server
  alone; and others keep the server in order and their own entries.
\<close>

definition installed ::
  "('id, 'td, 'w) connection \<Rightarrow> ('id, 'td, 'w, 'k) MainReconciler \<Rightarrow> ('id, 'td, 'w, 'k) DeletionReconciler \<Rightarrow>
   ('w \<Rightarrow> 'w \<Rightarrow> bool) \<Rightarrow> bool" where
  "installed c r dr others \<longleftrightarrow>
     SPIREClient r = spire_client c \<and> dr_SPIREClient dr = spire_client c \<and> mr_lib r = fst c \<and>
     selectors_not_nil (mr_kube r) \<and>
     status_writes_keep (mr_kube r) (\<lambda>w. (spire_good c w, spire_view c w)) \<and>
     object_writes_keep (dr_kube dr) (\<lambda>w. (spire_good c w, spire_view c w)) \<and>
     sync_keeps (mr_env r) (\<lambda>w. (spire_good c w, spire_view c w)) \<and>
     (\<forall>w. visits (range_declared r w)) \<and> (\<forall>w. visits (range_current r w)) \<and> (\<forall>w. visits (range_clusters r w)) \<and>
     (\<forall>w w'. others w w' \<longrightarrow> spire_good c w \<longrightarrow>
        spire_good c w' \<and> keeping (foreign r) (spire_view c w) (spire_view c w'))"

lemma installedD:
  assumes "installed c r dr others"
  shows "SPIREClient r = spire_client c" "dr_SPIREClient dr = spire_client c" "selectors_not_nil (mr_kube r)"
    "status_writes_keep (mr_kube r) (\<lambda>w. (spire_good c w, spire_view c w))"
    "object_writes_keep (dr_kube dr) (\<lambda>w. (spire_good c w, spire_view c w))"
    "sync_keeps (mr_env r) (\<lambda>w. (spire_good c w, spire_view c w))"
    "\<And>w. visits (range_declared r w)" "\<And>w. visits (range_current r w)" "\<And>w. visits (range_clusters r w)"
    "\<And>e. parsed_entry (mr_lib r) e \<Longrightarrow> spire_valid c e"
  using assms unfolding installed_def by (cases c; auto)+

abbreviation server_intact ::
  "('id, 'td, 'w, 'k) MainReconciler \<Rightarrow> (string \<Rightarrow> ('id, 'td) Entry option) \<Rightarrow> ('id, 'td, 'w) connection \<Rightarrow> 'w \<Rightarrow> bool" where
  "server_intact \<equiv> intact spire_good spire_view"

lemma keeping_trans: "keeping F u v \<Longrightarrow> keeping F v w \<Longrightarrow> keeping F u w"
  by (simp add: keeping_def)

lemma intact_same: "(spire_good c w', spire_view c w') = (spire_good c w, spire_view c w) \<Longrightarrow>
    server_intact r v c w \<Longrightarrow> server_intact r v c w'"
  by (simp add: intact_def)

lemma cycle_intact:
  assumes "installed c r dr others" and "server_intact r v c w" and "wf_manager m"
    and "reconcileAll r (m, w) = Some (m', w')"
  shows "server_intact r v c w' \<and> wf_manager m'"
proof -
  note i = installedD [OF assms(1)]
  obtain m1 w1 where conn: "case list_clusters (mr_kube r) w of Inl _ \<Rightarrow> (m1, w1) = (m, w)
      | Inr cls \<Rightarrow> syncConnections r cls (m, w) = Some (m1, w1)"
    using assms(4) by (auto simp: reconcileAll_def split: sum.splits bind_splits)
  have "wf_manager m1"
    using conn assms(3) sync_connections [OF _ assms(3) i(9)] by (auto split: sum.splits)
  moreover have "spire_good c w" using assms(2) by (simp add: intact_def)
  from spire.reconcile_all_any [OF this i(1,3,4,6-8,10) conn] assms(4) have
    "m' = m1" "spire_good c w'" "\<And>j. \<not> managed r j \<Longrightarrow> spire_view c w' j = spire_view c w j" by auto
  ultimately show ?thesis
    using assms(2) keeping_unmanaged [of r v "spire_view c w" "spire_view c w'"] by (simp add: intact_def)
qed

lemma owner_intact:
  assumes "installed c r dr others" and "server_intact r v c w" and "deleteEntriesForOwner dr t n w = Some (err, w')"
  shows "server_intact r v c w'"
proof -
  have "spire_good c w" using assms(2) by (simp add: intact_def)
  from spire.delete_for_owner [OF this installedD(2) [OF assms(1)], of t n] assms(3) have
    "spire_good c w'" "spire_view c w' = without (\<lambda>e. ownedBy t n (Hint e)) (spire_view c w)" by auto
  moreover have "keeping (foreign r) v (without (\<lambda>e. ownedBy t n (Hint e)) (spire_view c w))"
    using assms(2) foreign_not_owned(4) by (intro keeping_without) (auto simp: intact_def)
  ultimately show ?thesis by (simp add: intact_def)
qed

text \<open>The ways a deletion handler can go: nothing, entries, or entries and then the object.\<close>

lemma deletion_identity_cases:
  assumes "deletion_ReconcileWorkloadIdentity dr name w = Some (err, w')"
  obtains "w' = w"
  | err1 w1 n x where "deleteEntriesForOwner dr ''WorkloadIdentity'' n w = Some (err1, w1)"
      "w' = w1 \<or> w' = snd (update_identity (dr_kube dr) w1 x)"
proof (cases "get_identity (dr_kube dr) w name")
  case (Inl e)
  then show thesis using assms that(1) by (simp add: deletion_ReconcileWorkloadIdentity_def)
next
  case (Inr i)
  show thesis
  proof (cases "deleting (wi_Meta i)")
    case True
    with assms Inr obtain err1 w1 where d: "deleteEntriesForOwner dr ''WorkloadIdentity'' (wi_Name i) w = Some (err1, w1)"
      by (auto simp: deletion_ReconcileWorkloadIdentity_def deleting_def split: bind_splits)
    have "w' = w1 \<or> (err, w') = update_identity (dr_kube dr) w1 (i\<lparr>wi_Meta := drop_cleanup (wi_Meta i)\<rparr>)"
      using assms Inr True d by (cases err1) (simp_all add: deletion_ReconcileWorkloadIdentity_def deleting_def)
    then show thesis using that(2) [OF d] by (metis snd_conv)
  qed (use assms Inr that(1) in \<open>auto simp: deletion_ReconcileWorkloadIdentity_def deleting_def\<close>)
qed

lemma deletion_cluster_cases:
  assumes "deletion_ReconcileEKSClusterRegistry dr name w = Some (err, w')"
  obtains "w' = w"
  | err1 w1 n x where "deleteEntriesForOwner dr ''EKSClusterRegistry'' n w = Some (err1, w1)"
      "w' = w1 \<or> w' = snd (update_cluster (dr_kube dr) w1 x)"
proof (cases "get_cluster (dr_kube dr) w name")
  case (Inl e)
  then show thesis using assms that(1) by (simp add: deletion_ReconcileEKSClusterRegistry_def)
next
  case (Inr cl)
  show thesis
  proof (cases "deleting (ec_Meta cl)")
    case True
    with assms Inr obtain err1 w1 where d: "deleteEntriesForOwner dr ''EKSClusterRegistry'' (ec_Name cl) w = Some (err1, w1)"
      by (auto simp: deletion_ReconcileEKSClusterRegistry_def deleting_def split: bind_splits)
    have "w' = w1 \<or> (err, w') = update_cluster (dr_kube dr) w1 (cl\<lparr>ec_Meta := drop_cleanup (ec_Meta cl)\<rparr>)"
      using assms Inr True d by (cases err1) (simp_all add: deletion_ReconcileEKSClusterRegistry_def deleting_def)
    then show thesis using that(2) [OF d] by (metis snd_conv)
  qed (use assms Inr that(1) in \<open>auto simp: deletion_ReconcileEKSClusterRegistry_def deleting_def\<close>)
qed

lemma object_writes_keepD:
  assumes "object_writes_keep k f"
  shows "f (snd (update_identity k w x)) = f w" "f (snd (update_cluster k w y)) = f w"
  using assms unfolding object_writes_keep_def by blast+

lemma deletion_intact:
  assumes "installed c r dr others" and "server_intact r v c w"
  shows "deletion_ReconcileWorkloadIdentity dr name w = Some (err, w') \<Longrightarrow> server_intact r v c w'"
    and "deletion_ReconcileEKSClusterRegistry dr name w = Some (err, w') \<Longrightarrow> server_intact r v c w'"
proof -
  note keep = object_writes_keepD [OF installedD(5) [OF assms(1)]] and own = owner_intact [OF assms]
  show "deletion_ReconcileWorkloadIdentity dr name w = Some (err, w') \<Longrightarrow> server_intact r v c w'"
    by (elim deletion_identity_cases) (use assms(2) in simp, metis own intact_same [OF keep(1)])
  show "deletion_ReconcileEKSClusterRegistry dr name w = Some (err, w') \<Longrightarrow> server_intact r v c w'"
    by (elim deletion_cluster_cases) (use assms(2) in simp, metis own intact_same [OF keep(2)])
qed

lemma step_intact:
  assumes "sys_step r dr others s s'" and "installed c r dr others"
    and "server_intact r v c (world s)" and "wf_manager (manager s)"
  shows "server_intact r v c (world s') \<and> wf_manager (manager s')"
  using assms(1)
proof (cases rule: sys_step.cases)
  case (sys_cycle l m w)
  then show ?thesis using cycle_intact [OF assms(2-4)] by simp
next
  case (sys_pod action obj name pod cluster a w)
  then show ?thesis using spire.single_pod_intact [OF assms(3) installedD(1,10) [OF assms(2)]] assms(4) by simp
next
  case (sys_identity name err w)
  then show ?thesis
    using assms(3,4) spire.reconcile_identity_intact [OF assms(3) installedD(1,10) [OF assms(2)]]
    by (auto simp: WorkloadIdentityReconciler_Reconcile_def split: sum.splits if_splits)
next
  case (sys_cluster name err m w)
  then show ?thesis
    using assms(3,4) spire.reconcile_cluster_intact [OF assms(3) installedD(1,10,6) [OF assms(2)] assms(4)]
    by (auto simp: EKSClusterRegistryReconciler_Reconcile_def split: sum.splits if_splits)
next
  case (sys_delete_identity name err w)
  then show ?thesis using deletion_intact(1) [OF assms(2,3)] assms(4) by simp
next
  case (sys_delete_cluster name err w)
  then show ?thesis using deletion_intact(2) [OF assms(2,3)] assms(4) by simp
next
  case (sys_cleanup now)
  then show ?thesis using assms(3,4) by (simp add: cleanup_tick_def wf_manager_def CleanupStaleClients_wf)
next
  case (sys_others w)
  then show ?thesis
    using assms(2-4) keeping_trans [of "foreign r" v] unfolding installed_def by (auto simp: intact_def)
qed (use assms(3,4) in simp_all)

lemma main_start_wf: "main_start gc err = Inr (m, l) \<Longrightarrow> wf_manager m"
  by (auto simp: main_start_def SetupWithManager_def NewManager_def SetPodReconciler_def wf_manager_def split: option.splits)

lemma reachable_intact:
  assumes "reachable r dr others w s" and "installed c r dr others" and "spire_good c w"
  shows "server_intact r (spire_view c w) c (world s) \<and> wf_manager (manager s)"
  using assms(1)
proof (induction rule: reachable.induct)
  case (reach_start m l)
  then show ?case using assms(3) main_start_wf by (auto simp: intact_def)
next
  case (reach_step s s')
  then show ?case using step_intact [OF _ assms(2)] by blast
qed

subsection \<open>Handlers return\<close>

lemma cycle_returns:
  assumes "installed c r dr others" and "connecting_returns (mr_env r)" and "server_intact r v c w" and "wf_manager m"
  shows "\<exists>m' w'. reconcileAll r (m, w) = Some (m', w')"
proof -
  note i = installedD [OF assms(1)]
  have "\<exists>m1 w1. (case list_clusters (mr_kube r) w of Inl _ \<Rightarrow> (m1, w1) = (m, w)
      | Inr cls \<Rightarrow> syncConnections r cls (m, w) = Some (m1, w1))"
    using syncConnections_returns [OF assms(2,4)] by (cases "list_clusters (mr_kube r) w") auto
  then obtain m1 w1 where "case list_clusters (mr_kube r) w of Inl _ \<Rightarrow> (m1, w1) = (m, w)
      | Inr cls \<Rightarrow> syncConnections r cls (m, w) = Some (m1, w1)" by blast
  moreover have "spire_good c w" using assms(3) by (simp add: intact_def)
  ultimately show ?thesis using spire.reconcile_all_any [OF _ i(1,3,4,6-8,10)] by blast
qed

lemma controllers_return:
  assumes "installed c r dr others" and "connecting_returns (mr_env r)" and "server_intact r v c w" and "wf_manager m"
  shows "\<exists>x. WorkloadIdentityReconciler_Reconcile (mr_kube r) (Some r) m name w = Some x"
    "\<exists>x. EKSClusterRegistryReconciler_Reconcile (mr_kube r) (Some r) name (m, w) = Some x"
proof -
  note i = installedD [OF assms(1)]
  have "\<exists>w'. ReconcileWorkloadIdentity r m identity d w = Some w'" for identity d
    using spire.identity_returns [OF assms(3) i(1,10,3)] by blast
  then show "\<exists>x. WorkloadIdentityReconciler_Reconcile (mr_kube r) (Some r) m name w = Some x"
    by (auto simp: WorkloadIdentityReconciler_Reconcile_def split: sum.split)
  have "\<exists>x. ReconcileEKSCluster r cluster d (m, w) = Some x" for cluster d
    using spire.cluster_returns [OF assms(3) i(1,10,3,6) assms(4,2)] by blast
  then show "\<exists>x. EKSClusterRegistryReconciler_Reconcile (mr_kube r) (Some r) name (m, w) = Some x"
    by (auto simp: EKSClusterRegistryReconciler_Reconcile_def split: sum.split)
qed

lemma deletion_returns:
  assumes "spire_good c w" and "dr_SPIREClient dr = spire_client c"
  shows "\<exists>x. deletion_ReconcileWorkloadIdentity dr name w = Some x" "\<exists>x. deletion_ReconcileEKSClusterRegistry dr name w = Some x"
proof -
  obtain f where f: "deleteEntriesForOwner dr t n w = Some (None, f t n)" for t n
    using spire.delete_for_owner [OF assms] by metis
  show "\<exists>x. deletion_ReconcileWorkloadIdentity dr name w = Some x" "\<exists>x. deletion_ReconcileEKSClusterRegistry dr name w = Some x"
    by (simp_all add: deletion_ReconcileWorkloadIdentity_def deletion_ReconcileEKSClusterRegistry_def f split: sum.split)
qed

subsection \<open>Properties\<close>


text \<open>In every reachable state the full cycle, the two event controllers and the deletion controller
  return, for every object name, without a panic; and so does the reaction to a pod event when the
  pod selector of every identity that can be listed is valid. Assumed of the environment:
  cluster descriptions are complete and informers sync or are given up.\<close>

theorem handlers_return:
  assumes "reachable r dr others w s" and "installed c r dr others" and "spire_good c w" and "connecting_returns (mr_env r)"
  shows "(\<exists>m' w'. reconcileAll r (manager s, world s) = Some (m', w')) \<and>
    (\<exists>x. WorkloadIdentityReconciler_Reconcile (mr_kube r) (Some r) (manager s) name (world s) = Some x) \<and>
    (\<exists>x. EKSClusterRegistryReconciler_Reconcile (mr_kube r) (Some r) name (manager s, world s) = Some x) \<and>
    (\<exists>x. deletion_ReconcileWorkloadIdentity dr name (world s) = Some x) \<and>
    (\<exists>x. deletion_ReconcileEKSClusterRegistry dr name (world s) = Some x) \<and>
    ((\<forall>i \<in> set (identities_of r (world s)). \<exists>x. LabelSelectorAsSelector (mr_kube r) (PodSelector (wi_Spec i)) = Inr x) \<longrightarrow>
      (\<exists>w'. ReconcileSinglePod r (manager s) pod cluster action (world s) = Some w'))"
proof -
  note i = installedD [OF assms(2)]
  have s: "server_intact r (spire_view c w) c (world s)" "wf_manager (manager s)" "spire_good c (world s)"
    using reachable_intact [OF assms(1-3)] by (simp_all add: intact_def)
  have pod: "\<exists>w'. ReconcileSinglePod r (manager s) pod cluster action (world s) = Some w'"
    if "\<forall>i \<in> set (identities_of r (world s)). \<exists>x. LabelSelectorAsSelector (mr_kube r) (PodSelector (wi_Spec i)) = Inr x"
    by (rule spire.single_pod_returns [OF s(1) i(1,10,3)]) (assumption | rule that [rule_format])+
  show ?thesis
    using cycle_returns [OF assms(2,4) s(1,2)] controllers_return [OF assms(2,4) s(1,2)] deletion_returns [OF s(3) i(2)] pod
    by (intro conjI impI) assumption+
qed

text \<open>C17: an identity that passed the webhook and is later deleted: in every reachable state the deletion
  controller takes every entry rendered for it off the server, keeps the entries of other tools,
  and only then writes the identity back, with the finalizers it had before the webhook.\<close>

theorem admitted_identity_is_cleaned_up:
  assumes "reachable r dr others w s" and "installed c r dr others" and "spire_good c w"
    and "IsZero (DeletionTimestamp (wi_Meta submitted))" and "SPIRECleanupFinalizer \<notin> set (Finalizers (wi_Meta submitted))"
    and "WorkloadIdentity_Default (WorkloadIdentityObj submitted) = Inr (WorkloadIdentityObj admitted)"
    and "\<not> IsZero t"
    and "get_identity (dr_kube dr) (world s) name = Inr (admitted\<lparr>wi_Meta := (wi_Meta admitted)\<lparr>DeletionTimestamp := t\<rparr>\<rparr>)"
  shows "\<exists>w1 x. deletion_ReconcileWorkloadIdentity dr name (world s) = Some (update_identity (dr_kube dr) w1 x) \<and>
    (\<forall>i e. spire_view c w1 i = Some e \<longrightarrow> (\<forall>cl. Hint e \<noteq> entryHint submitted cl)) \<and>
    (\<forall>e. spire_view c w (ID e) = Some e \<longrightarrow> \<not> HasPrefix (ID e) (EntryIDPrefix r) \<longrightarrow> Hint e = [] \<longrightarrow> spire_view c w1 (ID e) = Some e) \<and>
    Finalizers (wi_Meta x) = Finalizers (wi_Meta submitted)"
proof -
  let ?stored = "admitted\<lparr>wi_Meta := (wi_Meta admitted)\<lparr>DeletionTimestamp := t\<rparr>\<rparr>"
  have adm: "admitted = submitted\<lparr>wi_Meta := (wi_Meta submitted)\<lparr>Finalizers := Finalizers (wi_Meta submitted) @ [SPIRECleanupFinalizer]\<rparr>\<rparr>"
    using assms(4-6) by (auto simp: WorkloadIdentity_Default_def add_cleanup_def AddFinalizer_def ContainsFinalizer_def)
  have "deleting (wi_Meta ?stored)" using assms(7) by (simp add: adm deleting_def ContainsFinalizer_def)
  moreover have good: "spire_good c (world s)" "keeping (foreign r) (spire_view c w) (spire_view c (world s))"
    using reachable_intact [OF assms(1-3)] by (simp_all add: intact_def)
  ultimately obtain w1 where
    w1: "spire_view c w1 = without (\<lambda>e. ownedBy ''WorkloadIdentity'' (wi_Name ?stored) (Hint e)) (spire_view c (world s))"
    "deletion_ReconcileWorkloadIdentity dr name (world s) =
      Some (update_identity (dr_kube dr) w1 (?stored\<lparr>wi_Meta := drop_cleanup (wi_Meta ?stored)\<rparr>))"
    using identity_cleanup_run [OF _ installedD(2) [OF assms(2)] assms(8)] by blast
  have name: "wi_Name ?stored = wi_Name submitted" by (simp add: adm)
  have "Hint e \<noteq> entryHint submitted cl" if "spire_view c w1 i = Some e" for i e cl
    using that ownedBy_identity_hint [of submitted "wi_Name submitted" "[]" cl]
    unfolding w1(1) name without_def by (auto split: option.splits if_splits)
  moreover have "keeping (foreign r) (spire_view c w) (spire_view c w1)"
    unfolding w1(1) using good(2) foreign_not_owned(4) by (intro keeping_without) auto
  moreover have "Finalizers (drop_cleanup (wi_Meta ?stored)) = Finalizers (wi_Meta submitted)"
    using assms(5) by (auto simp: adm drop_cleanup_def RemoveFinalizer_def filter_id_conv)
  ultimately show ?thesis using w1(2)
    by (intro exI [of _ w1] exI [of _ "?stored\<lparr>wi_Meta := drop_cleanup (wi_Meta ?stored)\<rparr>"])
      (auto simp: keeping_def foreign_def managed_def)
qed

subsection \<open>The properties on the small installation\<close>

text \<open>Others may add an entry without a hint to the server.\<close>

definition ref_others :: "ref_world \<Rightarrow> ref_world \<Rightarrow> bool" where
  "ref_others w w' \<longleftrightarrow> w = [] \<and> w' = ref_server []"

abbreviation ref_registrar :: "(string \<times> string, string, ref_world, unit) MainReconciler" where
  "ref_registrar \<equiv> ref_main (Inr ref_node) ''p.''"

lemma ref_installed: "installed ref_connection ref_registrar ref_dr ref_others"
proof -
  have v: "visits (range_clusters ref_registrar w)" for w by (simp add: visits_def)
  have o: "object_writes_keep (dr_kube ref_dr) f" for f by (simp add: object_writes_keep_def)
  have l: "mr_lib ref_registrar = fst ref_connection" by (simp add: ref_connection_def)
  have e: "keeping (foreign ref_registrar) (spire_view ref_connection []) v" for v
    by (simp add: keeping_def ref_connection_good)
  show ?thesis unfolding installed_def l
    using v o e ref_visits ref_documented ref_server by (auto simp: ref_others_def)
qed

lemma ref_start: "\<exists>m l. main_start (GCInterval ref_registrar) None = Inr (m :: unit Manager, l)"
  by (simp add: main_start_def NewManager_def SetupWithManager_def)

lemma ref_reachable_after_deletion:
  obtains s where "reachable ref_registrar ref_dr ref_others (ref_server h) s"
    "deletion_ReconcileWorkloadIdentity ref_dr ''app'' (ref_server h) = Some (None, world s)"
proof -
  obtain m l where st: "main_start (GCInterval ref_registrar) None = Inr (m :: unit Manager, l)" using ref_start by blast
  from identity_cleanup_run [OF ref_server(1) ref_dr_simps(1,2) ref_dying_simps(2)] obtain w1 where
    d: "deletion_ReconcileWorkloadIdentity ref_dr ''app'' (ref_server h) = Some (None, w1)" by fastforce
  let ?s = "\<lparr>loop = l, manager = m, world = ref_server h\<rparr>"
  have "sys_step ref_registrar ref_dr ref_others ?s (?s\<lparr>world := w1\<rparr>)" by (rule sys_delete_identity [of ref_dr "''app''"]) (simp add: d)
  then show thesis using that [of "?s\<lparr>world := w1\<rparr>"] reach_step [OF reach_start [OF st]] d by auto
qed


lemma ref_connecting: "connecting_returns ref_env"
  by (simp add: connecting_returns_def ref_env_def)

theorem handlers_return_witness:
  "\<exists>s x. reachable ref_registrar ref_dr ref_others (ref_server []) s \<and>
     reconcileAll ref_registrar (manager s, world s) = Some x"
proof -
  obtain s where s: "reachable ref_registrar ref_dr ref_others (ref_server []) s" by (rule ref_reachable_after_deletion)
  have c: "connecting_returns (mr_env ref_registrar)" by (simp add: ref_connecting)
  from handlers_return [OF s ref_installed ref_server(1) c] s show ?thesis by blast
qed

text \<open>An admitted identity with one more finalizer, then deleted.\<close>

definition ref_submitted :: "string \<Rightarrow> WorkloadIdentity" where
  "ref_submitted n = (ref_identity n [] [])\<lparr>wi_Meta := (ref_meta n ''w1'')\<lparr>Finalizers := [''x'']\<rparr>\<rparr>"

lemma ref_dying_admitted:
  "\<exists>admitted. WorkloadIdentity_Default (WorkloadIdentityObj (ref_submitted n)) = Inr (WorkloadIdentityObj admitted) \<and>
     ref_dying n = admitted\<lparr>wi_Meta := (wi_Meta admitted)\<lparr>DeletionTimestamp := Some 0\<rparr>\<rparr>"
  by (simp add: WorkloadIdentity_Default_def ref_submitted_def add_cleanup_def AddFinalizer_def ContainsFinalizer_def
      SPIRECleanupFinalizer_def ref_dying_def ref_dying_meta_def ref_meta_def zero_meta_def ref_identity_def)

theorem admitted_identity_is_cleaned_up_witness:
  "\<exists>s w1. reachable ref_registrar ref_dr ref_others (ref_server (entryHint (ref_submitted ''web'') (ref_cluster ''east''))) s \<and>
     deletion_ReconcileWorkloadIdentity ref_dr ''web'' (world s) = Some (None, w1) \<and>
     (\<forall>i e. spire_view ref_connection w1 i = Some e \<longrightarrow> Hint e \<noteq> entryHint (ref_submitted ''web'') (ref_cluster ''east''))"
proof -
  let ?w = "ref_server (entryHint (ref_submitted ''web'') (ref_cluster ''east''))"
  obtain s where s: "reachable ref_registrar ref_dr ref_others ?w s" by (rule ref_reachable_after_deletion)
  obtain a where a: "WorkloadIdentity_Default (WorkloadIdentityObj (ref_submitted ''web'')) = Inr (WorkloadIdentityObj a)"
    "ref_dying ''web'' = a\<lparr>wi_Meta := (wi_Meta a)\<lparr>DeletionTimestamp := Some 0\<rparr>\<rparr>" using ref_dying_admitted by blast
  have sub: "IsZero (DeletionTimestamp (wi_Meta (ref_submitted ''web'')))"
    "SPIRECleanupFinalizer \<notin> set (Finalizers (wi_Meta (ref_submitted ''web'')))" "\<not> IsZero (Some 0)"
    by (simp_all add: ref_submitted_def ref_meta_def zero_meta_def SPIRECleanupFinalizer_def zero_time_def)
  have "get_identity (dr_kube ref_dr) (world s) ''web'' = Inr (a\<lparr>wi_Meta := (wi_Meta a)\<lparr>DeletionTimestamp := Some 0\<rparr>\<rparr>)"
    by (simp add: a(2))
  from admitted_identity_is_cleaned_up [OF s ref_installed ref_server(1) sub(1,2) a(1) sub(3) this] s show ?thesis by auto
qed

end
