(* ===== verification/Config.thy ===== *)
theory Config
  imports Reference_Env
begin

text \<open>
  \<open>api/v1alpha1/controllermanagerconfig_loader.go\<close> and the settings part of \<open>cmd/main.go\<close>: reading
  the configuration file, expanding environment variables, merging the file's options into the
  manager's and filling in defaults. The decoder of configuration objects and \<open>regexp\<close> are
  parameters. Shown: which source wins for each option, the settings that reach the reconciler,
  and what the expansion of variables does.
\<close>

subsection \<open>os.ExpandEnv\<close>

definition isShellSpecialVar :: "char \<Rightarrow> bool" where
  "isShellSpecialVar c \<longleftrightarrow> c \<in> set ''*#$@!?-0123456789''"

definition isAlphaNum :: "char \<Rightarrow> bool" where
  "isAlphaNum c \<longleftrightarrow>
     (let n = of_char c :: nat in
      c = CHR ''_'' \<or> of_char (CHR ''0'') \<le> n \<and> n \<le> of_char (CHR ''9'') \<or>
      of_char (CHR ''a'') \<le> n \<and> n \<le> of_char (CHR ''z'') \<or> of_char (CHR ''A'') \<le> n \<and> n \<le> of_char (CHR ''Z''))"

text \<open>The name that follows a dollar sign and the number of characters it takes.\<close>

definition getShellName :: "string \<Rightarrow> string \<times> nat" where
  "getShellName s =
     (case s of
        [] \<Rightarrow> ([], 0)
      | c # rest \<Rightarrow>
          if c = CHR ''{'' then
            (if length s > 2 \<and> isShellSpecialVar (s ! 1) \<and> s ! 2 = CHR ''}'' then ([s ! 1], 3)
             else if CHR ''}'' \<in> set rest then
               (let name = takeWhile (\<lambda>c. c \<noteq> CHR ''}'') rest
                in if name = [] then ([], 2) else (name, length name + 2))
             else ([], 1))
          else if isShellSpecialVar c then ([c], 1)
          else (let name = takeWhile isAlphaNum s in (name, length name)))"

function Expand :: "(string \<Rightarrow> string) \<Rightarrow> string \<Rightarrow> string" where
  "Expand env [] = []"
| "Expand env (c # s) =
     (if c = CHR ''$'' \<and> s \<noteq> [] then
        (case getShellName s of (name, n) \<Rightarrow>
           (if name = [] \<and> n > 0 then [] else if name = [] then [c] else env name) @ Expand env (drop n s))
      else c # Expand env s)"
  by pat_completeness auto
termination
  by (relation "measure (length \<circ> snd)") auto

subsection \<open>Options\<close>

record LeaderElectionConfiguration =
  LeaderElect :: "bool option"
  ResourceLock :: string
  ResourceNamespace :: string
  ResourceName :: string
  le_LeaseDuration :: duration
  le_RenewDeadline :: duration
  le_RetryPeriod :: duration

record ControllerManagerConfigurationSpec =
  spec_SyncPeriod :: "duration option"
  spec_LeaderElection :: "LeaderElectionConfiguration option"
  CacheNamespace :: string
  spec_MetricsBindAddress :: string
  spec_HealthProbeBindAddress :: string
  spec_ReadinessEndpointName :: string
  spec_LivenessEndpointName :: string

record ControllerManagerConfig =
  cfg_Spec :: ControllerManagerConfigurationSpec
  cfg_ClusterName :: string
  cfg_TrustDomain :: string
  cfg_IgnoreNamespaces :: "string list"
  SPIREServerSocketPath :: string
  cfg_EntryIDPrefix :: string
  GCIntervalSetting :: duration

record Options =
  LeaderElection :: bool
  LeaderElectionResourceLock :: string
  LeaderElectionNamespace :: string
  LeaderElectionID :: string
  LeaseDuration :: "duration option"
  RenewDeadline :: "duration option"
  RetryPeriod :: "duration option"
  SyncPeriod :: "duration option"
  DefaultNamespaces :: "string list option"
  MetricsBindAddress :: string
  HealthProbeBindAddress :: string
  ReadinessEndpointName :: string
  LivenessEndpointName :: string

definition setLeaderElectionConfig :: "Options \<Rightarrow> ControllerManagerConfigurationSpec \<Rightarrow> Options" where
  "setLeaderElectionConfig opt obj =
     (case spec_LeaderElection obj of
        None \<Rightarrow> opt
      | Some le \<Rightarrow>
          opt\<lparr>LeaderElection := (if \<not> LeaderElection opt \<and> LeaderElect le \<noteq> None then the (LeaderElect le) else LeaderElection opt),
            LeaderElectionResourceLock := (if LeaderElectionResourceLock opt = [] \<and> ResourceLock le \<noteq> [] then ResourceLock le else LeaderElectionResourceLock opt),
            LeaderElectionNamespace := (if LeaderElectionNamespace opt = [] \<and> ResourceNamespace le \<noteq> [] then ResourceNamespace le else LeaderElectionNamespace opt),
            LeaderElectionID := (if LeaderElectionID opt = [] \<and> ResourceName le \<noteq> [] then ResourceName le else LeaderElectionID opt),
            LeaseDuration := (if LeaseDuration opt = None \<and> le_LeaseDuration le \<noteq> 0 then Some (le_LeaseDuration le) else LeaseDuration opt),
            RenewDeadline := (if RenewDeadline opt = None \<and> le_RenewDeadline le \<noteq> 0 then Some (le_RenewDeadline le) else RenewDeadline opt),
            RetryPeriod := (if RetryPeriod opt = None \<and> le_RetryPeriod le \<noteq> 0 then Some (le_RetryPeriod le) else RetryPeriod opt)\<rparr>)"

definition addOptionsFromConfigSpec :: "Options \<Rightarrow> ControllerManagerConfigurationSpec \<Rightarrow> Options" where
  "addOptionsFromConfigSpec opt configSpec =
     (let opt = setLeaderElectionConfig opt configSpec in
      opt\<lparr>SyncPeriod := (if SyncPeriod opt = None \<and> spec_SyncPeriod configSpec \<noteq> None then spec_SyncPeriod configSpec else SyncPeriod opt),
        DefaultNamespaces := (if CacheNamespace configSpec \<noteq> [] then Some [CacheNamespace configSpec] else DefaultNamespaces opt),
        MetricsBindAddress := (if MetricsBindAddress opt = [] \<and> spec_MetricsBindAddress configSpec \<noteq> [] then spec_MetricsBindAddress configSpec else MetricsBindAddress opt),
        HealthProbeBindAddress := (if HealthProbeBindAddress opt = [] \<and> spec_HealthProbeBindAddress configSpec \<noteq> [] then spec_HealthProbeBindAddress configSpec else HealthProbeBindAddress opt),
        ReadinessEndpointName := (if ReadinessEndpointName opt = [] \<and> spec_ReadinessEndpointName configSpec \<noteq> [] then spec_ReadinessEndpointName configSpec else ReadinessEndpointName opt),
        LivenessEndpointName := (if LivenessEndpointName opt = [] \<and> spec_LivenessEndpointName configSpec \<noteq> [] then spec_LivenessEndpointName configSpec else LivenessEndpointName opt)\<rparr>)"

text \<open>The process environment: files, variables, and the decoder of configuration objects.\<close>

record os_env =
  ReadFile :: "string \<Rightarrow> go_error + string"
  Getenv :: "string \<Rightarrow> string"
  DecodeInto :: "string \<Rightarrow> go_error + ControllerManagerConfig"

definition loadFile :: "os_env \<Rightarrow> string \<Rightarrow> bool \<Rightarrow> go_error + ControllerManagerConfig" where
  "loadFile env path expandEnv =
     ebind (wrap (''could not read file at '' @ path) (ReadFile env path)) (\<lambda>content.
     let content = (if expandEnv then Expand (Getenv env) content else content)
     in wrap ''could not decode file into runtime.Object'' (DecodeInto env content))"

definition LoadOptionsFromFile ::
  "os_env \<Rightarrow> string \<Rightarrow> Options \<Rightarrow> bool \<Rightarrow> go_error + Options \<times> ControllerManagerConfig" where
  "LoadOptionsFromFile env path options expandEnv =
     ebind (loadFile env path expandEnv) (\<lambda>config. Inr (addOptionsFromConfigSpec options (cfg_Spec config), config))"

subsection \<open>The settings of main\<close>

definition parseIgnoreNamespaces ::
  "(string \<Rightarrow> go_error + (string \<Rightarrow> bool)) \<Rightarrow> string list \<Rightarrow> go_error + (string \<Rightarrow> bool) list" where
  "parseIgnoreNamespaces compile namespaces =
     collect (\<lambda>ns. wrap (''invalid namespace pattern '' @ CHR 0x22 # ns @ [CHR 0x22]) (compile ns)) namespaces"

definition main_options :: Options where
  "main_options =
     \<lparr>LeaderElection = False, LeaderElectionResourceLock = [], LeaderElectionNamespace = [],
      LeaderElectionID = ''spire-eks-workload-registrar.spire.io'', LeaseDuration = None, RenewDeadline = None, RetryPeriod = None,
      SyncPeriod = None, DefaultNamespaces = None, MetricsBindAddress = [], HealthProbeBindAddress = [],
      ReadinessEndpointName = [], LivenessEndpointName = []\<rparr>"

record 'td settings =
  set_Options :: Options
  set_TrustDomain :: 'td
  set_SocketPath :: string
  set_GCInterval :: duration
  set_ClusterName :: string
  set_EntryIDPrefix :: string
  set_IgnoreNamespaces :: "(string \<Rightarrow> bool) list"

text \<open>From the flags to the SPIRE client: every \<open>os.Exit(1)\<close> is an error.\<close>

definition resolve_settings ::
  "('id, 'td) lib \<Rightarrow> (string \<Rightarrow> go_error + (string \<Rightarrow> bool)) \<Rightarrow> Options \<Rightarrow> ControllerManagerConfig \<Rightarrow> go_error + 'td settings" where
  "resolve_settings l compile options config =
     (if cfg_TrustDomain config = [] then Inl (Errs ''trustDomain is required in config file'')
      else ebind (wrap ''invalid trust domain'' (TrustDomainFromString l (cfg_TrustDomain config))) (\<lambda>trustDomain.
      ebind (wrap ''unable to parse ignore namespaces'' (parseIgnoreNamespaces compile (cfg_IgnoreNamespaces config))) (\<lambda>ignoreNamespaces.
      Inr \<lparr>set_Options = options, set_TrustDomain = trustDomain,
           set_SocketPath = (if SPIREServerSocketPath config = [] then ''/run/spire/sockets/server.sock'' else SPIREServerSocketPath config),
           set_GCInterval = (if GCIntervalSetting config = 0 then 10 * Minute else GCIntervalSetting config),
           set_ClusterName = (if cfg_ClusterName config = [] then ''default'' else cfg_ClusterName config),
           set_EntryIDPrefix = (if cfg_EntryIDPrefix config = [] then ''eks-workload-'' else cfg_EntryIDPrefix config),
           set_IgnoreNamespaces = ignoreNamespaces\<rparr>)))"

definition main_settings ::
  "('id, 'td) lib \<Rightarrow> os_env \<Rightarrow> (string \<Rightarrow> go_error + (string \<Rightarrow> bool)) \<Rightarrow> string \<Rightarrow> bool \<Rightarrow> go_error + 'td settings" where
  "main_settings l env compile configFile expandEnv =
     (if configFile = [] then Inl (Errs ''config file is required (use --config flag)'')
      else ebind (wrap ''unable to load config file'' (LoadOptionsFromFile env configFile main_options expandEnv))
             (\<lambda>(options, config). resolve_settings l compile options config))"

lemma Expand_no_dollar: "CHR ''$'' \<notin> set s \<Longrightarrow> Expand env (s @ t) = s @ Expand env t"
  by (induction s) auto

lemma getShellName_braced:
  assumes "name \<noteq> []" and "CHR ''}'' \<notin> set name" and "\<not> isShellSpecialVar (hd name)"
  shows "getShellName (''{'' @ name @ ''}'' @ t) = (name, length name + 2)"
proof -
  have tw: "takeWhile (\<lambda>c. c \<noteq> CHR ''}'') (name @ ''}'' @ t) = name"
    using assms(2) by (subst takeWhile_append2) auto
  show ?thesis
    using assms tw by (cases name) (auto simp: getShellName_def Let_def)
qed

subsection \<open>Properties\<close>

text \<open>Expanding environment variables leaves text without a dollar sign as it is and replaces
  \<open>${NAME}\<close> by the value of the variable, once (the value is not expanded again).\<close>

theorem expand_env_braced:
  assumes "CHR ''$'' \<notin> set s" and "name \<noteq> []" and "CHR ''}'' \<notin> set name" and "\<not> isShellSpecialVar (hd name)"
  shows "Expand env (s @ ''${'' @ name @ ''}'' @ t) = s @ env name @ Expand env t"
proof -
  have "Expand env (CHR ''$'' # (''{'' @ name @ ''}'' @ t)) = env name @ Expand env (drop (length name + 2) (''{'' @ name @ ''}'' @ t))"
    unfolding Expand.simps(2) getShellName_braced [OF assms(2-4)] using assms(2) by (simp del: Expand.simps)
  moreover have "drop (length name + 2) (''{'' @ name @ ''}'' @ t) = t" by simp
  ultimately show ?thesis using Expand_no_dollar [OF assms(1), of env "CHR ''$'' # (''{'' @ name @ ''}'' @ t)"] by simp
qed

theorem expand_env_braced_witness:
  "Expand (\<lambda>v. if v = ''TD'' then ''a.org$X'' else []) (''trustDomain: '' @ ''${'' @ ''TD'' @ ''}'' @ [])
     = ''trustDomain: a.org$X''"
  by (subst expand_env_braced) (simp_all add: isShellSpecialVar_def)

text \<open>The options the manager starts with: what the file gives is used for metrics, probes, endpoints,
  synchronisation, cache and whether to elect a leader, but the leader election name of the file is
  ignored, because the program has already set one.\<close>

theorem manager_options:
  "let opt = addOptionsFromConfigSpec main_options spec in
     LeaderElectionID opt = ''spire-eks-workload-registrar.spire.io'' \<and>
     (LeaderElection opt \<longleftrightarrow> (\<exists>le. spec_LeaderElection spec = Some le \<and> LeaderElect le = Some True)) \<and>
     LeaderElectionNamespace opt = (case spec_LeaderElection spec of Some le \<Rightarrow> ResourceNamespace le | None \<Rightarrow> []) \<and>
     MetricsBindAddress opt = spec_MetricsBindAddress spec \<and> HealthProbeBindAddress opt = spec_HealthProbeBindAddress spec \<and>
     ReadinessEndpointName opt = spec_ReadinessEndpointName spec \<and> LivenessEndpointName opt = spec_LivenessEndpointName spec \<and>
     SyncPeriod opt = spec_SyncPeriod spec \<and>
     DefaultNamespaces opt = (if CacheNamespace spec = [] then None else Some [CacheNamespace spec])"
proof -
  have le: "LeaderElectionID (setLeaderElectionConfig main_options spec) = LeaderElectionID main_options"
    "LeaderElection (setLeaderElectionConfig main_options spec) \<longleftrightarrow> (\<exists>le. spec_LeaderElection spec = Some le \<and> LeaderElect le = Some True)"
    "LeaderElectionNamespace (setLeaderElectionConfig main_options spec) = (case spec_LeaderElection spec of Some le \<Rightarrow> ResourceNamespace le | None \<Rightarrow> [])"
    by (simp_all add: setLeaderElectionConfig_def main_options_def split: option.split) auto
  have same: "SyncPeriod (setLeaderElectionConfig opt spec) = SyncPeriod opt"
    "DefaultNamespaces (setLeaderElectionConfig opt spec) = DefaultNamespaces opt"
    "MetricsBindAddress (setLeaderElectionConfig opt spec) = MetricsBindAddress opt"
    "HealthProbeBindAddress (setLeaderElectionConfig opt spec) = HealthProbeBindAddress opt"
    "ReadinessEndpointName (setLeaderElectionConfig opt spec) = ReadinessEndpointName opt"
    "LivenessEndpointName (setLeaderElectionConfig opt spec) = LivenessEndpointName opt" for opt
    by (simp_all add: setLeaderElectionConfig_def split: option.split)
  show ?thesis
    unfolding Let_def addOptionsFromConfigSpec_def by (intro conjI) (simp_all add: le same, simp_all add: main_options_def)
qed

text \<open>When the program gets as far as creating its SPIRE client, the trust domain is one go-spiffe
  accepted, every ignore pattern compiled, the entry identifier prefix is not empty (so that the
  entries of other controllers are out of its reach), and the socket address can be dialled.\<close>

theorem settings_are_usable:
  assumes "main_settings l env compile configFile expandEnv = Inr s"
  shows "configFile \<noteq> [] \<and> parsed_td l (set_TrustDomain s) \<and> set_EntryIDPrefix s \<noteq> [] \<and> set_ClusterName s \<noteq> [] \<and>
    set_GCInterval s \<noteq> 0 \<and> dial_target (set_SocketPath s) \<noteq> None \<and>
    (\<exists>config. loadFile env configFile expandEnv = Inr config \<and>
      list_all2 (\<lambda>ns regex. compile ns = Inr regex) (cfg_IgnoreNamespaces config) (set_IgnoreNamespaces s))"
proof -
  have dial: "dial_target p \<noteq> None" if "p \<noteq> []" for p
    using that by (cases p) (auto simp: dial_target_def)
  have ne: "configFile \<noteq> []" using assms by (cases configFile) (simp_all add: main_settings_def)
  from assms ne obtain options config where load: "LoadOptionsFromFile env configFile main_options expandEnv = Inr (options, config)"
    and rest: "resolve_settings l compile options config = Inr s"
    by (auto simp: main_settings_def ebind_Inr_iff)
  from rest have "cfg_TrustDomain config \<noteq> []" by (auto simp: resolve_settings_def)
  with rest obtain trustDomain regs where r: "TrustDomainFromString l (cfg_TrustDomain config) = Inr trustDomain"
    "parseIgnoreNamespaces compile (cfg_IgnoreNamespaces config) = Inr regs"
    and s: "set_TrustDomain s = trustDomain" "set_IgnoreNamespaces s = regs"
      "set_SocketPath s = (if SPIREServerSocketPath config = [] then ''/run/spire/sockets/server.sock'' else SPIREServerSocketPath config)"
      "set_GCInterval s = (if GCIntervalSetting config = 0 then 10 * Minute else GCIntervalSetting config)"
      "set_ClusterName s = (if cfg_ClusterName config = [] then ''default'' else cfg_ClusterName config)"
      "set_EntryIDPrefix s = (if cfg_EntryIDPrefix config = [] then ''eks-workload-'' else cfg_EntryIDPrefix config)"
    unfolding resolve_settings_def if_not_P [OF \<open>cfg_TrustDomain config \<noteq> []\<close>] ebind_Inr_iff wrap_Inr_iff sum.inject
    by (elim exE conjE) auto
  have "loadFile env configFile expandEnv = Inr config" using load by (auto simp: LoadOptionsFromFile_def ebind_Inr_iff)
  moreover have "list_all2 (\<lambda>ns regex. compile ns = Inr regex) (cfg_IgnoreNamespaces config) regs"
    using r(2) unfolding parseIgnoreNamespaces_def collect_Inr_iff by simp
  moreover have "dial_target (set_SocketPath s) \<noteq> None" by (rule dial) (simp add: s)
  moreover have "parsed_td l trustDomain" using r(1) by (auto simp: parsed_td_def)
  ultimately show ?thesis using ne s by (simp add: Minute_def Second_def)
qed

definition ref_config :: ControllerManagerConfig where
  "ref_config =
     \<lparr>cfg_Spec = \<lparr>spec_SyncPeriod = None, spec_LeaderElection = None, CacheNamespace = [], spec_MetricsBindAddress = [],
        spec_HealthProbeBindAddress = [], spec_ReadinessEndpointName = [], spec_LivenessEndpointName = []\<rparr>,
      cfg_ClusterName = [], cfg_TrustDomain = ''a.org'', cfg_IgnoreNamespaces = [''kube-system''], SPIREServerSocketPath = [],
      cfg_EntryIDPrefix = [], GCIntervalSetting = 0\<rparr>"

definition ref_os :: os_env where
  "ref_os = \<lparr>ReadFile = (\<lambda>p. Inr []), Getenv = (\<lambda>v. []), DecodeInto = (\<lambda>s. Inr ref_config)\<rparr>"

theorem settings_are_usable_witness:
  "\<exists>s. main_settings ref_lib ref_os (\<lambda>p. Inr (\<lambda>ns. ns = p)) ''config.yaml'' False = Inr s \<and>
     set_EntryIDPrefix s = ''eks-workload-'' \<and> set_EntryIDPrefix s \<noteq> [] \<and> dial_target (set_SocketPath s) \<noteq> None"
proof -
  have "\<exists>s. main_settings ref_lib ref_os (\<lambda>p. Inr (\<lambda>ns. ns = p)) ''config.yaml'' False = Inr s \<and> set_EntryIDPrefix s = ''eks-workload-''"
    by (simp add: main_settings_def LoadOptionsFromFile_def loadFile_def resolve_settings_def parseIgnoreNamespaces_def
        ref_os_def ref_config_def ref_lib_def ref_TrustDomainFromString_def Let_def)
  then obtain s where s: "main_settings ref_lib ref_os (\<lambda>p. Inr (\<lambda>ns. ns = p)) ''config.yaml'' False = Inr s"
    "set_EntryIDPrefix s = ''eks-workload-''" by blast
  from settings_are_usable [OF s(1)] s show ?thesis by auto
qed

end
