(* ===== verification/Webhook_Manager.thy ===== *)
theory Webhook_Manager
  imports Api_Types Base64
begin

text \<open>
  \<open>pkg/webhookmanager/finalizer_webhook_manager.go\<close>: the certificate authority of the webhook
  server, its serving certificate, the CA bundle in the webhook configuration and the rotation of
  the certificate. Key generation, X.509, files, the Kubernetes API and the clock are the
  functions of \<open>pki_env\<close>; what is assumed of them is stated by \<open>x509_documented\<close>,
  \<open>config_stored\<close> and \<open>time_flows\<close>. Shown: what a successful start leaves behind, that a tick
  which does not fail leaves a certificate valid for more than twelve hours, and that no tick
  ever replaces the CA.
\<close>

subsection \<open>Calls that may fail, stop the program or change the world\<close>

named_theorems io_success \<open>when a composed call returns without an error\<close>

type_synonym ('w, 'a) io = "'w \<Rightarrow> ((go_error + 'a) \<times> 'w) option"

definition io_return :: "'a \<Rightarrow> ('w, 'a) io" where
  "io_return x w = Some (Inr x, w)"

definition io_bind :: "('w, 'a) io \<Rightarrow> ('a \<Rightarrow> ('w, 'b) io) \<Rightarrow> ('w, 'b) io" where
  "io_bind f g w = (case f w of None \<Rightarrow> None | Some (Inl e, w') \<Rightarrow> Some (Inl e, w') | Some (Inr x, w') \<Rightarrow> g x w')"

text \<open>\<open>y, err := f(); if err != nil { return fmt.Errorf("m: %w", err) }\<close>\<close>

definition io_call :: "string \<Rightarrow> ('w \<Rightarrow> (go_error + 'a) \<times> 'w) \<Rightarrow> ('w, 'a) io" where
  "io_call m f w = (case f w of (r, w') \<Rightarrow> Some (wrap m r, w'))"

definition io_wrap :: "string \<Rightarrow> ('w, 'a) io \<Rightarrow> ('w, 'a) io" where
  "io_wrap m f w = map_option (\<lambda>(r, w'). (wrap m r, w')) (f w)"

definition io_read :: "('w \<Rightarrow> 'a \<times> 'w) \<Rightarrow> ('w, 'a) io" where
  "io_read f w = (case f w of (x, w') \<Rightarrow> Some (Inr x, w'))"

text \<open>The use of a pointer that may be nil.\<close>

definition io_deref :: "'a option \<Rightarrow> ('w, 'a) io" where
  "io_deref p w = (case p of None \<Rightarrow> None | Some x \<Rightarrow> Some (Inr x, w))"

subsection \<open>Standard library\<close>

text \<open>\<open>Time.Sub\<close> saturates at the limits of a \<open>Duration\<close>; \<open>Time.Unix\<close> is in whole seconds.\<close>

definition Sub :: "gotime \<Rightarrow> gotime \<Rightarrow> duration" where
  "Sub t u = max (- (2 ^ 63)) (min (2 ^ 63 - 1) (t - u))"

definition Unix :: "gotime \<Rightarrow> int" where
  "Unix t = t div Second"

text \<open>\<open>path/filepath\<close>: \<open>Clean\<close> resolves \<open>.\<close> and \<open>..\<close>, \<open>Join\<close> skips leading empty elements.\<close>

fun clean_elems :: "bool \<Rightarrow> string list \<Rightarrow> string list \<Rightarrow> string list" where
  "clean_elems rooted acc [] = rev acc"
| "clean_elems rooted acc (e # es) =
     (if e = [] \<or> e = ''.'' then clean_elems rooted acc es
      else if e = ''..'' then
        (case acc of
           [] \<Rightarrow> clean_elems rooted (if rooted then [] else [e]) es
         | a # as \<Rightarrow> clean_elems rooted (if a = ''..'' then e # acc else as) es)
      else clean_elems rooted (e # acc) es)"

definition Clean :: "string \<Rightarrow> string" where
  "Clean p =
     (let es = clean_elems (HasPrefix p ''/'') [] (Split p (CHR ''/''))
      in if HasPrefix p ''/'' then ''/'' @ Join es ''/'' else if es = [] then ''.'' else Join es ''/'')"

definition filepath_Join :: "string list \<Rightarrow> string" where
  "filepath_Join es = (case dropWhile (\<lambda>e. e = []) es of [] \<Rightarrow> [] | es' \<Rightarrow> Clean (Join es' ''/''))"

text \<open>The fields of \<open>x509.Certificate\<close> the code sets or reads, and the key usages it names.\<close>

record x509_Certificate =
  SerialNumber :: int
  CommonName :: string
  Organization :: "string list"
  NotBefore :: gotime
  NotAfter :: gotime
  KeyUsage :: nat
  ExtKeyUsage :: "nat list"
  BasicConstraintsValid :: bool
  IsCA :: bool
  cert_DNSNames :: "string list"

abbreviation KeyUsageDigitalSignature :: nat where "KeyUsageDigitalSignature \<equiv> 1"
abbreviation KeyUsageKeyEncipherment :: nat where "KeyUsageKeyEncipherment \<equiv> 4"
abbreviation KeyUsageCertSign :: nat where "KeyUsageCertSign \<equiv> 32"
abbreviation KeyUsageCRLSign :: nat where "KeyUsageCRLSign \<equiv> 64"
abbreviation ExtKeyUsageServerAuth :: nat where "ExtKeyUsageServerAuth \<equiv> 1"

text \<open>A webhook configuration, as far as the code reads and writes it.\<close>

record MutatingWebhook =
  mw_Name :: string
  CABundle :: string

record MutatingWebhookConfiguration =
  mwc_Name :: string
  Webhooks :: "MutatingWebhook list"

record ('w, 'key) pki_env =
  MkdirAll :: "string \<Rightarrow> 'w \<Rightarrow> (go_error + unit) \<times> 'w"
  GenerateKey :: "'w \<Rightarrow> (go_error + 'key) \<times> 'w"
  CreateCertificate ::
    "x509_Certificate \<Rightarrow> x509_Certificate \<Rightarrow> 'key \<Rightarrow> 'key \<Rightarrow> 'w \<Rightarrow> (go_error + string) \<times> 'w"
  ParseCertificate :: "string \<Rightarrow> go_error + x509_Certificate"
  MarshalPKCS8PrivateKey :: "'key \<Rightarrow> go_error + string"
  os_Create :: "string \<Rightarrow> 'w \<Rightarrow> (go_error + unit) \<times> 'w"
  os_OpenFile :: "string \<Rightarrow> 'w \<Rightarrow> (go_error + unit) \<times> 'w"
  file_Write :: "string \<Rightarrow> string \<Rightarrow> 'w \<Rightarrow> (go_error + unit) \<times> 'w"
  webhook_Get :: "'w \<Rightarrow> string \<Rightarrow> go_error + MutatingWebhookConfiguration"
  webhook_Update :: "MutatingWebhookConfiguration \<Rightarrow> 'w \<Rightarrow> (go_error + unit) \<times> 'w"
  clock :: "'w \<Rightarrow> gotime \<times> 'w"

subsection \<open>The manager\<close>

text \<open>The SPIRE client it is also given is used by no method.\<close>

record ('td, 'key) FinalizerWebhookManager =
  trustDomain :: 'td
  webhookName :: string
  webhookNamespace :: string
  webhookService :: string
  certDir :: string
  currentCABundle :: string
  certificateExpiry :: gotime
  caCert :: "x509_Certificate option"
  caKey :: "'key option"

definition NewFinalizerWebhookManager ::
  "'td \<Rightarrow> string \<Rightarrow> string \<Rightarrow> string \<Rightarrow> string \<Rightarrow> ('td, 'key) FinalizerWebhookManager" where
  "NewFinalizerWebhookManager td name namespace service dir =
     \<lparr>trustDomain = td, webhookName = name, webhookNamespace = namespace, webhookService = service, certDir = dir,
      currentCABundle = [], certificateExpiry = zero_time, caCert = None, caKey = None\<rparr>"

definition ca_template :: "('td, 'key) FinalizerWebhookManager \<Rightarrow> gotime \<Rightarrow> gotime \<Rightarrow> x509_Certificate" where
  "ca_template m t u =
     \<lparr>SerialNumber = 1, CommonName = ''webhook-ca.'' @ webhookNamespace m, Organization = [''SPIRE Controller''],
      NotBefore = t, NotAfter = u + 365 * 24 * Hour, KeyUsage = or KeyUsageCertSign KeyUsageCRLSign, ExtKeyUsage = [],
      BasicConstraintsValid = True, IsCA = True, cert_DNSNames = []\<rparr>"

definition generateCA ::
  "('w, 'key) pki_env \<Rightarrow> ('td, 'key) FinalizerWebhookManager \<Rightarrow> ('w, ('td, 'key) FinalizerWebhookManager) io" where
  "generateCA env m =
     io_bind (io_call ''failed to generate CA key'' (GenerateKey env)) (\<lambda>key.
     io_bind (io_read (clock env)) (\<lambda>t. io_bind (io_read (clock env)) (\<lambda>u.
     let caTemplate = ca_template m t u in
     io_bind (io_call ''failed to create CA certificate'' (CreateCertificate env caTemplate caTemplate key key)) (\<lambda>caCertDER.
     io_bind (io_call ''failed to parse CA certificate'' (Pair (ParseCertificate env caCertDER))) (\<lambda>cert.
     io_return (m\<lparr>caCert := Some cert, caKey := Some key,
                  currentCABundle := pem_Encode ''CERTIFICATE'' caCertDER\<rparr>))))))"

definition webhook_dnsNames :: "('td, 'key) FinalizerWebhookManager \<Rightarrow> string list" where
  "webhook_dnsNames m =
     [webhookService m,
      webhookService m @ ''.'' @ webhookNamespace m,
      webhookService m @ ''.'' @ webhookNamespace m @ ''.svc'',
      webhookService m @ ''.'' @ webhookNamespace m @ ''.svc.cluster.local'']"

definition leaf_template ::
  "('td, 'key) FinalizerWebhookManager \<Rightarrow> gotime \<Rightarrow> gotime \<Rightarrow> gotime \<Rightarrow> x509_Certificate" where
  "leaf_template m s t u =
     \<lparr>SerialNumber = Unix s, CommonName = webhookService m @ ''.'' @ webhookNamespace m @ ''.svc'',
      Organization = [''SPIRE Controller''], NotBefore = t, NotAfter = u + 24 * Hour,
      KeyUsage = or KeyUsageKeyEncipherment KeyUsageDigitalSignature, ExtKeyUsage = [ExtKeyUsageServerAuth],
      BasicConstraintsValid = True, IsCA = False, cert_DNSNames = webhook_dnsNames m\<rparr>"

text \<open>From the creation of the certificate file on: both files are written before the expiry is stored.\<close>

definition writeFiles ::
  "('w, 'key) pki_env \<Rightarrow> ('td, 'key) FinalizerWebhookManager \<Rightarrow> 'key \<Rightarrow> string \<Rightarrow> ('w, unit) io" where
  "writeFiles env m key certDER =
     (let certPath = filepath_Join [certDir m, ''tls.crt'']; keyPath = filepath_Join [certDir m, ''tls.key''] in
      io_bind (io_call ''failed to create cert file'' (os_Create env certPath)) (\<lambda>_.
      io_bind (io_call ''failed to write certificate'' (file_Write env certPath (pem_Encode ''CERTIFICATE'' certDER))) (\<lambda>_.
      io_bind (io_call ''failed to create key file'' (os_OpenFile env keyPath)) (\<lambda>_.
      io_bind (io_call ''failed to marshal private key'' (Pair (MarshalPKCS8PrivateKey env key))) (\<lambda>keyBytes.
      io_call ''failed to write private key'' (file_Write env keyPath (pem_Encode ''PRIVATE KEY'' keyBytes)))))))"

definition MintCertificate ::
  "('w, 'key) pki_env \<Rightarrow> ('td, 'key) FinalizerWebhookManager \<Rightarrow> ('w, ('td, 'key) FinalizerWebhookManager) io" where
  "MintCertificate env m =
     io_bind (io_call ''failed to generate private key'' (GenerateKey env)) (\<lambda>key.
     io_bind (io_read (clock env)) (\<lambda>s. io_bind (io_read (clock env)) (\<lambda>t. io_bind (io_read (clock env)) (\<lambda>u.
     io_bind (io_deref (caCert m)) (\<lambda>issuer. io_bind (io_deref (caKey m)) (\<lambda>issuerKey.
     io_bind (io_call ''failed to create certificate''
                (CreateCertificate env (leaf_template m s t u) issuer key issuerKey)) (\<lambda>certDER.
     io_bind (io_call ''failed to parse certificate'' (Pair (ParseCertificate env certDER))) (\<lambda>cert.
     io_bind (writeFiles env m key certDER) (\<lambda>_.
     io_return (m\<lparr>certificateExpiry := NotAfter cert\<rparr>))))))))))"

definition UpdateWebhookConfiguration ::
  "('w, 'key) pki_env \<Rightarrow> ('td, 'key) FinalizerWebhookManager \<Rightarrow> ('w, unit) io" where
  "UpdateWebhookConfiguration env m =
     io_bind (io_call ''failed to get webhook configuration'' (\<lambda>w. (webhook_Get env w (webhookName m), w))) (\<lambda>webhook.
     if list_ex (\<lambda>h. CABundle h \<noteq> currentCABundle m) (Webhooks webhook)
     then io_call ''failed to update webhook'' (webhook_Update env
            (webhook\<lparr>Webhooks := map (\<lambda>h. if CABundle h \<noteq> currentCABundle m then h\<lparr>CABundle := currentCABundle m\<rparr> else h)
                                   (Webhooks webhook)\<rparr>))
     else io_return ())"

text \<open>\<open>Start\<close>: \<open>main\<close> exits when it fails, so the manager is only kept on success.\<close>

definition webhook_Start ::
  "('w, 'key) pki_env \<Rightarrow> ('td, 'key) FinalizerWebhookManager \<Rightarrow> ('w, ('td, 'key) FinalizerWebhookManager) io" where
  "webhook_Start env m =
     io_bind (io_call ''failed to create cert directory'' (MkdirAll env (certDir m))) (\<lambda>_.
     io_bind (io_wrap ''failed to generate CA'' (generateCA env m)) (\<lambda>m.
     io_bind (io_wrap ''initial certificate mint failed'' (MintCertificate env m)) (\<lambda>m.
     io_bind (io_wrap ''initial webhook update failed'' (UpdateWebhookConfiguration env m)) (\<lambda>_.
     io_return m))))"

definition ShouldRotate :: "('w, 'key) pki_env \<Rightarrow> ('td, 'key) FinalizerWebhookManager \<Rightarrow> 'w \<Rightarrow> bool \<times> 'w" where
  "ShouldRotate env m w =
     (if IsZero (Some (certificateExpiry m)) then (True, w)
      else case clock env w of (now, w') \<Rightarrow>
        (let lifetime = Sub (certificateExpiry m) now in
         if lifetime < 0 then (True, w')
         else (let halfLife = 24 * Hour div 2; timeUntilRotation = Sub (certificateExpiry m) (now + halfLife)
               in (timeUntilRotation \<le> 0, w'))))"

text \<open>One tick of \<open>rotationLoop\<close>, with what it logs.\<close>

datatype rotation = Kept | Rotated | MintFailed go_error | UpdateFailed go_error

definition rotation_tick ::
  "('w, 'key) pki_env \<Rightarrow> ('td, 'key) FinalizerWebhookManager \<Rightarrow> 'w \<Rightarrow>
   (rotation \<times> ('td, 'key) FinalizerWebhookManager \<times> 'w) option" where
  "rotation_tick env m w =
     (case ShouldRotate env m w of
        (False, w) \<Rightarrow> Some (Kept, m, w)
      | (True, w) \<Rightarrow> do {
          (r, w) \<leftarrow> MintCertificate env m w;
          case r of
            Inl err \<Rightarrow> Some (MintFailed err, m, w)
          | Inr m \<Rightarrow> do {
              (r, w) \<leftarrow> UpdateWebhookConfiguration env m w;
              Some (case r of Inl err \<Rightarrow> UpdateFailed err | Inr _ \<Rightarrow> Rotated, m, w) } })"

subsection \<open>Successful calls: lemmas\<close>

lemma io_bind_Inr [io_success]:
  "io_bind f g w = Some (Inr y, w') \<longleftrightarrow> (\<exists>x w1. f w = Some (Inr x, w1) \<and> g x w1 = Some (Inr y, w'))"
  by (auto simp: io_bind_def split: option.splits sum.splits)

lemma io_call_Inr [io_success]: "io_call m f w = Some (Inr x, w') \<longleftrightarrow> f w = (Inr x, w')"
  by (auto simp: io_call_def split: prod.splits)

lemma io_wrap_Inr [io_success]: "io_wrap m f w = Some (Inr x, w') \<longleftrightarrow> f w = Some (Inr x, w')"
  by (auto simp: io_wrap_def)

lemma io_read_Inr [io_success]: "io_read f w = Some (Inr x, w') \<longleftrightarrow> f w = (x, w')"
  by (auto simp: io_read_def split: prod.splits)

lemma io_deref_Inr [io_success]: "io_deref p w = Some (Inr x, w') \<longleftrightarrow> p = Some x \<and> w' = w"
  by (auto simp: io_deref_def split: option.splits)

lemma io_return_Inr [io_success]: "io_return x w = Some (Inr y, w') \<longleftrightarrow> y = x \<and> w' = w"
  by (auto simp: io_return_def)

lemma MintCertificate_Inr:
  assumes "MintCertificate env m w = Some (Inr m', w')"
  obtains key s t u w1 w2 w3 w4 issuer issuerKey der w5 cert where
    "GenerateKey env w = (Inr key, w1)" "clock env w1 = (s, w2)" "clock env w2 = (t, w3)" "clock env w3 = (u, w4)"
    "caCert m = Some issuer" "caKey m = Some issuerKey"
    "CreateCertificate env (leaf_template m s t u) issuer key issuerKey w4 = (Inr der, w5)"
    "ParseCertificate env der = Inr cert" "m' = m\<lparr>certificateExpiry := NotAfter cert\<rparr>"
  using assms unfolding MintCertificate_def by (auto simp: io_success)

lemma MintCertificate_keeps:
  "MintCertificate env m w = Some (Inr m', w') \<Longrightarrow>
     webhookName m' = webhookName m \<and> caCert m' = caCert m \<and> caKey m' = caKey m \<and> currentCABundle m' = currentCABundle m"
  by (erule MintCertificate_Inr) simp

lemma generateCA_Inr:
  assumes "generateCA env m w = Some (Inr m', w')"
  obtains key t u w1 w2 w3 der cert where
    "GenerateKey env w = (Inr key, w1)" "clock env w1 = (t, w2)" "clock env w2 = (u, w3)"
    "CreateCertificate env (ca_template m t u) (ca_template m t u) key key w3 = (Inr der, w')"
    "ParseCertificate env der = Inr cert"
    "m' = m\<lparr>caCert := Some cert, caKey := Some key, currentCABundle := pem_Encode ''CERTIFICATE'' der\<rparr>"
  using assms unfolding generateCA_def by (auto simp: io_success Let_def)

lemma rotation_tick_cases:
  assumes "rotation_tick env m w = Some (res, m', w')"
  obtains (kept) "res = Kept" "m' = m" "ShouldRotate env m w = (False, w')"
  | (failed) e where "res = MintFailed e" "m' = m"
  | (minted) w1 w2 where "res = Rotated \<or> (\<exists>e. res = UpdateFailed e)" "fst (ShouldRotate env m w)" "snd (ShouldRotate env m w) = w1"
      "MintCertificate env m w1 = Some (Inr m', w2)"
  using assms unfolding rotation_tick_def
  by (cases "ShouldRotate env m w") (auto split: bool.splits bind_splits sum.splits)

subsection \<open>What is assumed of the libraries\<close>

text \<open>X.509 times are in whole seconds; a certificate carries the times and the CA flag of its template.\<close>

definition x509_documented :: "('w, 'key) pki_env \<Rightarrow> bool" where
  "x509_documented env \<longleftrightarrow>
     (\<forall>tmpl issuer key issuerKey w der w' cert.
        CreateCertificate env tmpl issuer key issuerKey w = (Inr der, w') \<longrightarrow> ParseCertificate env der = Inr cert \<longrightarrow>
        NotAfter cert = NotAfter tmpl div Second * Second \<and> IsCA cert = IsCA tmpl)"

text \<open>The API server hands out the object of the name it was asked for, and what was last written.\<close>

definition config_stored :: "('w, 'key) pki_env \<Rightarrow> bool" where
  "config_stored env \<longleftrightarrow>
     (\<forall>w name cfg. webhook_Get env w name = Inr cfg \<longrightarrow> mwc_Name cfg = name) \<and>
     (\<forall>w cfg w'. webhook_Update env cfg w = (Inr (), w') \<longrightarrow> webhook_Get env w' (mwc_Name cfg) = Inr cfg)"

text \<open>\<open>time w\<close> is the time in world \<open>w\<close>: it does not go back while a directory, a key or a
  certificate is made or the clock is read.\<close>

definition time_flows :: "('w, 'key) pki_env \<Rightarrow> ('w \<Rightarrow> gotime) \<Rightarrow> bool" where
  "time_flows env time \<longleftrightarrow>
     (\<forall>w t w'. clock env w = (t, w') \<longrightarrow> time w \<le> t \<and> t \<le> time w') \<and>
     (\<forall>dir w r w'. MkdirAll env dir w = (r, w') \<longrightarrow> time w \<le> time w') \<and>
     (\<forall>w r w'. GenerateKey env w = (r, w') \<longrightarrow> time w \<le> time w') \<and>
     (\<forall>tmpl issuer key issuerKey w r w'.
        CreateCertificate env tmpl issuer key issuerKey w = (r, w') \<longrightarrow> time w \<le> time w')"

lemma floor_second: "t - Second < t div Second * Second"
proof -
  have "t mod Second < Second" by (simp add: Second_def)
  moreover have "t div Second * Second + t mod Second = t" by simp
  ultimately show ?thesis by linarith
qed

lemma minted_expiry:
  assumes "x509_documented env" and "time_flows env time" and "MintCertificate env m w = Some (Inr m', w')"
  shows "time w + 24 * Hour - Second < certificateExpiry m'"
proof -
  from assms(3) obtain key s t u w1 w2 w3 w4 issuer issuerKey der w5 cert where
    c: "GenerateKey env w = (Inr key, w1)" "clock env w1 = (s, w2)" "clock env w2 = (t, w3)" "clock env w3 = (u, w4)"
    "CreateCertificate env (leaf_template m s t u) issuer key issuerKey w4 = (Inr der, w5)"
    "ParseCertificate env der = Inr cert" "m' = m\<lparr>certificateExpiry := NotAfter cert\<rparr>"
    by (rule MintCertificate_Inr)
  have "time w \<le> time w1" "time w1 \<le> s" "s \<le> time w2" "time w2 \<le> t" "t \<le> time w3" "time w3 \<le> u"
    using assms(2) c(1-4) unfolding time_flows_def by blast+
  moreover have "NotAfter cert = (u + 24 * Hour) div Second * Second"
    using assms(1) c(5,6) unfolding x509_documented_def by (metis leaf_template_def x509_Certificate.select_convs(5))
  ultimately show ?thesis using c(7) floor_second [of "u + 24 * Hour"] by simp
qed

lemma Sub_pos_iff: "0 < Sub t u \<longleftrightarrow> u < t"
  by (auto simp: Sub_def)

lemma ShouldRotate_False:
  assumes "time_flows env time" and "ShouldRotate env m w = (False, w')"
  shows "time w + 12 * Hour < certificateExpiry m"
proof -
  obtain now w1 where n: "clock env w = (now, w1)" by force
  have "time w \<le> now" using assms(1) n unfolding time_flows_def by blast
  moreover have "0 < Sub (certificateExpiry m) (now + 12 * Hour)"
    using assms(2) n by (auto simp: ShouldRotate_def Let_def not_le split: if_splits)
  ultimately show ?thesis unfolding Sub_pos_iff by linarith
qed

subsection \<open>Rotations\<close>

text \<open>The life of a started manager: ticks, and in between the world moves on.\<close>

inductive rotations ::
  "('w, 'key) pki_env \<Rightarrow> ('td, 'key) FinalizerWebhookManager \<times> 'w \<Rightarrow> ('td, 'key) FinalizerWebhookManager \<times> 'w \<Rightarrow> bool"
  for env where
  rotations_refl: "rotations env s s"
| rotations_tick: "rotations env s (m, w) \<Longrightarrow> rotation_tick env m w = Some (res, m', w') \<Longrightarrow> rotations env s (m', w')"
| rotations_elapse: "rotations env s (m, w) \<Longrightarrow> rotations env s (m, w')"

definition ca_of :: "('td, 'key) FinalizerWebhookManager \<Rightarrow> x509_Certificate option \<times> 'key option \<times> string" where
  "ca_of m = (caCert m, caKey m, currentCABundle m)"

lemma tick_ca: "rotation_tick env m w = Some (res, m', w') \<Longrightarrow> ca_of m' = ca_of m"
  by (erule rotation_tick_cases) (auto simp: ca_of_def dest: MintCertificate_keeps)

lemma rotations_ca: "rotations env s s' \<Longrightarrow> ca_of (fst s') = ca_of (fst s)"
  by (induction rule: rotations.induct) (auto dest: tick_ca)

lemma ShouldRotate_time: "time_flows env time \<Longrightarrow> time w \<le> time (snd (ShouldRotate env m w))"
  unfolding time_flows_def ShouldRotate_def
  by (auto simp: Let_def split: prod.splits intro: order_trans)

lemma tick_fresh:
  assumes "x509_documented env" and "time_flows env time" and "rotation_tick env m w = Some (res, m', w')"
  shows "(\<exists>e. res = MintFailed e) \<and> m' = m \<or> time w + 12 * Hour < certificateExpiry m'"
  using assms(3)
proof (cases rule: rotation_tick_cases)
  case kept
  then show ?thesis using ShouldRotate_False [OF assms(2)] by simp
next
  case (minted w1 w2)
  have "time w \<le> time w1" using ShouldRotate_time [OF assms(2)] minted(3) by metis
  moreover have "time w1 + 24 * Hour - Second < certificateExpiry m'"
    using minted_expiry [OF assms(1,2) minted(4)] .
  ultimately show ?thesis by (simp add: Hour_def Minute_def Second_def)
qed simp

lemma UpdateWebhookConfiguration_Inr:
  assumes "config_stored env" and "UpdateWebhookConfiguration env m w = Some (Inr (), w')"
  shows "\<exists>cfg. webhook_Get env w' (webhookName m) = Inr cfg \<and> list_all (\<lambda>h. CABundle h = currentCABundle m) (Webhooks cfg)"
proof -
  from assms(2) obtain cfg where get: "webhook_Get env w (webhookName m) = Inr cfg"
    and upd: "(if list_ex (\<lambda>h. CABundle h \<noteq> currentCABundle m) (Webhooks cfg)
       then io_call ''failed to update webhook'' (webhook_Update env
            (cfg\<lparr>Webhooks := map (\<lambda>h. if CABundle h \<noteq> currentCABundle m then h\<lparr>CABundle := currentCABundle m\<rparr> else h)
                                   (Webhooks cfg)\<rparr>))
       else io_return ()) w = Some (Inr (), w')"
    unfolding UpdateWebhookConfiguration_def by (auto simp: io_success)
  have name: "mwc_Name cfg = webhookName m" using assms(1) get unfolding config_stored_def by blast
  show ?thesis
  proof (cases "list_ex (\<lambda>h. CABundle h \<noteq> currentCABundle m) (Webhooks cfg)")
    case True
    let ?cfg = "cfg\<lparr>Webhooks := map (\<lambda>h. if CABundle h \<noteq> currentCABundle m then h\<lparr>CABundle := currentCABundle m\<rparr> else h)
                                   (Webhooks cfg)\<rparr>"
    have "webhook_Update env ?cfg w = (Inr (), w')" using upd True by (simp add: io_success)
    then have "webhook_Get env w' (mwc_Name ?cfg) = Inr ?cfg"
      using assms(1) unfolding config_stored_def by blast
    then show ?thesis using name by (auto simp: list_all_iff)
  next
    case False
    then show ?thesis using upd get by (auto simp: io_success list_ex_iff list_all_iff)
  qed
qed

subsection \<open>A sample environment\<close>

text \<open>Certificates that are the CA flag and the end in seconds, in binary; a world that is the time and one
  configuration.\<close>

fun ref_bits :: "nat \<Rightarrow> string" where
  "ref_bits n = (if n = 0 then [] else (if odd n then CHR ''1'' else CHR ''0'') # ref_bits (n div 2))"

fun ref_unbits :: "string \<Rightarrow> nat" where
  "ref_unbits [] = 0"
| "ref_unbits (c # s) = (if c = CHR ''1'' then 1 else 0) + 2 * ref_unbits s"

declare ref_bits.simps [simp del]

lemma ref_unbits_bits: "ref_unbits (ref_bits n) = n"
proof (induction n rule: less_induct)
  case (less n)
  show ?case
  proof (cases "n = 0")
    case False
    then have "ref_unbits (ref_bits (n div 2)) = n div 2" by (intro less) simp
    then show ?thesis using False by (subst ref_bits.simps) (auto simp: odd_two_times_div_two_succ)
  qed (simp add: ref_bits.simps)
qed

definition ref_cert :: "bool \<Rightarrow> int \<Rightarrow> x509_Certificate" where
  "ref_cert ca secs =
     \<lparr>SerialNumber = 0, CommonName = [], Organization = [], NotBefore = 0, NotAfter = secs * Second, KeyUsage = 0,
      ExtKeyUsage = [], BasicConstraintsValid = True, IsCA = ca, cert_DNSNames = []\<rparr>"

definition ref_ParseCertificate :: "string \<Rightarrow> go_error + x509_Certificate" where
  "ref_ParseCertificate der =
     (case der of
        c # d # s \<Rightarrow> Inr (ref_cert (c = CHR ''C'') ((if d = CHR ''-'' then - 1 else 1) * int (ref_unbits s)))
      | _ \<Rightarrow> Inl (Errs ''malformed certificate''))"

definition ref_pki :: "(int \<times> MutatingWebhookConfiguration, nat) pki_env" where
  "ref_pki =
     \<lparr>MkdirAll = (\<lambda>dir w. (Inr (), w)), GenerateKey = (\<lambda>w. (Inr 7, w)),
      CreateCertificate = (\<lambda>tmpl issuer key issuerKey w.
        (let secs = NotAfter tmpl div Second
         in (Inr ((if IsCA tmpl then CHR ''C'' else CHR ''L'') # (if secs < 0 then CHR ''-'' else CHR ''+'') #
                  ref_bits (nat \<bar>secs\<bar>)), w))),
      ParseCertificate = ref_ParseCertificate, MarshalPKCS8PrivateKey = (\<lambda>key. Inr ''key''),
      os_Create = (\<lambda>path w. (Inr (), w)), os_OpenFile = (\<lambda>path w. (Inr (), w)), file_Write = (\<lambda>path text w. (Inr (), w)),
      webhook_Get = (\<lambda>w name. if mwc_Name (snd w) = name then Inr (snd w) else Inl (Errs ''not found'')),
      webhook_Update = (\<lambda>cfg w. (Inr (), (fst w, cfg))), clock = (\<lambda>w. (fst w, (fst w + 1, snd w)))\<rparr>"

lemma ref_pki_x509: "x509_documented ref_pki"
  unfolding x509_documented_def ref_pki_def
  by (auto simp: ref_ParseCertificate_def ref_cert_def ref_unbits_bits Let_def split: if_splits)

lemma ref_pki_stored: "config_stored ref_pki"
  unfolding config_stored_def ref_pki_def by auto

lemma ref_pki_time: "time_flows ref_pki fst"
  unfolding time_flows_def ref_pki_def by (auto simp: Let_def)

definition ref_hooks :: MutatingWebhookConfiguration where
  "ref_hooks = \<lparr>mwc_Name = ''hook'', Webhooks = [\<lparr>mw_Name = ''h1'', CABundle = ''old''\<rparr>, \<lparr>mw_Name = ''h2'', CABundle = []\<rparr>]\<rparr>"

definition ref_webhook :: "(string, nat) FinalizerWebhookManager" where
  "ref_webhook = NewFinalizerWebhookManager ''a.org'' ''hook'' ''ns'' ''svc'' ''/tmp/c''"

definition ref_old_webhook :: "(string, nat) FinalizerWebhookManager" where
  "ref_old_webhook = ref_webhook\<lparr>caCert := Some (ref_cert True 5), caKey := Some 7, currentCABundle := ''ca'',
     certificateExpiry := 4 * Second\<rparr>"

lemmas io_defs = io_bind_def io_call_def io_wrap_def io_read_def io_deref_def io_return_def

lemma ref_old_tick:
  "rotation_tick ref_pki ref_old_webhook (10 * Second, ref_hooks) =
     Some (Rotated, ref_old_webhook\<lparr>certificateExpiry := 86410 * Second\<rparr>,
       (10 * Second + 4, ref_hooks\<lparr>Webhooks := map (CABundle_update (\<lambda>_. ''ca'')) (Webhooks ref_hooks)\<rparr>))"
  by (simp add: rotation_tick_def ShouldRotate_def MintCertificate_def UpdateWebhookConfiguration_def writeFiles_def
      ref_pki_def ref_old_webhook_def ref_webhook_def NewFinalizerWebhookManager_def ref_hooks_def io_defs zero_time_def
      ref_ParseCertificate_def ref_unbits_bits ref_cert_def leaf_template_def Sub_def Second_def Hour_def Minute_def Let_def)

lemma ref_started: "\<exists>m' w'. webhook_Start ref_pki ref_webhook (0, ref_hooks) = Some (Inr m', w')"
proof -
  have upd: "\<exists>w'. UpdateWebhookConfiguration ref_pki m (t, ref_hooks) = Some (Inr (), w')"
    if "webhookName m = ''hook''" for t and m :: "(string, nat) FinalizerWebhookManager"
    using that by (auto simp: UpdateWebhookConfiguration_def ref_pki_def ref_hooks_def io_defs)
  have mint: "\<exists>m' t'. MintCertificate ref_pki m (t, ref_hooks) = Some (Inr m', (t', ref_hooks)) \<and> webhookName m' = webhookName m"
    if "caCert m = Some c" "caKey m = Some k" for t m c k
    using that by (auto simp: MintCertificate_def writeFiles_def ref_pki_def io_defs ref_ParseCertificate_def Let_def)
  have "\<exists>m1 c k. generateCA ref_pki ref_webhook (0, ref_hooks) = Some (Inr m1, (2, ref_hooks)) \<and>
      caCert m1 = Some c \<and> caKey m1 = Some k \<and> webhookName m1 = ''hook''"
    by (auto simp: generateCA_def ref_pki_def io_defs ref_ParseCertificate_def Let_def ref_webhook_def NewFinalizerWebhookManager_def)
  then obtain m1 c k where m1: "generateCA ref_pki ref_webhook (0, ref_hooks) = Some (Inr m1, (2, ref_hooks))"
    "caCert m1 = Some c" "caKey m1 = Some k" "webhookName m1 = ''hook''" by blast
  from mint [OF m1(2,3)] obtain m2 t where
    m2: "MintCertificate ref_pki m1 (2, ref_hooks) = Some (Inr m2, (t, ref_hooks))" "webhookName m2 = ''hook''"
    using m1(4) by metis
  from upd [OF m2(2)] obtain w' where "UpdateWebhookConfiguration ref_pki m2 (t, ref_hooks) = Some (Inr (), w')" by blast
  moreover have "MkdirAll ref_pki dir v = (Inr (), v)" for dir v by (simp add: ref_pki_def)
  ultimately show ?thesis using m1(1) m2(1) by (simp add: webhook_Start_def io_success)
qed

subsection \<open>Properties\<close>

text \<open>C32: after a start without error the manager holds a CA certificate that is marked as a CA, the bundle
  it keeps is the PEM block of that certificate, every webhook of its configuration carries that
  bundle, and the serving certificate is valid for a day from the start, less the second its end
  is rounded down by.\<close>

theorem started_webhook_is_trusted:
  assumes "x509_documented env" and "config_stored env" and "time_flows env time"
    and "webhook_Start env m w = Some (Inr m', w')"
  shows "\<exists>der ca cfg. ParseCertificate env der = Inr ca \<and> IsCA ca \<and> caCert m' = Some ca \<and>
    currentCABundle m' = pem_Encode ''CERTIFICATE'' der \<and>
    webhook_Get env w' (webhookName m) = Inr cfg \<and> list_all (\<lambda>h. CABundle h = currentCABundle m') (Webhooks cfg) \<and>
    time w + 24 * Hour - Second < certificateExpiry m'"
proof -
  from assms(4) obtain w1 m1 w2 w3 where s: "MkdirAll env (certDir m) w = (Inr (), w1)" "generateCA env m w1 = Some (Inr m1, w2)"
    "MintCertificate env m1 w2 = Some (Inr m', w3)" "UpdateWebhookConfiguration env m' w3 = Some (Inr (), w')"
    unfolding webhook_Start_def by (auto simp: io_success)
  from s(2) obtain key t u w4 w5 w6 der ca where g:
    "GenerateKey env w1 = (Inr key, w4)" "clock env w4 = (t, w5)" "clock env w5 = (u, w6)"
    "CreateCertificate env (ca_template m t u) (ca_template m t u) key key w6 = (Inr der, w2)"
    "ParseCertificate env der = Inr ca"
    "m1 = m\<lparr>caCert := Some ca, caKey := Some key, currentCABundle := pem_Encode ''CERTIFICATE'' der\<rparr>"
    by (rule generateCA_Inr)
  have "time w \<le> time w1" "time w1 \<le> time w4" "time w4 \<le> t" "t \<le> time w5" "time w5 \<le> u" "u \<le> time w6" "time w6 \<le> time w2"
    using assms(3) s(1) g(1-4) unfolding time_flows_def by blast+
  then have "time w + 24 * Hour - Second < certificateExpiry m'"
    using minted_expiry [OF assms(1,3) s(3)] by linarith
  moreover have "IsCA ca" using assms(1) g(4,5) unfolding x509_documented_def by (metis ca_template_def x509_Certificate.select_convs(9))
  moreover note MintCertificate_keeps [OF s(3)]
  moreover from UpdateWebhookConfiguration_Inr [OF assms(2) s(4)] obtain cfg where
    "webhook_Get env w' (webhookName m') = Inr cfg" "list_all (\<lambda>h. CABundle h = currentCABundle m') (Webhooks cfg)" by blast
  ultimately show ?thesis using g(5,6) by auto
qed

theorem started_webhook_is_trusted_witness:
  "\<exists>m' w' der ca cfg. webhook_Start ref_pki ref_webhook (0, ref_hooks) = Some (Inr m', w') \<and>
     ParseCertificate ref_pki der = Inr ca \<and> IsCA ca \<and> caCert m' = Some ca \<and>
     currentCABundle m' = pem_Encode ''CERTIFICATE'' der \<and>
     webhook_Get ref_pki w' (webhookName ref_webhook) = Inr cfg \<and>
     list_all (\<lambda>h. CABundle h = currentCABundle m') (Webhooks cfg) \<and>
     fst (0 :: int, ref_hooks) + 24 * Hour - Second < certificateExpiry m'"
proof -
  obtain m' w' where "webhook_Start ref_pki ref_webhook (0, ref_hooks) = Some (Inr m', w')"
    using ref_started by blast
  with started_webhook_is_trusted [OF ref_pki_x509 ref_pki_stored ref_pki_time this] show ?thesis by blast
qed

text \<open>C33: a tick of the rotation loop either fails to mint, and then changes nothing of the manager, or leaves
  a serving certificate that is valid for more than twelve hours from the tick on.\<close>

theorem tick_leaves_fresh_certificate:
  assumes "x509_documented env" and "time_flows env time" and "rotation_tick env m w = Some (res, m', w')"
  shows "case res of MintFailed e \<Rightarrow> m' = m | _ \<Rightarrow> time w + 12 * Hour < certificateExpiry m'"
  using tick_fresh [OF assms] assms(3)
  by (elim rotation_tick_cases) (auto split: rotation.splits)

theorem tick_leaves_fresh_certificate_witness:
  "fst (10 * Second, ref_hooks) + 12 * Hour <
     certificateExpiry (ref_old_webhook\<lparr>certificateExpiry := 86410 * Second\<rparr>)"
  using tick_leaves_fresh_certificate [OF ref_pki_x509 ref_pki_time ref_old_tick] by (simp only: rotation.case)

text \<open>C40: however many ticks pass, the CA certificate, its key and the bundle in use are those of the start;
  once the CA has expired, a tick that rotates still issues a serving certificate under it, which
  is valid until after the CA's end.\<close>

theorem ca_is_never_rotated:
  assumes "x509_documented env" and "time_flows env time" and "rotations env (m, w) (m', w')"
    and "caCert m = Some ca" and "NotAfter ca \<le> time w'" and "rotation_tick env m' w' = Some (Rotated, m'', w'')"
  shows "caCert m'' = caCert m \<and> caKey m'' = caKey m \<and> currentCABundle m'' = currentCABundle m \<and>
    NotAfter ca + 12 * Hour < certificateExpiry m''"
proof -
  have "ca_of m'' = ca_of m" using rotations_ca [OF assms(3)] tick_ca [OF assms(6)] by simp
  then show ?thesis using tick_fresh [OF assms(1,2,6)] assms(5) by (auto simp: ca_of_def)
qed

theorem ca_is_never_rotated_witness:
  "NotAfter (ref_cert True 5) + 12 * Hour <
     certificateExpiry (ref_old_webhook\<lparr>certificateExpiry := 86410 * Second\<rparr>)"
proof -
  have "caCert ref_old_webhook = Some (ref_cert True 5)" by (simp add: ref_old_webhook_def)
  moreover have "NotAfter (ref_cert True 5) \<le> fst (10 * Second, ref_hooks)" by (simp add: ref_cert_def Second_def)
  ultimately show ?thesis
    using ca_is_never_rotated [OF ref_pki_x509 ref_pki_time rotations_refl _ _ ref_old_tick] by blast
qed

end
