(* ===== verification/Main_Program.thy ===== *)
theory Main_Program
  imports System Config Webhook_Manager
begin

text \<open>
  \<open>cmd/main.go\<close> as one run: the settings, the SPIRE client, the certificate directory, the webhook
  manager, the reconcilers, their registration with controller-runtime, \<open>mgr.Start\<close>, and how the
  program ends: \<open>os.Exit(1)\<close> skips the deferred calls, a return runs them, last deferred first.
  A run keeps the list of the calls it made. The calls into the libraries are the functions of
  \<open>program_env\<close>; \<open>mgr_Start\<close> is where the handlers of \<open>System\<close> run. Shown: the order of the calls on
  every run and what each way of ending leaves out, and that what is started is an installation as
  \<open>System\<close> assumes it, so that its results hold from the start of the process to its end.
\<close>

subsection \<open>Runs\<close>

datatype deferred_call = CloseClient | RemoveCertDir string | ShutdownClusters

datatype registration =
  Controller "string option" string
| FinalizerWebhook string
| HealthzCheck string
| ReadyzCheck string

datatype main_call =
  ReadSettings
| Dial string
| MkdirTemp string
| GetConfigOrDie
| NewKubernetesClient
| NewWebhookServer nat string string string
| NewCtrlManager Options
| SetupSignalHandler
| StartWebhookManager string string string string
| Sleep duration
| NewClusterManager
| SetupMainReconciler
| StartCleanupLoop
| GoRunSharedLoop
| Register registration
| StartManager
| Deferred deferred_call
| OsExit nat

text \<open>\<open>Blocked\<close>: a call that never returns.\<close>

datatype 'x outcome = Returned 'x | Exited nat | Panicked | Blocked

record ('w, 'k) process =
  p_world :: 'w
  p_calls :: "main_call list"
  p_deferred :: "deferred_call list"
  p_manager :: "'k Manager option"

type_synonym ('w, 'k, 'x) prog = "('w, 'k) process \<Rightarrow> 'x outcome \<times> ('w, 'k) process"

definition p_return :: "'x \<Rightarrow> ('w, 'k, 'x) prog" where
  "p_return x p = (Returned x, p)"

definition p_bind :: "('w, 'k, 'x) prog \<Rightarrow> ('x \<Rightarrow> ('w, 'k, 'y) prog) \<Rightarrow> ('w, 'k, 'y) prog" where
  "p_bind f g p =
     (case f p of
        (Returned x, p') \<Rightarrow> g x p'
      | (Exited n, p') \<Rightarrow> (Exited n, p')
      | (Panicked, p') \<Rightarrow> (Panicked, p')
      | (Blocked, p') \<Rightarrow> (Blocked, p'))"

text \<open>A call of a library: it is noted and changes the world. \<open>if err != nil { setupLog.Error(err, "m"); os.Exit(1) }\<close>
  ends the run.\<close>

definition perform :: "main_call \<Rightarrow> ('w \<Rightarrow> 'x \<times> 'w) \<Rightarrow> ('w, 'k, 'x) prog" where
  "perform q f p = (case f (p_world p) of (x, w) \<Rightarrow> (Returned x, p\<lparr>p_world := w, p_calls := p_calls p @ [q]\<rparr>))"

definition or_exit :: "('w, 'k, go_error + 'x) prog \<Rightarrow> ('w, 'k, 'x) prog" where
  "or_exit f = p_bind f (\<lambda>r p. case r of
     Inl err \<Rightarrow> (Exited 1, p\<lparr>p_calls := p_calls p @ [OsExit 1]\<rparr>)
   | Inr x \<Rightarrow> (Returned x, p))"

definition must :: "main_call \<Rightarrow> ('w \<Rightarrow> (go_error + 'x) \<times> 'w) \<Rightarrow> ('w, 'k, 'x) prog" where
  "must q f = or_exit (perform q f)"

definition defer_call :: "deferred_call \<Rightarrow> ('w, 'k, unit) prog" where
  "defer_call d p = (Returned (), p\<lparr>p_deferred := d # p_deferred p\<rparr>)"

subsection \<open>The libraries main calls\<close>

text \<open>
  \<open>ctrl_NewManager\<close> gives the client of the management cluster; \<open>NewSession\<close> is the creation of the
  AWS session in \<open>cluster.NewManager\<close>; \<open>mgr_Start\<close> runs the handlers and gives the state in which it
  returns, \<open>None\<close> when it does not.
\<close>

record ('id, 'td, 'w, 'k, 'key) program_env =
  pe_lib :: "('id, 'td) lib"
  pe_os :: os_env
  regexp_Compile :: "string \<Rightarrow> go_error + (string \<Rightarrow> bool)"
  grpc_Dial :: "string \<Rightarrow> 'w \<Rightarrow> (go_error + 'w entry_rpc) \<times> 'w"
  conn_Close :: "'w \<Rightarrow> 'w"
  os_MkdirTemp :: "string \<Rightarrow> 'w \<Rightarrow> (go_error + string) \<times> 'w"
  os_RemoveAll :: "string \<Rightarrow> 'w \<Rightarrow> 'w"
  GetConfig :: "'w \<Rightarrow> (go_error + unit) \<times> 'w"
  NewForConfig :: "'w \<Rightarrow> (go_error + unit) \<times> 'w"
  ctrl_NewManager :: "Options \<Rightarrow> 'w \<Rightarrow> (go_error + ('w, 'k) kube) \<times> 'w"
  pe_pki :: "('w, 'key) pki_env"
  time_Sleep :: "duration \<Rightarrow> 'w \<Rightarrow> 'w"
  NewSession :: "'w \<Rightarrow> go_error option \<times> 'w"
  pe_cluster :: "('w, 'k) cluster_env"
  pe_range_clusters :: "'w \<Rightarrow> (string \<times> 'k ClusterConnection) list \<Rightarrow> (string \<times> 'k ClusterConnection) list"
  pe_range_declared :: "'w \<Rightarrow> ('id, 'td) map_order"
  pe_range_current :: "'w \<Rightarrow> ('id, 'td) map_order"
  ctrl_Register :: "registration \<Rightarrow> 'w \<Rightarrow> (go_error + unit) \<times> 'w"
  mgr_Start :: "('id, 'td, 'w, 'k) MainReconciler \<Rightarrow> ('id, 'td, 'w, 'k) DeletionReconciler \<Rightarrow> ('w, 'k) system \<Rightarrow>
    (go_error option \<times> ('w, 'k) system) option"

subsection \<open>The parts of main\<close>

text \<open>\<open>NewClient\<close>: an empty target is out of range; the client is made from the connection.\<close>

definition connect_spire ::
  "('id, 'td, 'w, 'k, 'key) program_env \<Rightarrow> string \<Rightarrow> ('w, 'k, go_error + 'w entry_rpc) prog" where
  "connect_spire env target =
     (case dial_target target of
        None \<Rightarrow> (\<lambda>p. (Panicked, p))
      | Some t \<Rightarrow> perform (Dial t) (\<lambda>w. case grpc_Dial env t w of (r, w') \<Rightarrow> (wrap ''failed to dial SPIRE server'' r, w')))"

text \<open>From \<open>spireapi.NewClient\<close> to the Kubernetes client.\<close>

definition main_connect ::
  "('id, 'td, 'w, 'k, 'key) program_env \<Rightarrow> 'td settings \<Rightarrow> ('w, 'k, 'w entry_rpc \<times> string) prog" where
  "main_connect env s =
     p_bind (or_exit (connect_spire env (set_SocketPath s))) (\<lambda>conn.
     p_bind (defer_call CloseClient) (\<lambda>_.
     p_bind (must (MkdirTemp ''spire-controller-finalizer-'') (os_MkdirTemp env ''spire-controller-finalizer-'')) (\<lambda>certDir.
     p_bind (defer_call (RemoveCertDir certDir)) (\<lambda>_.
     p_bind (must GetConfigOrDie (GetConfig env)) (\<lambda>_.
     p_bind (must NewKubernetesClient (NewForConfig env)) (\<lambda>_.
     p_return (conn, certDir)))))))"

text \<open>The start of the webhook manager; a nil pointer in it would panic.\<close>

definition start_webhook ::
  "('id, 'td, 'w, 'k, 'key) program_env \<Rightarrow> ('td, 'key) FinalizerWebhookManager \<Rightarrow> ('w, 'k, go_error + unit) prog" where
  "start_webhook env m p =
     (let p1 = p\<lparr>p_calls := p_calls p @ [StartWebhookManager (webhookName m) (webhookNamespace m) (webhookService m) (certDir m)]\<rparr> in
      case webhook_Start (pe_pki env) m (p_world p) of
        None \<Rightarrow> (Panicked, p1)
      | Some (r, w) \<Rightarrow> (Returned (ebind r (\<lambda>_. Inr ())), p1\<lparr>p_world := w\<rparr>))"

text \<open>From the webhook server to the wait for the certificates.\<close>

definition main_webhook ::
  "('id, 'td, 'w, 'k, 'key) program_env \<Rightarrow> 'td settings \<Rightarrow> string \<Rightarrow> ('w, 'k, ('w, 'k) kube) prog" where
  "main_webhook env s dir =
     p_bind (perform (NewWebhookServer 9443 dir ''tls.crt'' ''tls.key'') (Pair ())) (\<lambda>_.
     p_bind (must GetConfigOrDie (GetConfig env)) (\<lambda>_.
     p_bind (must (NewCtrlManager (set_Options s)) (ctrl_NewManager env (set_Options s))) (\<lambda>mgr.
     p_bind (perform SetupSignalHandler (Pair ())) (\<lambda>_.
     p_bind (or_exit (start_webhook env (NewFinalizerWebhookManager (set_TrustDomain s)
         ''spire-controller-finalizer-webhook'' ''spire-system'' ''spire-controller-webhook-service'' dir))) (\<lambda>_.
     p_bind (perform (Sleep (5 * Second)) (\<lambda>w. ((), time_Sleep env (5 * Second) w))) (\<lambda>_.
     p_return mgr))))))"

definition main_reconciler ::
  "('id, 'td, 'w, 'k, 'key) program_env \<Rightarrow> 'td settings \<Rightarrow> 'w entry_rpc \<Rightarrow> ('w, 'k) kube \<Rightarrow> ('id, 'td, 'w, 'k) MainReconciler" where
  "main_reconciler env s conn mgr =
     \<lparr>mr_lib = pe_lib env, mr_kube = mgr, mr_env = pe_cluster env, TrustDomain = set_TrustDomain s,
      ClusterName = set_ClusterName s, IgnoreNamespaces = set_IgnoreNamespaces s, EntryIDPrefix = set_EntryIDPrefix s,
      GCInterval = set_GCInterval s, SPIREClient = NewClient (pe_lib env) conn,
      range_clusters = pe_range_clusters env, range_declared = pe_range_declared env, range_current = pe_range_current env\<rparr>"

definition main_deletion_reconciler ::
  "('id, 'td, 'w, 'k, 'key) program_env \<Rightarrow> 'w entry_rpc \<Rightarrow> ('w, 'k) kube \<Rightarrow> ('id, 'td, 'w, 'k) DeletionReconciler" where
  "main_deletion_reconciler env conn mgr = \<lparr>dr_kube = mgr, dr_SPIREClient = NewClient (pe_lib env) conn\<rparr>"

text \<open>From \<open>cluster.NewManager\<close> to the goroutine of the shared loop, which has not begun to run.\<close>

definition main_reconcilers ::
  "('id, 'td, 'w, 'k, 'key) program_env \<Rightarrow> 'td settings \<Rightarrow> ('w, 'k, reconciler) prog" where
  "main_reconcilers env s =
     p_bind (must NewClusterManager (\<lambda>w. case NewSession env w of (err, w') \<Rightarrow> (NewManager True err, w'))) (\<lambda>clusterManager.
     p_bind (defer_call ShutdownClusters) (\<lambda>_.
     p_bind (perform SetupMainReconciler (Pair (SetupWithManager (set_GCInterval s) clusterManager))) (\<lambda>(m, l).
     p_bind (\<lambda>p. (Returned (), p\<lparr>p_manager := Some m\<rparr>)) (\<lambda>_.
     p_bind (perform StartCleanupLoop (Pair ())) (\<lambda>_.
     p_bind (perform GoRunSharedLoop (Pair ())) (\<lambda>_.
     p_return l))))))"

text \<open>\<open>DeletionReconciler.SetupWithManager\<close>: the second controller is registered only if the first one was.\<close>

definition deletion_SetupWithManager ::
  "('id, 'td, 'w, 'k, 'key) program_env \<Rightarrow> ('w, 'k, go_error + unit) prog" where
  "deletion_SetupWithManager env =
     (let q1 = Controller (Some ''workloadidentity-finalizer'') ''WorkloadIdentity'';
          q2 = Controller (Some ''eksclusterregistry-finalizer'') ''EKSClusterRegistry'' in
      p_bind (perform (Register q1) (ctrl_Register env q1)) (\<lambda>r. case r of
        Inl err \<Rightarrow> p_return (Inl err)
      | Inr _ \<Rightarrow> perform (Register q2) (ctrl_Register env q2)))"

definition register_one ::
  "('id, 'td, 'w, 'k, 'key) program_env \<Rightarrow> registration \<Rightarrow> ('w, 'k, go_error + unit) prog" where
  "register_one env q = perform (Register q) (ctrl_Register env q)"

definition main_register :: "('id, 'td, 'w, 'k, 'key) program_env \<Rightarrow> ('w, 'k, unit) prog" where
  "main_register env =
     p_bind (or_exit (register_one env (Controller None ''EKSClusterRegistry''))) (\<lambda>_.
     p_bind (or_exit (register_one env (Controller None ''WorkloadIdentity''))) (\<lambda>_.
     p_bind (or_exit (deletion_SetupWithManager env)) (\<lambda>_.
     p_bind (or_exit (register_one env (FinalizerWebhook ''WorkloadIdentity''))) (\<lambda>_.
     p_bind (or_exit (register_one env (FinalizerWebhook ''EKSClusterRegistry''))) (\<lambda>_.
     p_bind (or_exit (register_one env (HealthzCheck ''healthz''))) (\<lambda>_.
     or_exit (register_one env (ReadyzCheck ''readyz''))))))))"

text \<open>\<open>mgr.Start\<close>, on the state the reconcilers share.\<close>

definition main_serve ::
  "('id, 'td, 'w, 'k, 'key) program_env \<Rightarrow> ('id, 'td, 'w, 'k) MainReconciler \<Rightarrow> ('id, 'td, 'w, 'k) DeletionReconciler \<Rightarrow>
   reconciler \<Rightarrow> ('w, 'k, go_error + unit) prog" where
  "main_serve env r dr l p =
     (let p1 = p\<lparr>p_calls := p_calls p @ [StartManager]\<rparr> in
      case p_manager p of
        None \<Rightarrow> (Panicked, p1)
      | Some m \<Rightarrow>
          (case mgr_Start env r dr \<lparr>loop = l, manager = m, world = p_world p\<rparr> of
             None \<Rightarrow> (Blocked, p1)
           | Some (err, s) \<Rightarrow>
               (Returned (case err of Some e \<Rightarrow> Inl e | None \<Rightarrow> Inr ()),
                p1\<lparr>p_world := world s, p_manager := Some (manager s)\<rparr>)))"

definition main_body ::
  "('id, 'td, 'w, 'k, 'key) program_env \<Rightarrow> string \<Rightarrow> bool \<Rightarrow> ('w, 'k, unit) prog" where
  "main_body env configFile expandEnv =
     p_bind (must ReadSettings (Pair (main_settings (pe_lib env) (pe_os env) (regexp_Compile env) configFile expandEnv))) (\<lambda>s.
     p_bind (main_connect env s) (\<lambda>(conn, dir).
     p_bind (main_webhook env s dir) (\<lambda>mgr.
     p_bind (main_reconcilers env s) (\<lambda>l.
     p_bind (main_register env) (\<lambda>_.
     or_exit (main_serve env (main_reconciler env s conn mgr) (main_deletion_reconciler env conn mgr) l))))))"

text \<open>The deferred calls; a panic in one of them does not keep the others from running.\<close>

fun run_deferred ::
  "('id, 'td, 'w, 'k, 'key) program_env \<Rightarrow> deferred_call list \<Rightarrow> unit outcome \<Rightarrow> ('w, 'k) process \<Rightarrow> unit outcome \<times> ('w, 'k) process" where
  "run_deferred env [] out p = (out, p)"
| "run_deferred env (d # ds) out p =
     (let p1 = p\<lparr>p_calls := p_calls p @ [Deferred d]\<rparr> in
      case d of
        CloseClient \<Rightarrow> run_deferred env ds out (p1\<lparr>p_world := conn_Close env (p_world p1)\<rparr>)
      | RemoveCertDir dir \<Rightarrow> run_deferred env ds out (p1\<lparr>p_world := os_RemoveAll env dir (p_world p1)\<rparr>)
      | ShutdownClusters \<Rightarrow>
          (case p_manager p1 of
             None \<Rightarrow> run_deferred env ds Panicked p1
           | Some m \<Rightarrow>
               (case Shutdown (pe_range_clusters env (p_world p1)) m of
                  None \<Rightarrow> run_deferred env ds Panicked p1
                | Some m' \<Rightarrow> run_deferred env ds out (p1\<lparr>p_manager := Some m'\<rparr>))))"

text \<open>The whole program: a return or a panic runs the deferred calls, \<open>os.Exit\<close> does not.\<close>

definition start_process :: "'w \<Rightarrow> ('w, 'k) process" where
  "start_process w = \<lparr>p_world = w, p_calls = [], p_deferred = [], p_manager = None\<rparr>"

definition main_program ::
  "('id, 'td, 'w, 'k, 'key) program_env \<Rightarrow> string \<Rightarrow> bool \<Rightarrow> 'w \<Rightarrow> unit outcome \<times> ('w, 'k) process" where
  "main_program env configFile expandEnv w =
     (case main_body env configFile expandEnv (start_process w) of
        (Returned _, p) \<Rightarrow> run_deferred env (p_deferred p) (Returned ()) p
      | (Panicked, p) \<Rightarrow> run_deferred env (p_deferred p) Panicked p
      | (Exited n, p) \<Rightarrow> (Exited n, p)
      | (Blocked, p) \<Rightarrow> (Blocked, p))"

subsection \<open>The calls of a run\<close>

text \<open>
  \<open>emits f qs ds\<close>: \<open>f\<close> returns after exactly the calls \<open>qs\<close> with the calls \<open>ds\<close> deferred, or the
  program exits with code 1 after the first of them that fails; it neither panics nor blocks.
\<close>

definition emits :: "('w, 'k, 'x) prog \<Rightarrow> main_call list \<Rightarrow> deferred_call list \<Rightarrow> bool" where
  "emits f qs ds \<longleftrightarrow>
     (\<forall>p. case f p of
        (Returned x, p') \<Rightarrow> p_calls p' = p_calls p @ qs \<and> p_deferred p' = ds @ p_deferred p
      | (Exited n, p') \<Rightarrow> n = 1 \<and> (\<exists>k. 0 < k \<and> k \<le> length qs \<and> p_calls p' = p_calls p @ take k qs @ [OsExit 1])
      | _ \<Rightarrow> False)"

named_theorems emits_intro \<open>the calls of the parts of the program\<close>

lemma emits_return [emits_intro]: "emits (p_return x) [] []"
  by (simp add: emits_def p_return_def)

lemma emits_defer [emits_intro]: "emits (defer_call d) [] [d]"
  by (simp add: emits_def defer_call_def)

lemma emits_perform [emits_intro]: "emits (perform q f) [q] []"
  by (simp add: emits_def perform_def split: prod.split)

lemma emits_bind [emits_intro]:
  assumes "emits f qs ds" and "\<And>x. emits (g x) qs' ds'"
  shows "emits (p_bind f g) (qs @ qs') (ds' @ ds)"
  unfolding emits_def
proof (intro allI)
  fix p
  note f = assms(1) [unfolded emits_def, rule_format, of p]
  obtain out p1 where fp: "f p = (out, p1)" by force
  show "case p_bind f g p of
      (Returned x, p') \<Rightarrow> p_calls p' = p_calls p @ qs @ qs' \<and> p_deferred p' = (ds' @ ds) @ p_deferred p
    | (Exited n, p') \<Rightarrow> n = 1 \<and> (\<exists>k. 0 < k \<and> k \<le> length (qs @ qs') \<and> p_calls p' = p_calls p @ take k (qs @ qs') @ [OsExit 1])
    | _ \<Rightarrow> False"
  proof (cases out)
    case (Returned x)
    note g = assms(2) [of x, unfolded emits_def, THEN spec, of p1]
    obtain out2 p2 where gp: "g x p1 = (out2, p2)" by force
    have eq: "p_bind f g p = (out2, p2)" using fp gp Returned by (simp add: p_bind_def)
    have p1: "p_calls p1 = p_calls p @ qs" "p_deferred p1 = ds @ p_deferred p" using f fp Returned by simp_all
    have take: "qs @ take k qs' = take (length qs + k) (qs @ qs')" for k by simp
    show ?thesis
    proof (cases out2)
      case (Exited n)
      then obtain k where "n = 1" "0 < k" "k \<le> length qs'" "p_calls p2 = p_calls p1 @ take k qs' @ [OsExit 1]" using g gp by auto
      then have "n = 1" "0 < length qs + k" "length qs + k \<le> length (qs @ qs')"
        "p_calls p2 = p_calls p @ take (length qs + k) (qs @ qs') @ [OsExit 1]"
        unfolding take [symmetric] p1 by simp_all
      then show ?thesis unfolding eq Exited prod.case outcome.case by blast
    qed (use g gp eq p1 in simp_all)
  next
    case (Exited n)
    then obtain k where k: "n = 1" "0 < k" "k \<le> length qs" "p_calls p1 = p_calls p @ take k qs @ [OsExit 1]" using f fp by auto
    then show ?thesis using fp Exited by (auto simp: p_bind_def intro!: exI [of _ k])
  qed (use f fp in simp_all)
qed

lemma emits_eq: "emits f qs ds \<Longrightarrow> qs = qs' \<Longrightarrow> ds = ds' \<Longrightarrow> emits f qs' ds'"
  by simp

lemma emits_or_exit:
  assumes "emits f qs ds" and "qs \<noteq> []"
  shows "emits (or_exit f) qs ds"
  unfolding emits_def
proof (intro allI)
  fix p
  note f = assms(1) [unfolded emits_def, rule_format, of p]
  obtain out p1 where fp: "f p = (out, p1)" by force
  have "\<exists>k. 0 < k \<and> k \<le> length qs \<and> qs = take k qs" using assms(2) by (intro exI [of _ "length qs"]) simp
  then show "case or_exit f p of
      (Returned x, p') \<Rightarrow> p_calls p' = p_calls p @ qs \<and> p_deferred p' = ds @ p_deferred p
    | (Exited n, p') \<Rightarrow> n = 1 \<and> (\<exists>k. 0 < k \<and> k \<le> length qs \<and> p_calls p' = p_calls p @ take k qs @ [OsExit 1])
    | _ \<Rightarrow> False"
    using f fp by (cases out) (auto simp: or_exit_def p_bind_def split: sum.splits)
qed

lemma emits_must [emits_intro]: "emits (must q f) [q] []" "emits (or_exit (perform q f)) [q] []"
  unfolding must_def by (rule emits_or_exit [OF emits_perform], simp)+

definition deletion_registrations :: "main_call list" where
  "deletion_registrations =
     [Register (Controller (Some ''workloadidentity-finalizer'') ''WorkloadIdentity''),
      Register (Controller (Some ''eksclusterregistry-finalizer'') ''EKSClusterRegistry'')]"

text \<open>An error of the first registration is returned early: the program then exits.\<close>

lemma emits_deletion [emits_intro]: "emits (or_exit (deletion_SetupWithManager env)) deletion_registrations []"
  unfolding emits_def or_exit_def p_bind_def deletion_SetupWithManager_def deletion_registrations_def
  by (auto simp: perform_def p_return_def Let_def split: prod.splits sum.splits outcome.splits
      intro: exI [of _ 1] exI [of _ 2])

lemma io_not_None [io_success]:
  "io_return x w \<noteq> None" "io_call m f w \<noteq> None" "io_read h w \<noteq> None" "io_wrap m g w \<noteq> None \<longleftrightarrow> g w \<noteq> None"
  "io_deref q w \<noteq> None \<longleftrightarrow> q \<noteq> None"
  by (simp_all add: io_return_def io_call_def io_read_def io_wrap_def io_deref_def case_prod_beta split: option.split)

lemma io_bind_not_None:
  "io_bind f g w \<noteq> None" if "f w \<noteq> None" and "\<And>x w'. f w = Some (Inr x, w') \<Longrightarrow> g x w' \<noteq> None"
  using that by (auto simp: io_bind_def split: option.split sum.split)

lemma webhook_Start_returns: "webhook_Start env m w \<noteq> None"
proof -
  have mint: "MintCertificate env m1 v \<noteq> None" if "caCert m1 \<noteq> None" "caKey m1 \<noteq> None" for m1 v
    unfolding MintCertificate_def writeFiles_def Let_def
    by (intro io_bind_not_None) (use that in \<open>simp_all only: io_success simp_thms\<close>)
  have gen: "generateCA env m v \<noteq> None" for v
    unfolding generateCA_def Let_def by (intro io_bind_not_None) (simp_all only: io_success simp_thms)
  have upd: "UpdateWebhookConfiguration env m1 v \<noteq> None" for m1 v
    unfolding UpdateWebhookConfiguration_def
    by (intro io_bind_not_None) (simp_all only: io_success simp_thms split: if_split)
  have ca: "caCert m1 \<noteq> None" "caKey m1 \<noteq> None" if "generateCA env m v = Some (Inr m1, v')" for m1 v v'
    using that by (auto elim: generateCA_Inr)
  show ?thesis
    unfolding webhook_Start_def
    using gen upd mint [OF ca]
    by (intro io_bind_not_None) (simp_all only: io_success io_not_None not_False_eq_True)
qed

lemma emits_start_webhook [emits_intro]:
  "emits (or_exit (start_webhook env m)) [StartWebhookManager (webhookName m) (webhookNamespace m) (webhookService m) (certDir m)] []"
  using webhook_Start_returns [of "pe_pki env" m]
  by (intro emits_or_exit) (auto simp: emits_def start_webhook_def Let_def split: option.splits)

subsection \<open>The plan of main\<close>

definition connect_plan :: "'td settings \<Rightarrow> main_call list" where
  "connect_plan s = [Dial (the (dial_target (set_SocketPath s))), MkdirTemp ''spire-controller-finalizer-'', GetConfigOrDie, NewKubernetesClient]"

definition webhook_plan :: "'td settings \<Rightarrow> string \<Rightarrow> main_call list" where
  "webhook_plan s dir =
     [NewWebhookServer 9443 dir ''tls.crt'' ''tls.key'', GetConfigOrDie, NewCtrlManager (set_Options s), SetupSignalHandler,
      StartWebhookManager ''spire-controller-finalizer-webhook'' ''spire-system'' ''spire-controller-webhook-service'' dir,
      Sleep (5 * Second)]"

definition reconcilers_plan :: "main_call list" where
  "reconcilers_plan = [NewClusterManager, SetupMainReconciler, StartCleanupLoop, GoRunSharedLoop]"

definition register_plan :: "main_call list" where
  "register_plan =
     [Register (Controller None ''EKSClusterRegistry''), Register (Controller None ''WorkloadIdentity'')] @
     deletion_registrations @
     [Register (FinalizerWebhook ''WorkloadIdentity''), Register (FinalizerWebhook ''EKSClusterRegistry''),
      Register (HealthzCheck ''healthz''), Register (ReadyzCheck ''readyz'')]"

text \<open>All calls of a run that gets through.\<close>

definition main_plan :: "'td settings \<Rightarrow> string \<Rightarrow> main_call list" where
  "main_plan s dir =
     ReadSettings # connect_plan s @ webhook_plan s dir @ reconcilers_plan @ register_plan @ [StartManager]"

lemma emits_webhook: "emits (main_webhook env s dir) (webhook_plan s dir) []"
  unfolding main_webhook_def webhook_plan_def
  by (rule emits_eq, (rule emits_intro)+) (simp_all add: NewFinalizerWebhookManager_def)

lemma emits_register: "emits (main_register env) register_plan []"
  unfolding main_register_def register_plan_def register_one_def by (rule emits_eq, (rule emits_intro)+) simp_all

lemma emits_store [emits_intro]: "emits (\<lambda>p. (Returned (), p\<lparr>p_manager := m\<rparr>)) [] []"
  by (simp add: emits_def)

lemma emits_reconcilers: "emits (main_reconcilers env s) reconcilers_plan [ShutdownClusters]"
  unfolding main_reconcilers_def reconcilers_plan_def case_prod_beta
  by (rule emits_eq, (rule emits_intro)+) simp_all

lemma p_bind_assoc: "p_bind (p_bind f g) h = p_bind f (\<lambda>x. p_bind (g x) h)"
  by (auto simp: p_bind_def fun_eq_iff split: prod.splits outcome.splits)

lemma p_bind_return [simp]: "p_bind (p_return x) g = g x"
  by (simp add: p_bind_def p_return_def fun_eq_iff)

text \<open>What a part of the program returns.\<close>

definition yields :: "('w, 'k, 'x) prog \<Rightarrow> 'x set \<Rightarrow> bool" where
  "yields f V \<longleftrightarrow> (\<forall>p x p'. f p = (Returned x, p') \<longrightarrow> x \<in> V)"

lemma yields_bind: "yields f V \<Longrightarrow> (\<And>x. x \<in> V \<Longrightarrow> yields (g x) V') \<Longrightarrow> yields (p_bind f g) V'"
  unfolding yields_def p_bind_def by (fastforce split: prod.splits outcome.splits)

lemma yields_must: "yields (must q h) {x. \<exists>w w'. h w = (Inr x, w')}"
  unfolding yields_def must_def or_exit_def p_bind_def perform_def
  by (fastforce split: prod.splits sum.splits)

lemma yields_mono: "yields f V \<Longrightarrow> V \<subseteq> V' \<Longrightarrow> yields f V'"
  by (auto simp: yields_def)

lemma yields_any: "yields f UNIV"
  by (simp add: yields_def)

lemma yields_return: "x \<in> V \<Longrightarrow> yields (p_return x) V"
  by (simp add: yields_def p_return_def)

text \<open>The certificate directory, whose removal is deferred, is known once it has been made.\<close>

lemma emits_bind_value:
  assumes "emits f qs ds" and "\<And>x. emits (g x) qs' (ds' x)" and "\<And>x. yields (g x) {x}"
  shows "case p_bind f g p of
      (Returned x, p') \<Rightarrow> p_calls p' = p_calls p @ qs @ qs' \<and> p_deferred p' = ds' x @ ds @ p_deferred p
    | (Exited n, p') \<Rightarrow> n = 1 \<and> (\<exists>k. 0 < k \<and> k \<le> length (qs @ qs') \<and> p_calls p' = p_calls p @ take k (qs @ qs') @ [OsExit 1])
    | _ \<Rightarrow> False"
proof -
  obtain x0 where same: "p_bind f g p = p_bind f (\<lambda>_. g x0) p" and x0: "p_bind f g p = (Returned x, p') \<Longrightarrow> x = x0" for x p'
  proof (cases "f p")
    case (Pair out p1)
    show thesis
    proof (cases out)
      case (Returned y)
      show thesis by (rule that [of y]) (use assms(3) [of y] Pair Returned in \<open>auto simp: p_bind_def yields_def\<close>)
    qed (use Pair that in \<open>simp_all add: p_bind_def\<close>)
  qed
  have "emits (p_bind f (\<lambda>_. g x0)) (qs @ qs') (ds' x0 @ ds)" by (rule emits_bind [OF assms(1,2)])
  from this [unfolded emits_def, THEN spec, of p] x0 show ?thesis
    unfolding same by (auto split: prod.splits outcome.splits)
qed

lemma main_connect_calls:
  assumes "dial_target (set_SocketPath s) \<noteq> None"
  shows "case main_connect env s p of
      (Returned (conn, dir), p') \<Rightarrow> p_calls p' = p_calls p @ connect_plan s \<and>
        p_deferred p' = [RemoveCertDir dir, CloseClient] @ p_deferred p
    | (Exited n, p') \<Rightarrow> n = 1 \<and> (\<exists>k. 0 < k \<and> k \<le> length (connect_plan s) \<and> p_calls p' = p_calls p @ take k (connect_plan s) @ [OsExit 1])
    | _ \<Rightarrow> False"
proof -
  obtain t where t: "dial_target (set_SocketPath s) = Some t" using assms by blast
  let ?f = "p_bind (or_exit (connect_spire env (set_SocketPath s))) (\<lambda>conn. p_bind (defer_call CloseClient) (\<lambda>_.
    p_bind (must (MkdirTemp ''spire-controller-finalizer-'') (os_MkdirTemp env ''spire-controller-finalizer-'')) (\<lambda>dir. p_return (conn, dir))))"
  let ?g = "\<lambda>x. p_bind (defer_call (RemoveCertDir (snd x))) (\<lambda>_. p_bind (must GetConfigOrDie (GetConfig env)) (\<lambda>_.
    p_bind (must NewKubernetesClient (NewForConfig env)) (\<lambda>_. p_return x)))"
  have eq: "main_connect env s = p_bind ?f ?g" by (simp add: main_connect_def p_bind_assoc)
  have 1: "emits ?f [Dial t, MkdirTemp ''spire-controller-finalizer-''] [CloseClient]"
    unfolding connect_spire_def t option.case by (rule emits_eq, (rule emits_intro)+) simp_all
  have 2: "emits (?g x) [GetConfigOrDie, NewKubernetesClient] [RemoveCertDir (snd x)]" for x
    by (rule emits_eq, (rule emits_intro)+) simp_all
  have 3: "yields (?g x) {x}" for x
    by (intro yields_bind [OF yields_any] yields_return) simp
  have "connect_plan s = [Dial t, MkdirTemp ''spire-controller-finalizer-''] @ [GetConfigOrDie, NewKubernetesClient]"
    by (simp add: connect_plan_def t)
  with emits_bind_value [OF 1 2 3, where p = p] show ?thesis
    unfolding eq by (cases "p_bind ?f ?g p"; cases "fst (p_bind ?f ?g p)") auto
qed

text \<open>What lies between the connection and \<open>mgr.Start\<close>.\<close>

definition main_prepare ::
  "('id, 'td, 'w, 'k, 'key) program_env \<Rightarrow> 'td settings \<Rightarrow> string \<Rightarrow> ('w, 'k, ('w, 'k) kube \<times> reconciler) prog" where
  "main_prepare env s dir =
     p_bind (main_webhook env s dir) (\<lambda>mgr. p_bind (main_reconcilers env s) (\<lambda>l.
       p_bind (main_register env) (\<lambda>_. p_return (mgr, l))))"

lemma main_body_parts:
  "main_body env configFile expandEnv =
     p_bind (must ReadSettings (Pair (main_settings (pe_lib env) (pe_os env) (regexp_Compile env) configFile expandEnv))) (\<lambda>s.
     p_bind (main_connect env s) (\<lambda>(conn, dir).
     p_bind (main_prepare env s dir) (\<lambda>(mgr, l).
     or_exit (main_serve env (main_reconciler env s conn mgr) (main_deletion_reconciler env conn mgr) l))))"
  by (simp add: main_body_def main_prepare_def p_bind_assoc case_prod_beta)

lemma emits_prepare: "emits (main_prepare env s dir) (webhook_plan s dir @ reconcilers_plan @ register_plan) [ShutdownClusters]"
  unfolding main_prepare_def
  by (rule emits_eq, (rule emits_intro emits_webhook emits_reconcilers emits_register)+) simp_all

subsection \<open>What the parts keep and what they return\<close>

definition keeps :: "(('w, 'k) process \<Rightarrow> 'o) \<Rightarrow> ('w, 'k, 'x) prog \<Rightarrow> bool" where
  "keeps v f \<longleftrightarrow> (\<forall>p. v (snd (f p)) = v p)"

named_theorems keeps_intro \<open>what the parts of the program leave unchanged\<close>

lemma keeps_bind [keeps_intro]: "keeps v f \<Longrightarrow> (\<And>x. keeps v (g x)) \<Longrightarrow> keeps v (p_bind f g)"
  unfolding keeps_def p_bind_def by (auto split: prod.split outcome.split) (metis snd_conv)+

lemma keeps_return [keeps_intro]: "keeps v (p_return x)"
  by (simp add: keeps_def p_return_def)

lemma keeps_case [keeps_intro]:
  "(\<And>e. keeps v (f e)) \<Longrightarrow> (\<And>x. keeps v (g x)) \<Longrightarrow> keeps v (case r of Inl e \<Rightarrow> f e | Inr x \<Rightarrow> g x)"
  by (simp split: sum.split)

abbreviation (input) on_server :: "('w \<Rightarrow> 'o) \<Rightarrow> ('w, 'k) process \<Rightarrow> 'o" where
  "on_server sv \<equiv> \<lambda>p. sv (p_world p)"

lemma keeps_manager [keeps_intro]: "keeps p_manager (perform q h)"
  by (simp add: keeps_def perform_def case_prod_beta)

lemma keeps_server [keeps_intro]:
  "(\<And>w. sv (snd (h w)) = sv w) \<Longrightarrow> keeps (on_server sv) (perform q h)"
  "keeps (on_server sv) (defer_call d)" "keeps (on_server sv) (\<lambda>p. (Returned (), p\<lparr>p_manager := m\<rparr>))"
  by (simp_all add: keeps_def perform_def defer_call_def case_prod_beta)

lemma keeps_or_exit [keeps_intro]:
  "keeps p_manager f \<Longrightarrow> keeps p_manager (or_exit f)" "keeps (on_server sv) f \<Longrightarrow> keeps (on_server sv) (or_exit f)"
  unfolding or_exit_def by (rule keeps_bind; auto simp: keeps_def split: sum.split)+

lemma keeps_must [keeps_intro]:
  "keeps p_manager (must q h)" "(\<And>w. sv (snd (h w)) = sv w) \<Longrightarrow> keeps (on_server sv) (must q h)"
  unfolding must_def by (rule keeps_intro | assumption)+

lemma keeps_register: "keeps p_manager (main_register env)"
  unfolding main_register_def register_one_def deletion_SetupWithManager_def Let_def
  by (rule keeps_intro)+

text \<open>The state that the reconcilers share is the one \<open>System\<close> starts from.\<close>

lemma main_reconcilers_state:
  assumes "main_reconcilers env s p = (Returned l, p')"
  shows "\<exists>m. main_start (set_GCInterval s) None = Inr (m, l) \<and> p_manager p' = Some m"
proof -
  have "\<exists>m0. NewManager True None = Inr m0 \<and> p_manager p' = Some (fst (SetupWithManager (set_GCInterval s) m0)) \<and>
      l = snd (SetupWithManager (set_GCInterval s) m0)"
    using assms unfolding main_reconcilers_def must_def or_exit_def p_bind_def perform_def defer_call_def p_return_def case_prod_beta
    by (auto simp: NewManager_def split: prod.splits sum.splits outcome.splits option.splits)
  then obtain m0 where "NewManager True None = Inr m0" "p_manager p' = Some (fst (SetupWithManager (set_GCInterval s) m0))"
    "l = snd (SetupWithManager (set_GCInterval s) m0)" by blast
  then show ?thesis by (simp add: main_start_def)
qed

lemma p_bind_Returned:
  "p_bind f g p = (Returned y, p') \<longleftrightarrow> (\<exists>x p1. f p = (Returned x, p1) \<and> g x p1 = (Returned y, p'))"
  by (auto simp: p_bind_def split: prod.splits outcome.splits)

lemma main_prepare_state:
  assumes "main_prepare env s dir p = (Returned (mgr, l), p')"
  shows "\<exists>m. main_start (set_GCInterval s) None = Inr (m, l) \<and> p_manager p' = Some m"
proof -
  from assms obtain p1 p2 where "main_reconcilers env s p1 = (Returned l, p2)" "main_register env p2 = (Returned (), p')"
    unfolding main_prepare_def by (auto simp: p_bind_Returned p_return_def)
  with main_reconcilers_state [of env s p1 l p2] keeps_register [of env] show ?thesis unfolding keeps_def by (metis snd_conv)
qed

subsection \<open>The runs\<close>

definition before_serving ::
  "('id, 'td, 'w, 'k, 'key) program_env \<Rightarrow> 'td settings \<Rightarrow> ('w, 'k, ('w entry_rpc \<times> string) \<times> ('w, 'k) kube \<times> reconciler) prog" where
  "before_serving env s =
     p_bind (main_connect env s) (\<lambda>c. p_bind (main_prepare env s (snd c)) (\<lambda>x. p_return (c, x)))"

lemma main_body_serving:
  "main_body env configFile expandEnv =
     p_bind (must ReadSettings (Pair (main_settings (pe_lib env) (pe_os env) (regexp_Compile env) configFile expandEnv))) (\<lambda>s.
     p_bind (before_serving env s) (\<lambda>((conn, dir), mgr, l).
     or_exit (main_serve env (main_reconciler env s conn mgr) (main_deletion_reconciler env conn mgr) l)))"
  by (simp add: main_body_parts before_serving_def p_bind_assoc split_def)

definition serving_plan :: "'td settings \<Rightarrow> string \<Rightarrow> main_call list" where
  "serving_plan s dir = connect_plan s @ webhook_plan s dir @ reconcilers_plan @ register_plan"

lemma before_serving_calls:
  assumes "dial_target (set_SocketPath s) \<noteq> None"
  shows "case before_serving env s p of
      (Returned ((conn, dir), mgr, l), p') \<Rightarrow> p_calls p' = p_calls p @ serving_plan s dir \<and>
        p_deferred p' = [ShutdownClusters, RemoveCertDir dir, CloseClient] @ p_deferred p \<and>
        (\<exists>m. main_start (set_GCInterval s) None = Inr (m, l) \<and> p_manager p' = Some m)
    | (Exited n, p') \<Rightarrow> n = 1 \<and> (\<exists>dir k. 0 < k \<and> k \<le> length (serving_plan s dir) \<and> p_calls p' = p_calls p @ take k (serving_plan s dir) @ [OsExit 1])
    | _ \<Rightarrow> False"
proof -
  note c = main_connect_calls [OF assms, where env = env and p = p]
  obtain out p1 where cp: "main_connect env s p = (out, p1)" by force
  show ?thesis
  proof (cases out)
    case (Returned x)
    obtain conn dir where x: "x = (conn, dir)" by force
    have p1: "p_calls p1 = p_calls p @ connect_plan s" "p_deferred p1 = [RemoveCertDir dir, CloseClient] @ p_deferred p"
      using c cp Returned x by simp_all
    obtain out2 p2 where pp: "main_prepare env s dir p1 = (out2, p2)" by force
    note e = emits_prepare [of env s dir, unfolded emits_def, THEN spec, of p1, unfolded pp prod.case]
    have eq: "before_serving env s p = (case out2 of Returned y \<Rightarrow> (Returned ((conn, dir), y), p2) | Exited n \<Rightarrow> (Exited n, p2)
        | Panicked \<Rightarrow> (Panicked, p2) | Blocked \<Rightarrow> (Blocked, p2))"
      using cp pp Returned x by (simp add: before_serving_def p_bind_def p_return_def split: outcome.split)
    show ?thesis
    proof (cases out2)
      case y: (Returned y)
      obtain mgr l where "y = (mgr, l)" by force
      with y e p1 eq main_prepare_state [of env s dir p1 mgr l p2] pp show ?thesis by (simp add: serving_plan_def)
    next
      case (Exited n)
      with e obtain k where k: "n = 1" "0 < k" "k \<le> length (webhook_plan s dir @ reconcilers_plan @ register_plan)"
        "p_calls p2 = p_calls p1 @ take k (webhook_plan s dir @ reconcilers_plan @ register_plan) @ [OsExit 1]" by auto
      have "n = 1 \<and> 0 < length (connect_plan s) + k \<and> length (connect_plan s) + k \<le> length (serving_plan s dir) \<and>
          p_calls p2 = p_calls p @ take (length (connect_plan s) + k) (serving_plan s dir) @ [OsExit 1]"
        using k by (simp add: p1 serving_plan_def)
      then show ?thesis unfolding eq Exited prod.case outcome.case by blast
    qed (use e in simp_all)
  next
    case (Exited n)
    with c cp obtain k where k: "n = 1" "0 < k" "k \<le> length (connect_plan s)" "p_calls p1 = p_calls p @ take k (connect_plan s) @ [OsExit 1]" by auto
    then have "0 < k \<and> k \<le> length (serving_plan s dir) \<and> p_calls p1 = p_calls p @ take k (serving_plan s dir) @ [OsExit 1]" for dir
      by (simp add: serving_plan_def)
    then show ?thesis using k(1) cp Exited unfolding before_serving_def p_bind_def by auto
  qed (use c cp in simp_all)
qed

lemma before_serving_yields:
  assumes "before_serving env s p = (Returned ((conn, dir), mgr, l), p')"
  shows "\<exists>t v v'. grpc_Dial env t v = (Inr conn, v')" "\<exists>v v'. ctrl_NewManager env (set_Options s) v = (Inr mgr, v')"
proof -
  from assms obtain p1 p2 p3 where "main_connect env s p = (Returned (conn, dir), p1)" "main_webhook env s dir p2 = (Returned mgr, p3)"
    unfolding before_serving_def main_prepare_def by (auto simp: p_bind_Returned p_return_def)
  moreover have "yields (main_connect env s) {(c, d). \<exists>t v v'. grpc_Dial env t v = (Inr c, v')}"
  proof (cases "dial_target (set_SocketPath s)")
    case (Some t)
    let ?V = "{c. \<exists>v v'. grpc_Dial env t v = (Inr c, v')}"
    have "{x. \<exists>w w'. (case grpc_Dial env t w of (r, w') \<Rightarrow> (wrap ''failed to dial SPIRE server'' r, w')) = (Inr x, w')} \<subseteq> ?V"
      by (clarsimp simp: case_prod_beta) (metis prod.collapse)
    then have "yields (or_exit (connect_spire env (set_SocketPath s))) ?V"
      unfolding connect_spire_def Some option.case must_def [symmetric] by (rule yields_mono [OF yields_must])
    then show ?thesis unfolding main_connect_def
      by (rule yields_bind, intro yields_bind [OF yields_any] yields_return) blast
  qed (simp add: yields_def main_connect_def connect_spire_def or_exit_def p_bind_def)
  moreover have "yields (main_webhook env s dir) {x. \<exists>v v'. ctrl_NewManager env (set_Options s) v = (Inr x, v')}"
    unfolding main_webhook_def
    by (rule yields_bind [OF yields_any], rule yields_bind [OF yields_any], rule yields_bind [OF yields_must],
        intro yields_bind [OF yields_any] yields_return)
  ultimately show "\<exists>t v v'. grpc_Dial env t v = (Inr conn, v')" "\<exists>v v'. ctrl_NewManager env (set_Options s) v = (Inr mgr, v')"
    unfolding yields_def by blast+
qed

text \<open>The ways \<open>main\<close> can go: exit before \<open>mgr.Start\<close>, or call it on the state the reconcilers share.\<close>

lemma main_body_cases:
  fixes env :: "('id, 'td, 'w, 'k, 'key) program_env"
  assumes "main_body env configFile expandEnv (start_process w) = (out, p)"
    and "main_settings (pe_lib env) (pe_os env) (regexp_Compile env) configFile expandEnv = Inr s"
  obtains (exited) dir k p0 where "before_serving env s p0 = (Exited 1, p)" "p_world p0 = w" "out = Exited 1"
      "1 < k" "k \<le> length (main_plan s dir)" "p_calls p = take k (main_plan s dir) @ [OsExit 1]"
  | (serving) conn dir mgr l m p0 p1 where "before_serving env s p0 = (Returned ((conn, dir), mgr, l), p1)" "p_world p0 = w"
      "p_calls p1 = ReadSettings # serving_plan s dir" "p_deferred p1 = [ShutdownClusters, RemoveCertDir dir, CloseClient]"
      "main_start (set_GCInterval s) None = Inr (m, l)" "p_manager p1 = Some m"
      "or_exit (main_serve env (main_reconciler env s conn mgr) (main_deletion_reconciler env conn mgr) l) p1 = (out, p)"
proof -
  define p0 :: "('w, 'k) process" where "p0 = (start_process w)\<lparr>p_calls := [ReadSettings]\<rparr>"
  have p0: "p_world p0 = w" "p_calls p0 = [ReadSettings]" "p_deferred p0 = []" by (simp_all add: p0_def start_process_def)
  have "must ReadSettings (Pair (Inr s)) (start_process w) = (Returned s, p0)"
    by (simp add: must_def or_exit_def p_bind_def perform_def p0_def start_process_def)
  then have body: "p_bind (before_serving env s) (\<lambda>((conn, dir), mgr, l).
      or_exit (main_serve env (main_reconciler env s conn mgr) (main_deletion_reconciler env conn mgr) l)) p0 = (out, p)"
    using assms unfolding main_body_serving by (simp add: p_bind_def)
  have "dial_target (set_SocketPath s) \<noteq> None" using settings_are_usable [OF assms(2)] by blast
  note c = before_serving_calls [OF this, where env = env and p = p0]
  obtain out1 p1 where bp: "before_serving env s p0 = (out1, p1)" by force
  show thesis
  proof (cases out1)
    case (Returned x)
    then obtain conn dir mgr l where x: "out1 = Returned ((conn, dir), mgr, l)" by (cases x) auto
    with c bp p0 obtain m where "main_start (set_GCInterval s) None = Inr (m, l)" "p_manager p1 = Some m" by auto
    with x c bp p0 body show thesis by (intro serving) (auto simp: p_bind_def)
  next
    case (Exited n)
    with c bp p0 obtain dir k where k: "n = 1" "0 < k" "k \<le> length (serving_plan s dir)"
      "p_calls p1 = ReadSettings # take k (serving_plan s dir) @ [OsExit 1]" by auto
    then have "ReadSettings # take k (serving_plan s dir) = take (Suc k) (main_plan s dir)"
      by (simp add: main_plan_def serving_plan_def)
    moreover have "Suc k \<le> length (main_plan s dir)" using k(3) by (simp add: main_plan_def serving_plan_def)
    ultimately show thesis using k bp body p0 Exited by (intro exited [of p0 "Suc k" dir]) (auto simp: p_bind_def)
  qed (use c bp in simp_all)
qed

lemma main_plan_serving: "main_plan s dir = ReadSettings # serving_plan s dir @ [StartManager]"
  by (simp add: main_plan_def serving_plan_def)

lemma main_serve_cases:
  assumes "or_exit (main_serve env r dr l) p = (out, p')" and "p_manager p = Some m"
  obtains (blocked) "mgr_Start env r dr \<lparr>loop = l, manager = m, world = p_world p\<rparr> = None" "out = Blocked"
      "p_calls p' = p_calls p @ [StartManager]" "p_world p' = p_world p"
  | (failed) e s where "mgr_Start env r dr \<lparr>loop = l, manager = m, world = p_world p\<rparr> = Some (Some e, s)" "out = Exited 1"
      "p_calls p' = p_calls p @ [StartManager, OsExit 1]" "p_world p' = world s"
  | (stopped) s where "mgr_Start env r dr \<lparr>loop = l, manager = m, world = p_world p\<rparr> = Some (None, s)" "out = Returned ()"
      "p_calls p' = p_calls p @ [StartManager]" "p_deferred p' = p_deferred p" "p_world p' = world s" "p_manager p' = Some (manager s)"
  using assms unfolding or_exit_def p_bind_def main_serve_def
  by (auto simp: Let_def split: option.splits prod.splits sum.splits)

lemma run_deferred_main:
  assumes "run_deferred env [ShutdownClusters, RemoveCertDir dir, CloseClient] (Returned ()) p = (out, p')"
    and "p_manager p = Some m"
  shows "p_calls p' = p_calls p @ map Deferred [ShutdownClusters, RemoveCertDir dir, CloseClient]"
    "p_world p' = conn_Close env (os_RemoveAll env dir (p_world p))"
    "case Shutdown (pe_range_clusters env (p_world p)) m of
       None \<Rightarrow> out = Panicked
     | Some m' \<Rightarrow> out = Returned () \<and> p_manager p' = Some m'"
  using assms by (auto simp: Let_def split: option.splits)

lemma main_program_run:
  assumes run: "main_program env configFile expandEnv w = (out, p)"
  shows "case main_settings (pe_lib env) (pe_os env) (regexp_Compile env) configFile expandEnv of
      Inl _ \<Rightarrow> out = Exited 1 \<and> p_calls p = [ReadSettings, OsExit 1]
    | Inr s \<Rightarrow> \<exists>dir.
        out = Exited 1 \<and> (\<exists>k. 1 < k \<and> k \<le> length (main_plan s dir) \<and> p_calls p = take k (main_plan s dir) @ [OsExit 1]) \<or>
        out = Blocked \<and> p_calls p = main_plan s dir \<or>
        out \<in> {Returned (), Panicked} \<and> p_calls p = main_plan s dir @ map Deferred [ShutdownClusters, RemoveCertDir dir, CloseClient]"
proof (cases "main_settings (pe_lib env) (pe_os env) (regexp_Compile env) configFile expandEnv")
  case (Inl e)
  then have "main_body env configFile expandEnv (start_process w) =
      (Exited 1, start_process w\<lparr>p_calls := [ReadSettings, OsExit 1]\<rparr>)"
    by (simp add: main_body_def must_def or_exit_def p_bind_def perform_def start_process_def)
  then show ?thesis using run Inl by (auto simp: main_program_def)
next
  case (Inr s)
  obtain out1 p1 where b: "main_body env configFile expandEnv (start_process w) = (out1, p1)" by force
  from b Inr show ?thesis
  proof (cases rule: main_body_cases)
    case (exited dir k p0)
    then have "out = Exited 1" "p_calls p = take k (main_plan s dir) @ [OsExit 1]" using run b by (auto simp: main_program_def)
    then show ?thesis unfolding Inr sum.case using exited(4,5) by blast
  next
    case (serving conn dir mgr l m p0 p2)
    note plan = main_plan_serving [of s dir]
    from serving(7,6) show ?thesis
    proof (cases rule: main_serve_cases)
      case blocked
      then have "out = Blocked" "p_calls p = main_plan s dir" using run b serving(3) plan by (simp_all add: main_program_def)
      then show ?thesis unfolding Inr sum.case by blast
    next
      case (failed e t)
      have "p_calls p1 = take (length (main_plan s dir)) (main_plan s dir) @ [OsExit 1]"
        using failed(3) serving(3) plan by simp
      then have "out = Exited 1" "1 < length (main_plan s dir)" "p_calls p = take (length (main_plan s dir)) (main_plan s dir) @ [OsExit 1]"
        using run b failed(2) plan by (simp_all add: main_program_def)
      then show ?thesis unfolding Inr sum.case using order_refl by blast
    next
      case (stopped t)
      have d: "run_deferred env [ShutdownClusters, RemoveCertDir dir, CloseClient] (Returned ()) p1 = (out, p)"
        using run b stopped(2,4) serving(4) by (simp add: main_program_def)
      note r = run_deferred_main [OF d stopped(6)]
      have "out \<in> {Returned (), Panicked}" using r(3) by (auto split: option.splits)
      moreover have "p_calls p = main_plan s dir @ map Deferred [ShutdownClusters, RemoveCertDir dir, CloseClient]"
        using r(1) stopped(3) serving(3) plan by simp
      ultimately show ?thesis unfolding Inr sum.case by blast
    qed
  qed
qed

subsection \<open>What is assumed of the libraries\<close>

text \<open>The server's table holds the messages of the entries \<open>es\<close>, one for each identifier.\<close>

definition table_of :: "('id, 'td) lib \<Rightarrow> ('w \<Rightarrow> api_Entry list) \<Rightarrow> 'w \<Rightarrow> ('id, 'td) Entry list \<Rightarrow> bool" where
  "table_of l sv w es \<longleftrightarrow> sv w = map (toAPIEntry l) es \<and> list_all (parsed_entry l) es \<and> distinct (map ID es)"

text \<open>\<open>sv\<close> is the table: the dialled service works on it as documented, the client of the management
  cluster and the informers leave it alone, and maps are visited completely.\<close>

definition program_documented :: "('id, 'td, 'w, 'k, 'key) program_env \<Rightarrow> ('w \<Rightarrow> api_Entry list) \<Rightarrow> bool" where
  "program_documented env sv \<longleftrightarrow>
     spiffe_documented (pe_lib env) \<and>
     (\<forall>t w conn w'. grpc_Dial env t w = (Inr conn, w') \<longrightarrow> server_documented conn sv) \<and>
     (\<forall>opt w mgr w'. ctrl_NewManager env opt w = (Inr mgr, w') \<longrightarrow>
        selectors_not_nil mgr \<and> status_writes_keep mgr sv \<and> object_writes_keep mgr sv) \<and>
     sync_keeps (pe_cluster env) sv \<and>
     (\<forall>w. visits (pe_range_clusters env w) \<and> visits (pe_range_declared env w) \<and> visits (pe_range_current env w))"

text \<open>The calls before and after \<open>mgr.Start\<close> leave the table alone.\<close>

definition pki_keeps :: "('w, 'key) pki_env \<Rightarrow> ('w \<Rightarrow> 'o) \<Rightarrow> bool" where
  "pki_keeps env f \<longleftrightarrow>
     (\<forall>d w. f (snd (MkdirAll env d w)) = f w) \<and> (\<forall>w. f (snd (GenerateKey env w)) = f w) \<and>
     (\<forall>a b k l w. f (snd (CreateCertificate env a b k l w)) = f w) \<and>
     (\<forall>n w. f (snd (os_Create env n w)) = f w) \<and> (\<forall>n w. f (snd (os_OpenFile env n w)) = f w) \<and>
     (\<forall>n t w. f (snd (file_Write env n t w)) = f w) \<and> (\<forall>c w. f (snd (webhook_Update env c w)) = f w) \<and>
     (\<forall>w. f (snd (clock env w)) = f w)"

definition setup_keeps :: "('id, 'td, 'w, 'k, 'key) program_env \<Rightarrow> ('w \<Rightarrow> 'o) \<Rightarrow> bool" where
  "setup_keeps env f \<longleftrightarrow>
     pki_keeps (pe_pki env) f \<and>
     (\<forall>t w. f (snd (grpc_Dial env t w)) = f w) \<and> (\<forall>w. f (conn_Close env w) = f w) \<and>
     (\<forall>t w. f (snd (os_MkdirTemp env t w)) = f w) \<and> (\<forall>d w. f (os_RemoveAll env d w) = f w) \<and>
     (\<forall>w. f (snd (GetConfig env w)) = f w) \<and> (\<forall>w. f (snd (NewForConfig env w)) = f w) \<and>
     (\<forall>opt w. f (snd (ctrl_NewManager env opt w)) = f w) \<and> (\<forall>d w. f (time_Sleep env d w) = f w) \<and>
     (\<forall>w. f (snd (NewSession env w)) = f w) \<and> (\<forall>q w. f (snd (ctrl_Register env q w)) = f w)"

text \<open>\<open>mgr.Start\<close> runs the handlers, next to others who use the server.\<close>

definition runs_handlers :: "('id, 'td, 'w, 'k, 'key) program_env \<Rightarrow> ('w \<Rightarrow> 'w \<Rightarrow> bool) \<Rightarrow> bool" where
  "runs_handlers env others \<longleftrightarrow>
     (\<forall>r dr s err s'. mgr_Start env r dr s = Some (err, s') \<longrightarrow> (sys_step r dr others)\<^sup>*\<^sup>* s s')"

definition others_keep :: "('id, 'td) lib \<Rightarrow> ('w \<Rightarrow> api_Entry list) \<Rightarrow> string \<Rightarrow> ('w \<Rightarrow> 'w \<Rightarrow> bool) \<Rightarrow> bool" where
  "others_keep l sv prefix others \<longleftrightarrow>
     (\<forall>w w' es. others w w' \<longrightarrow> table_of l sv w es \<longrightarrow>
        (\<exists>es'. table_of l sv w' es' \<and> (\<forall>e \<in> set es. \<not> HasPrefix (ID e) prefix \<longrightarrow> Hint e = [] \<longrightarrow> e \<in> set es')))"

lemma table_good:
  assumes "spiffe_documented l" and "server_documented conn sv"
  shows "spire_good (l, conn, sv) w \<longleftrightarrow> (\<exists>es. table_of l sv w es)"
  using assms by (simp add: spire_good_def table_of_def)

lemma table_view: "spiffe_documented l \<Longrightarrow> table_of l sv w es \<Longrightarrow> spire_view (l, conn, sv) w = by_id es"
  by (simp add: table_of_def view_of_entries)

lemma table_entry:
  assumes "spiffe_documented l" and "table_of l sv w es" and "spire_view (l, conn, sv) w (ID e) = Some e"
  shows "toAPIEntry l e \<in> set (sv w)"
proof -
  have "e \<in> set es" using assms(3) by_id_Some [of es] assms(2) unfolding table_view [OF assms(1,2)] by (simp add: table_of_def)
  then show ?thesis using assms(2) by (simp add: table_of_def)
qed

lemma keep_determined:
  assumes "\<And>w w'. f w' = f w \<Longrightarrow> g w' = g w"
  shows "status_writes_keep k f \<Longrightarrow> status_writes_keep k g" "object_writes_keep k f \<Longrightarrow> object_writes_keep k g"
    "sync_keeps env f \<Longrightarrow> sync_keeps env g"
  using assms unfolding status_writes_keep_def object_writes_keep_def sync_keeps_def by blast+

text \<open>What main starts is an installation.\<close>

lemma main_installs:
  assumes "program_documented env sv" and "others_keep (pe_lib env) sv (set_EntryIDPrefix s) others"
    and "before_serving env s p = (Returned ((conn, dir), mgr, l), p')"
  shows "installed (pe_lib env, conn, sv) (main_reconciler env s conn mgr) (main_deletion_reconciler env conn mgr) others"
proof -
  let ?c = "(pe_lib env, conn, sv)" and ?r = "main_reconciler env s conn mgr"
  have l: "spiffe_documented (pe_lib env)" using assms(1) by (simp add: program_documented_def)
  from before_serving_yields [OF assms(3)] assms(1) have d: "server_documented conn sv"
    and m: "selectors_not_nil mgr" "status_writes_keep mgr sv" "object_writes_keep mgr sv"
    unfolding program_documented_def by blast+
  have sv: "(spire_good ?c w', spire_view ?c w') = (spire_good ?c w, spire_view ?c w)" if "sv w' = sv w" for w w'
    using that by (simp add: spire_good_def spire_view_def)
  have o: "spire_good ?c w' \<and> keeping (foreign ?r) (spire_view ?c w) (spire_view ?c w')"
    if ow: "others w w'" "spire_good ?c w" for w w'
  proof -
    obtain es where es: "table_of (pe_lib env) sv w es" using ow(2) table_good [OF l d] by blast
    with assms(2) ow(1) obtain es' where es': "table_of (pe_lib env) sv w' es'"
      "\<And>e. e \<in> set es \<Longrightarrow> \<not> HasPrefix (ID e) (set_EntryIDPrefix s) \<Longrightarrow> Hint e = [] \<Longrightarrow> e \<in> set es'"
      unfolding others_keep_def by blast
    have "keeping (foreign ?r) (by_id es) (by_id es')"
      using es es' by_id_Some [of es] by_id_Some [of es']
      by (auto simp: keeping_def foreign_def managed_def main_reconciler_def table_of_def)
    then show ?thesis using es'(1) table_good [OF l d] unfolding table_view [OF l es] table_view [OF l es'(1)] by blast
  qed
  have env: "sync_keeps (pe_cluster env) sv" "\<And>w. visits (pe_range_clusters env w)" "\<And>w. visits (pe_range_declared env w)"
    "\<And>w. visits (pe_range_current env w)" using assms(1) unfolding program_documented_def by blast+
  have "sync_keeps (pe_cluster env) (\<lambda>w. (spire_good ?c w, spire_view ?c w))"
    "status_writes_keep mgr (\<lambda>w. (spire_good ?c w, spire_view ?c w))" "object_writes_keep mgr (\<lambda>w. (spire_good ?c w, spire_view ?c w))"
    by (rule keep_determined [where f = sv], erule sv, rule env m)+
  moreover have "SPIREClient ?r = spire_client ?c" "mr_lib ?r = pe_lib env" "mr_kube ?r = mgr" "mr_env ?r = pe_cluster env"
    "range_clusters ?r = pe_range_clusters env" "range_declared ?r = pe_range_declared env" "range_current ?r = pe_range_current env"
    "dr_SPIREClient (main_deletion_reconciler env conn mgr) = spire_client ?c" "dr_kube (main_deletion_reconciler env conn mgr) = mgr"
    by (simp_all add: main_reconciler_def main_deletion_reconciler_def spire_client_def)
  ultimately show ?thesis unfolding installed_def using m(1) env(2-4) o by (simp only:) simp
qed

text \<open>The setup leaves the table alone.\<close>

definition io_keeps :: "('w \<Rightarrow> 'o) \<Rightarrow> ('w, 'a) io \<Rightarrow> bool" where
  "io_keeps f g \<longleftrightarrow> (\<forall>w y w'. g w = Some (y, w') \<longrightarrow> f w' = f w)"

lemma io_keeps_intro:
  "io_keeps f g \<Longrightarrow> (\<And>x. io_keeps f (h x)) \<Longrightarrow> io_keeps f (io_bind g h)"
  "(\<And>w. f (snd (c w)) = f w) \<Longrightarrow> io_keeps f (io_call t c)" "(\<And>w. f (snd (d w)) = f w) \<Longrightarrow> io_keeps f (io_read d)"
  "io_keeps f k \<Longrightarrow> io_keeps f (io_wrap t k)" "io_keeps f (io_deref q)" "io_keeps f (io_return x)"
  "io_keeps f u \<Longrightarrow> io_keeps f v \<Longrightarrow> io_keeps f (if b then u else v)"
proof -
  show "io_keeps f (io_bind g h)" if "io_keeps f g" "\<And>x. io_keeps f (h x)"
    using that unfolding io_keeps_def io_bind_def by (fastforce split: option.splits sum.splits)
qed (auto simp: io_keeps_def io_call_def io_read_def io_wrap_def io_deref_def io_return_def case_prod_beta split: option.splits)

lemma webhook_Start_keeps: "pki_keeps env f \<Longrightarrow> io_keeps f (webhook_Start env m)"
  unfolding webhook_Start_def generateCA_def MintCertificate_def writeFiles_def UpdateWebhookConfiguration_def Let_def
  by (intro io_keeps_intro) (simp_all add: pki_keeps_def)

lemma start_webhook_keeps: "pki_keeps (pe_pki env) sv \<Longrightarrow> keeps (on_server sv) (start_webhook env m)"
  using webhook_Start_keeps [of "pe_pki env" sv m] unfolding keeps_def start_webhook_def io_keeps_def Let_def
  by (auto split: option.splits)

lemma before_serving_keeps:
  assumes "setup_keeps env sv"
  shows "keeps (on_server sv) (before_serving env s)"
proof -
  note k = assms [unfolded setup_keeps_def] and w = start_webhook_keeps [of env sv]
  have "keeps (on_server sv) (connect_spire env t)" for t
    using k by (auto simp: connect_spire_def keeps_def perform_def split: option.splits prod.splits) (metis snd_conv)+
  then have "keeps (on_server sv) (main_connect env s)"
    unfolding main_connect_def by (intro keeps_intro) (use k in simp_all)
  moreover have "keeps (on_server sv) (main_webhook env s dir)" for dir
    unfolding main_webhook_def by (intro keeps_intro w) (use k in simp_all)
  moreover have "keeps (on_server sv) (main_reconcilers env s)"
    unfolding main_reconcilers_def case_prod_beta by (intro keeps_intro) (use k in \<open>simp_all add: case_prod_beta\<close>)
  moreover have "keeps (on_server sv) (main_register env)"
    unfolding main_register_def register_one_def deletion_SetupWithManager_def Let_def
    by (intro keeps_intro) (use k in simp_all)
  ultimately show ?thesis unfolding before_serving_def main_prepare_def by (intro keeps_intro)
qed

subsection \<open>From the start of the process to its end\<close>

abbreviation (input) theirs :: "string \<Rightarrow> ('id, 'td) Entry \<Rightarrow> bool" where
  "theirs prefix e \<equiv> \<not> HasPrefix (ID e) prefix \<and> Hint e = []"

definition table_kept ::
  "('id, 'td) lib \<Rightarrow> ('w \<Rightarrow> api_Entry list) \<Rightarrow> string \<Rightarrow> ('id, 'td) Entry list \<Rightarrow> 'w \<Rightarrow> bool" where
  "table_kept l sv prefix es w \<longleftrightarrow> (\<exists>es'. table_of l sv w es' \<and> (\<forall>e \<in> set es. theirs prefix e \<longrightarrow> e \<in> set es'))"

lemma table_kept_same: "table_kept l sv prefix es w \<Longrightarrow> sv w' = sv w \<Longrightarrow> table_kept l sv prefix es w'"
  by (simp add: table_kept_def table_of_def)

text \<open>The handlers run on the state that main hands to the manager.\<close>

lemma handlers_keep_table:
  assumes "program_documented env sv" and "others_keep (pe_lib env) sv (set_EntryIDPrefix s) others"
    and "before_serving env s p0 = (Returned ((conn, dir), mgr, l), p1)" and "main_start (set_GCInterval s) None = Inr (m, l)"
    and "table_of (pe_lib env) sv (p_world p1) es"
    and "(sys_step (main_reconciler env s conn mgr) (main_deletion_reconciler env conn mgr) others)\<^sup>*\<^sup>*
      \<lparr>loop = l, manager = m, world = p_world p1\<rparr> t"
  shows "table_kept (pe_lib env) sv (set_EntryIDPrefix s) es (world t) \<and> wf_manager (manager t)"
proof -
  let ?c = "(pe_lib env, conn, sv)" and ?r = "main_reconciler env s conn mgr" and ?dr = "main_deletion_reconciler env conn mgr"
  note inst = main_installs [OF assms(1-3)]
  have l: "spiffe_documented (pe_lib env)" using assms(1) by (simp add: program_documented_def)
  have d: "server_documented conn sv" using before_serving_yields(1) [OF assms(3)] assms(1) unfolding program_documented_def by blast
  have "reachable ?r ?dr others (p_world p1) \<lparr>loop = l, manager = m, world = p_world p1\<rparr>"
    by (rule reach_start) (simp add: main_reconciler_def assms(4))
  with assms(6) have "reachable ?r ?dr others (p_world p1) t"
    by (induction rule: rtranclp_induct) (auto intro: reach_step)
  moreover have "spire_good ?c (p_world p1)" using assms(5) table_good [OF l d] by blast
  ultimately have i: "spire_good ?c (world t)" "keeping (foreign ?r) (by_id es) (spire_view ?c (world t))" "wf_manager (manager t)"
    using reachable_intact [OF _ inst, of "p_world p1" t] table_view [OF l assms(5), of conn] by (simp_all add: intact_def)
  then obtain es' where es': "table_of (pe_lib env) sv (world t) es'" using table_good [OF l d] by blast
  have "e \<in> set es'" if "e \<in> set es" "theirs (set_EntryIDPrefix s) e" for e
    using i(2) that by_id_Some [of es "ID e" e] by_id_Some [of es' "ID e" e] assms(5) es'
    unfolding table_view [OF l es'] by (auto simp: keeping_def foreign_def managed_def main_reconciler_def table_of_def)
  with es' i(3) show ?thesis unfolding table_kept_def by blast
qed

lemma main_program_end:
  assumes "main_settings (pe_lib env) (pe_os env) (regexp_Compile env) configFile expandEnv = Inr s"
    and "program_documented env sv" and "setup_keeps env sv" and "runs_handlers env others"
    and "others_keep (pe_lib env) sv (set_EntryIDPrefix s) others" and "table_of (pe_lib env) sv w es"
    and run: "main_program env configFile expandEnv w = (out, p)"
  shows "table_kept (pe_lib env) sv (set_EntryIDPrefix s) es (p_world p) \<and> out \<noteq> Panicked \<and>
    (out = Returned () \<longrightarrow> (\<exists>m. p_manager p = Some m \<and> clusters m = [] \<and> set (closedChs m) = {..<made m}))"
proof -
  let ?kept = "table_kept (pe_lib env) sv (set_EntryIDPrefix s) es"
  have start: "?kept w" using assms(6) unfolding table_kept_def by blast
  have same: "sv (p_world p2) = sv w" if "before_serving env s p0 = (o1, p2)" "p_world p0 = w" for p0 o1 p2
    using before_serving_keeps [OF assms(3), of s] that unfolding keeps_def by (metis snd_conv)
  obtain out1 p1 where b: "main_body env configFile expandEnv (start_process w) = (out1, p1)" by force
  from b assms(1) show ?thesis
  proof (cases rule: main_body_cases)
    case (exited dir k p0)
    have "out = Exited 1" "p = p1" using run b exited(3) by (simp_all add: main_program_def)
    then show ?thesis using table_kept_same [OF start same [OF exited(1,2)]] by simp
  next
    case (serving conn dir mgr l m p0 p2)
    have t: "table_of (pe_lib env) sv (p_world p2) es" using same [OF serving(1,2)] assms(6) by (simp add: table_of_def)
    have k: "?kept (world u) \<and> wf_manager (manager u)"
      if "mgr_Start env (main_reconciler env s conn mgr) (main_deletion_reconciler env conn mgr)
        \<lparr>loop = l, manager = m, world = p_world p2\<rparr> = Some (err, u)" for err u
      using that assms(4) unfolding runs_handlers_def by (intro handlers_keep_table [OF assms(2,5) serving(1,5) t]) blast
    from serving(7,6) show ?thesis
    proof (cases rule: main_serve_cases)
      case blocked
      then have "out = Blocked" "p = p1" using run b by (simp_all add: main_program_def)
      then show ?thesis using table_kept_same [OF start, of "p_world p1"] blocked(4) same [OF serving(1,2)] by simp
    next
      case (failed e u)
      then have "out = Exited 1" "p = p1" using run b by (simp_all add: main_program_def)
      then show ?thesis using k [OF failed(1)] failed(4) by simp
    next
      case (stopped u)
      have d: "run_deferred env [ShutdownClusters, RemoveCertDir dir, CloseClient] (Returned ()) p1 = (out, p)"
        using run b stopped(2,4) serving(4) by (simp add: main_program_def)
      note r = run_deferred_main [OF d stopped(6)]
      have v: "visits (pe_range_clusters env (p_world p1))" using assms(2) by (simp add: program_documented_def)
      from Shutdown_run [OF conjunct2 [OF k [OF stopped(1)]] v] obtain m' where
        m': "Shutdown (pe_range_clusters env (p_world p1)) (manager u) = Some m'" "clusters m' = []" "set (closedChs m') = {..<made m'}"
        by blast
      have "sv (p_world p) = sv (world u)" unfolding r(2) stopped(5) [symmetric] using assms(3) by (simp add: setup_keeps_def)
      then show ?thesis using table_kept_same conjunct1 [OF k [OF stopped(1)]] m' r(3) by auto
    qed
  qed
qed

subsection \<open>Properties\<close>




subsection \<open>The properties on a small program\<close>

text \<open>Every call succeeds; the manager runs one tick of the cleanup loop and stops.\<close>

definition ref_program_pki :: "(ref_world, nat) pki_env" where
  "ref_program_pki =
     \<lparr>MkdirAll = (\<lambda>dir w. (Inr (), w)), GenerateKey = (\<lambda>w. (Inr 7, w)),
      CreateCertificate = (\<lambda>tmpl issuer key issuerKey w. (Inr ''C+'', w)), ParseCertificate = ref_ParseCertificate,
      MarshalPKCS8PrivateKey = (\<lambda>key. Inr ''key''), os_Create = (\<lambda>path w. (Inr (), w)), os_OpenFile = (\<lambda>path w. (Inr (), w)),
      file_Write = (\<lambda>path text w. (Inr (), w)), webhook_Get = (\<lambda>w name. Inr \<lparr>mwc_Name = name, Webhooks = []\<rparr>),
      webhook_Update = (\<lambda>cfg w. (Inr (), w)), clock = (\<lambda>w. (0, w))\<rparr>"

definition ref_program :: "(string \<times> string, string, ref_world, unit, nat) program_env" where
  "ref_program =
     \<lparr>pe_lib = ref_lib, pe_os = ref_os, regexp_Compile = (\<lambda>p. Inr (\<lambda>ns. ns = p)), grpc_Dial = (\<lambda>t w. (Inr ref_rpc, w)),
      conn_Close = (\<lambda>w. w), os_MkdirTemp = (\<lambda>t w. (Inr (''/tmp/'' @ t), w)), os_RemoveAll = (\<lambda>d w. w), GetConfig = (\<lambda>w. (Inr (), w)),
      NewForConfig = (\<lambda>w. (Inr (), w)), ctrl_NewManager = (\<lambda>opt w. (Inr (ref_kube (Inr ref_node)), w)), pe_pki = ref_program_pki,
      time_Sleep = (\<lambda>d w. w), NewSession = (\<lambda>w. (None, w)), pe_cluster = ref_env, pe_range_clusters = (\<lambda>w m. m),
      pe_range_declared = (\<lambda>w m. m), pe_range_current = (\<lambda>w m. m), ctrl_Register = (\<lambda>q w. (Inr (), w)),
      mgr_Start = (\<lambda>r dr s. Some (None, s\<lparr>manager := cleanup_tick 0 (manager s)\<rparr>))\<rparr>"

lemma ref_program_simps:
  "pe_pki ref_program = ref_program_pki" "pe_lib ref_program = ref_lib" "grpc_Dial ref_program t w = (Inr ref_rpc, w)"
  "os_MkdirTemp ref_program n w = (Inr (''/tmp/'' @ n), w)" "GetConfig ref_program w = (Inr (), w)" "NewForConfig ref_program w = (Inr (), w)"
  "ctrl_NewManager ref_program opt w = (Inr (ref_kube (Inr ref_node)), w)" "time_Sleep ref_program d w = w" "NewSession ref_program w = (None, w)"
  "ctrl_Register ref_program q w = (Inr (), w)" "pe_range_clusters ref_program w = (\<lambda>m. m)"
  "mgr_Start ref_program r dr st = Some (None, st\<lparr>manager := cleanup_tick 0 (manager st)\<rparr>)"
  by (simp_all add: ref_program_def)

lemma ref_program_documented:
  "program_documented ref_program (\<lambda>w. w)" "setup_keeps ref_program (\<lambda>w. w)" "runs_handlers ref_program ref_others"
proof -
  have "selectors_not_nil (ref_kube (Inr ref_node))" "status_writes_keep (ref_kube (Inr ref_node)) (\<lambda>w. w)" "sync_keeps ref_env (\<lambda>w. w)"
    by (rule ref_documented)+
  moreover have "object_writes_keep (ref_kube (Inr ref_node)) (\<lambda>w. w)" by (simp add: object_writes_keep_def ref_kube_def)
  ultimately show "program_documented ref_program (\<lambda>w. w)"
    by (simp add: program_documented_def ref_program_def ref_spiffe_documented ref_server_documented)
  show "setup_keeps ref_program (\<lambda>w. w)"
    by (simp add: setup_keeps_def pki_keeps_def ref_program_def ref_program_pki_def)
  show "runs_handlers ref_program ref_others"
    by (auto simp: runs_handlers_def ref_program_def intro: r_into_rtranclp sys_cleanup)
qed

lemma ref_table: "table_of ref_lib (\<lambda>w. w) (ref_server h) [ref_tagged h]"
proof -
  have "FromString ref_lib ''spiffe://a.org/ns/shop'' = Inr (''a.org'', ''/ns/shop'')"
    "FromString ref_lib ''spiffe://a.org/agent'' = Inr (''a.org'', ''/agent'')" by (simp_all add: ref_library)
  then show ?thesis
    by (auto simp: table_of_def ref_server_def parsed_entry_def parsed_id_def ref_tagged_def ref_entry_def)
qed

lemma ref_others_keep: "others_keep ref_lib (\<lambda>w. w) prefix ref_others"
  unfolding others_keep_def
proof (intro allI impI)
  fix w w' :: ref_world and es
  assume "ref_others w w'" "table_of ref_lib (\<lambda>w. w) w es"
  then have "es = []" "table_of ref_lib (\<lambda>w. w) w' [ref_tagged []]" using ref_table [of "[]"] by (auto simp: ref_others_def table_of_def)
  then show "\<exists>es'. table_of ref_lib (\<lambda>w. w) w' es' \<and> (\<forall>e \<in> set es. \<not> HasPrefix (ID e) prefix \<longrightarrow> Hint e = [] \<longrightarrow> e \<in> set es')"
    by auto
qed

lemma ref_settings:
  "\<exists>s. main_settings (pe_lib ref_program) (pe_os ref_program) (regexp_Compile ref_program) ''config.yaml'' False = Inr s \<and>
     set_EntryIDPrefix s = ''eks-workload-'' \<and> set_SocketPath s = ''/run/spire/sockets/server.sock''"
  by (simp add: main_settings_def LoadOptionsFromFile_def loadFile_def resolve_settings_def parseIgnoreNamespaces_def
      ref_program_def ref_os_def ref_config_def ref_lib_def ref_TrustDomainFromString_def Let_def)

lemma ref_webhook_Start: "\<exists>m'. webhook_Start ref_program_pki m w = Some (Inr m', w)"
  by (auto simp: webhook_Start_def generateCA_def MintCertificate_def UpdateWebhookConfiguration_def writeFiles_def
      ref_program_pki_def io_defs ref_ParseCertificate_def Let_def)

lemma ref_program_returns: "\<exists>p. main_program ref_program ''config.yaml'' False w = (Returned (), p)"
proof -
  obtain s where s: "main_settings (pe_lib ref_program) (pe_os ref_program) (regexp_Compile ref_program) ''config.yaml'' False = Inr s"
    "set_SocketPath s = ''/run/spire/sockets/server.sock''" using ref_settings by blast
  have d: "dial_target (set_SocketPath s) = Some (''unix:///run/spire/sockets/server.sock'')" unfolding s(2) by (simp add: dial_target_def HasPrefix_def)
  obtain f where f: "webhook_Start ref_program_pki (m :: (string, nat) FinalizerWebhookManager) w = Some (Inr (f m w), w)" for m w
    using ref_webhook_Start by metis
  note steps = p_bind_def p_return_def perform_def or_exit_def must_def defer_call_def
  have c: "main_connect ref_program s p = (Returned (ref_rpc, ''/tmp/spire-controller-finalizer-''),
      p\<lparr>p_calls := p_calls p @ connect_plan s,
        p_deferred := [RemoveCertDir ''/tmp/spire-controller-finalizer-'', CloseClient] @ p_deferred p\<rparr>)" for p
    by (simp add: main_connect_def connect_spire_def steps d connect_plan_def ref_program_simps)
  have wh: "\<exists>p'. main_webhook ref_program s dir p = (Returned (ref_kube (Inr ref_node)), p') \<and> p_deferred p' = p_deferred p" for dir p
    by (simp add: main_webhook_def steps start_webhook_def f Let_def ref_program_simps)
  have r: "\<exists>p' m l. main_reconcilers ref_program s p = (Returned l, p') \<and> p_manager p' = Some m \<and> clusters m = [] \<and>
      p_deferred p' = ShutdownClusters # p_deferred p" for p
    by (simp add: main_reconcilers_def steps ref_program_simps NewManager_def SetupWithManager_def SetPodReconciler_def)
  have g: "\<exists>p'. main_register ref_program p = (Returned (), p') \<and> p_deferred p' = p_deferred p \<and> p_manager p' = p_manager p" for p
    by (simp add: main_register_def register_one_def deletion_SetupWithManager_def steps Let_def ref_program_simps)
  define p0 :: "(ref_world, unit) process" where "p0 = (start_process w)\<lparr>p_calls := [ReadSettings]\<rparr>"
  define dir where "dir = ''/tmp/spire-controller-finalizer-''"
  obtain conn where c1: "\<exists>p1. main_connect ref_program s p0 = (Returned (conn, dir), p1) \<and> p_deferred p1 = [RemoveCertDir dir, CloseClient]"
    using c [of p0] by (auto simp: p0_def start_process_def dir_def)
  then obtain p1 where p1: "main_connect ref_program s p0 = (Returned (conn, dir), p1)" "p_deferred p1 = [RemoveCertDir dir, CloseClient]" by blast
  obtain p2 where p2: "main_webhook ref_program s dir p1 = (Returned (ref_kube (Inr ref_node)), p2)" "p_deferred p2 = p_deferred p1"
    using wh by blast
  obtain p3 m l where p3: "main_reconcilers ref_program s p2 = (Returned l, p3)" "p_manager p3 = Some m" "clusters m = []"
    "p_deferred p3 = ShutdownClusters # p_deferred p2" using r by blast
  obtain p4 where p4: "main_register ref_program p3 = (Returned (), p4)" "p_deferred p4 = p_deferred p3" "p_manager p4 = p_manager p3"
    using g by blast
  let ?serve = "\<lambda>r dr. or_exit (main_serve ref_program r dr l) p4"
  have e: "\<exists>p5. ?serve r dr = (Returned (), p5) \<and> p_deferred p5 = p_deferred p4 \<and> p_manager p5 = Some (cleanup_tick 0 m)" for r dr
    by (simp add: or_exit_def p_bind_def main_serve_def p4(3) p3(2) ref_program_simps Let_def)
  have "must ReadSettings (Pair (Inr s)) (start_process w) = (Returned s, p0)" by (simp add: steps p0_def start_process_def)
  then have "\<exists>p5. main_body ref_program ''config.yaml'' False (start_process w) = (Returned (), p5) \<and>
      p_deferred p5 = [ShutdownClusters, RemoveCertDir dir, CloseClient] \<and> p_manager p5 = Some (cleanup_tick 0 m)"
    unfolding main_body_def s(1) using e p1 p2 p3(1,4) p4(1,2) by (simp add: p_bind_def)
  then show ?thesis by (auto simp: main_program_def ref_program_simps cleanup_tick_def Shutdown_def p3(3) Let_def)
qed



end
