(* ===== verification/Requests.thy ===== *)
theory Requests
  imports Safety
begin

text \<open>
  What the registrar asks of the SPIRE server when nothing is known about the server's answers: they
  may be errors, stale, or changed by other clients between two calls. A client is wrapped so that
  it records its calls; \<open>confined\<close> says which calls are allowed after which answers. Shown: every
  call of every handler is allowed, whatever the server answers. \<open>Interleaving\<close> concludes from this
  what handlers that run at the same time do to the server's table.
\<close>

subsection \<open>Recorded calls\<close>

datatype ('id, 'td) request =
  Listed "go_error + ('id, 'td) Entry list"
| Created "('id, 'td) Entry"
| Updated "('id, 'td) Entry"
| Deleted string
| DeletedAll "string list"

type_synonym ('id, 'td, 'w) recorded = "'w \<times> ('id, 'td) request list"

definition record_call :: "('x \<Rightarrow> ('id, 'td) request) \<Rightarrow> ('w \<Rightarrow> ('x \<times> 'w) option) \<Rightarrow>
    ('id, 'td, 'w) recorded \<Rightarrow> ('x \<times> ('id, 'td, 'w) recorded) option" where
  "record_call q call = (\<lambda>(w, l). map_option (\<lambda>(x, w'). (x, w', l @ [q x])) (call w))"

text \<open>The batch operations for creations and updates are called by no handler and are left as they are.\<close>

definition recording :: "('id, 'td, 'w) Client \<Rightarrow> ('id, 'td, ('id, 'td, 'w) recorded) Client" where
  "recording c =
     \<lparr>ListEntries = record_call Listed (ListEntries c),
      CreateEntry = (\<lambda>e. record_call (\<lambda>_. Created e) (CreateEntry c e)),
      UpdateEntry = (\<lambda>e. record_call (\<lambda>_. Updated e) (UpdateEntry c e)),
      DeleteEntry = (\<lambda>i. record_call (\<lambda>_. Deleted i) (DeleteEntry c i)),
      BatchCreateEntries = (\<lambda>es (w, l). map_option (\<lambda>(x, w'). (x, w', l)) (BatchCreateEntries c es w)),
      BatchUpdateEntries = (\<lambda>es (w, l). map_option (\<lambda>(x, w'). (x, w', l)) (BatchUpdateEntries c es w)),
      BatchDeleteEntries = (\<lambda>is. record_call (\<lambda>_. DeletedAll is) (BatchDeleteEntries c is))\<rparr>"

subsection \<open>Allowed calls\<close>

text \<open>The entries in the answers of a list of calls.\<close>

definition seen :: "('id, 'td) request list \<Rightarrow> ('id, 'td) Entry set" where
  "seen past = {e. \<exists>es. Listed (Inr es) \<in> set past \<and> e \<in> set es}"

text \<open>Creations and updates are of parsed entries under the prefix, updates of entries that were
  listed; deletions are of entries that were listed and are not foreign.\<close>

fun permitted :: "('id, 'td, 'w, 'k) MainReconciler \<Rightarrow> ('id, 'td) request list \<Rightarrow> ('id, 'td) request \<Rightarrow> bool" where
  "permitted r past (Listed x) \<longleftrightarrow> True"
| "permitted r past (Created e) \<longleftrightarrow> managed r (ID e) \<and> parsed_entry (mr_lib r) e"
| "permitted r past (Updated e) \<longleftrightarrow> managed r (ID e) \<and> parsed_entry (mr_lib r) e \<and> ID e \<in> ID ` seen past"
| "permitted r past (Deleted i) \<longleftrightarrow> i \<in> ID ` {x \<in> seen past. \<not> foreign r x}"
| "permitted r past (DeletedAll is) \<longleftrightarrow> set is \<subseteq> ID ` {x \<in> seen past. \<not> foreign r x}"

fun confined :: "('id, 'td, 'w, 'k) MainReconciler \<Rightarrow> ('id, 'td) request list \<Rightarrow> ('id, 'td) request list \<Rightarrow> bool" where
  "confined r past [] \<longleftrightarrow> True"
| "confined r past (q # qs) \<longleftrightarrow> permitted r past q \<and> confined r (past @ [q]) qs"

lemma seen_append [simp]: "seen (xs @ ys) = seen xs \<union> seen ys"
  by (auto simp: seen_def)

lemma seen_single [simp]: "seen [q] = (case q of Listed (Inr es) \<Rightarrow> set es | _ \<Rightarrow> {})"
  by (auto simp: seen_def split: request.split sum.split)

lemma seen_Nil [simp]: "seen [] = {}"
  by (simp add: seen_def)

lemma permitted_mono: "permitted r past q \<Longrightarrow> seen past \<subseteq> seen past' \<Longrightarrow> permitted r past' q"
  by (cases q) auto

lemma confined_append: "confined r past (xs @ ys) \<longleftrightarrow> confined r past xs \<and> confined r (past @ xs) ys"
  by (induction xs arbitrary: past) auto

lemma confined_mono: "confined r past qs \<Longrightarrow> seen past \<subseteq> seen past' \<Longrightarrow> confined r past' qs"
proof (induction qs arbitrary: past past')
  case (Cons q qs)
  have "confined r (past' @ [q]) qs"
    by (rule Cons.IH [of "past @ [q]"]) (use Cons.prems in auto)
  then show ?case using Cons.prems permitted_mono by auto
qed simp

lemma confined_concat: "(\<And>l. l \<in> set ls \<Longrightarrow> confined r [] l) \<Longrightarrow> confined r past (concat ls)"
  by (induction ls arbitrary: past) (auto simp: confined_append intro: confined_mono [of r "[]"])

text \<open>
  The calls since \<open>base\<close> are confined, and the entries \<open>S\<close> were listed by one of them.
\<close>

definition ok_since ::
  "('w \<Rightarrow> ('id, 'td) request list) \<Rightarrow> ('id, 'td, 'w, 'k) MainReconciler \<Rightarrow> ('id, 'td) request list \<Rightarrow>
   ('id, 'td) Entry set \<Rightarrow> 'w \<Rightarrow> bool" where
  "ok_since calls r base S w \<longleftrightarrow> (\<exists>new. calls w = base @ new \<and> confined r [] new \<and> S \<subseteq> seen new)"

lemma ok_start: "ok_since calls r (calls w) {} w"
  by (simp add: ok_since_def)

lemma ok_keep: "calls w' = calls w \<Longrightarrow> ok_since calls r base S w \<Longrightarrow> ok_since calls r base S w'"
  by (simp add: ok_since_def)

lemma ok_weaken: "ok_since calls r base S w \<Longrightarrow> S' \<subseteq> S \<Longrightarrow> ok_since calls r base S' w"
  by (auto simp: ok_since_def)

lemma ok_call:
  assumes "ok_since calls r base S w" and "calls w' = calls w @ [q]"
    and "\<And>past. S \<subseteq> seen past \<Longrightarrow> permitted r past q"
  shows "ok_since calls r base (S \<union> seen [q]) w'"
proof -
  obtain new where n: "calls w = base @ new" "confined r [] new" "S \<subseteq> seen new"
    using assms(1) by (auto simp: ok_since_def)
  have "calls w' = base @ (new @ [q])" "confined r [] (new @ [q])" "S \<union> seen [q] \<subseteq> seen (new @ [q])"
    using n assms(2) assms(3) [OF n(3)] by (auto simp: confined_append simp del: seen_single)
  then show ?thesis unfolding ok_since_def by blast
qed

lemma map_option_snd [simp]: "map_option snd x = Some w \<longleftrightarrow> (\<exists>a. x = Some (a, w))"
  by (cases x) auto

subsection \<open>The contract of a client whose calls are recorded\<close>

locale request_log =
  fixes client :: "'c \<Rightarrow> ('id, 'td, 'w) Client"
    and calls :: "'w \<Rightarrow> ('id, 'td) request list"
  assumes list_log: "ListEntries (client c) w = Some (x, w') \<Longrightarrow> calls w' = calls w @ [Listed x]"
    and create_log: "CreateEntry (client c) e w = Some (err, w') \<Longrightarrow> calls w' = calls w @ [Created e]"
    and update_log: "UpdateEntry (client c) e w = Some (err, w') \<Longrightarrow> calls w' = calls w @ [Updated e]"
    and delete_log: "DeleteEntry (client c) i w = Some (err, w') \<Longrightarrow> calls w' = calls w @ [Deleted i]"
    and batch_delete_log: "BatchDeleteEntries (client c) is w = Some (sts, w') \<Longrightarrow> calls w' = calls w @ [DeletedAll is]"
begin

lemma ok_list:
  assumes "ok_since calls r base S w" and "ListEntries (client c) w = Some (x, w')"
  shows "ok_since calls r base (S \<union> (case x of Inl _ \<Rightarrow> {} | Inr es \<Rightarrow> set es)) w'"
  using ok_call [OF assms(1) list_log [OF assms(2)]] by (cases x) auto

lemma ok_create:
  assumes "ok_since calls r base S w" and "CreateEntry (client c) e w = Some (err, w')"
    and "managed r (ID e)" and "parsed_entry (mr_lib r) e"
  shows "ok_since calls r base S w'"
  using ok_call [OF assms(1) create_log [OF assms(2)]] assms(3,4) by simp

lemma ok_update:
  assumes "ok_since calls r base S w" and "UpdateEntry (client c) e w = Some (err, w')"
    and "managed r (ID e)" and "parsed_entry (mr_lib r) e" and "ID e \<in> ID ` S"
  shows "ok_since calls r base S w'"
  using ok_call [OF assms(1) update_log [OF assms(2)]] assms(3-5) by auto

lemma ok_delete:
  assumes "ok_since calls r base S w" and "DeleteEntry (client c) (ID e) w = Some (err, w')"
    and "e \<in> S" and "\<not> foreign r e"
  shows "ok_since calls r base S w'"
  using ok_call [OF assms(1) delete_log [OF assms(2)]] assms(3,4) by auto

lemma ok_batch_delete:
  assumes "ok_since calls r base S w" and "BatchDeleteEntries (client c) (map ID es) w = Some (sts, w')"
    and "set es \<subseteq> S" and "\<And>e. e \<in> set es \<Longrightarrow> \<not> foreign r e"
  shows "ok_since calls r base S w'"
  using ok_call [OF assms(1) batch_delete_log [OF assms(2)]] assms(3,4) by fastforce

end

lemma record_call_Some:
  "record_call q call s = Some (x, s') \<Longrightarrow> snd s' = snd s @ [q x]"
  by (auto simp: record_call_def case_prod_beta)

interpretation recorder: request_log recording snd
  by unfold_locales (auto simp: recording_def dest: record_call_Some)

lemma find_Some_mem: "find P xs = Some y \<Longrightarrow> y \<in> set xs \<and> P y"
  by (induction xs) (auto split: if_splits)

subsection \<open>The full cycle\<close>

lemma processCluster_current:
  assumes "processCluster r w conn identities s = Some s'"
  shows "current s' = current s"
proof -
  have f: "current (fold (AddDeclared l) xs t) = current t" for l xs and t :: "('a, 'b) entriesState"
    by (induction xs arbitrary: t) simp_all
  show ?thesis
    by (rule for_each_inv [where P = "\<lambda>t. current t = current s", OF assms [unfolded processCluster_def]])
      (auto simp: processWorkloadIdentity_eq f split: bind_splits if_splits)
qed

lemma current_listed: "map_of (current (fold AddCurrent es (NewEntriesStateWithPrefix p))) i = Some e \<Longrightarrow> e \<in> set es"
  unfolding map_of_fold_AddCurrent by (auto dest: map_of_SomeD)

context request_log
begin

lemma apply_confined:
  fixes r :: "('id, 'td, 'w, 'k) MainReconciler"
  assumes "ok_since calls r base S w" and "SPIREClient r = client c" and t: "typed_state r s"
    and vis: "visits (range_declared r w)" "visits (range_current r w)"
    and cur: "\<And>i e. map_of (current s) i = Some e \<Longrightarrow> e \<in> S" and run: "applyEntryChanges r s w = Some w'"
  shows "ok_since calls r base S w'"
proof -
  let ?ch = "GetChanges (mr_lib r) (range_declared r w) (range_current r w) s" and ?P = "ok_since calls r base S"
  have wf: "wf_state (mr_lib r) s" using t by (simp add: typed_state_def)
  note mem = in_changes [OF wf vis]
  have man: "managed r (ID d) \<and> parsed_entry (mr_lib r) d" if "map_of (declared s) (ID d) = Some d" for d
    using wf_state_declared [OF wf that] that t by (metis managed_key typed_state_def)
  obtain w1 w2 where
    d: "for_each (\<lambda>e w. map_option snd (DeleteEntry (client c) (ID e) w)) (deletes ?ch) w = Some w1" and
    cr: "for_each (\<lambda>e w. map_option snd (CreateEntry (client c) e w)) (creates ?ch) w1 = Some w2" and
    u: "for_each (\<lambda>e w. map_option snd (UpdateEntry (client c) e w)) (updates ?ch) w2 = Some w'"
    using run assms(2) by (auto simp: applyEntryChanges_def case_prod_beta split: bind_splits)
  have "?P w1"
  proof (rule for_each_inv [where P = ?P, OF d assms(1)])
    fix e v v' assume e: "e \<in> set (deletes ?ch)" and v: "?P v" "map_option snd (DeleteEntry (client c) (ID e) v) = Some v'"
    have "e \<in> S" "managed r (ID e)" using e cur t by (auto simp: mem typed_state_def)
    then show "?P v'" using v ok_delete [OF v(1)] by (auto simp: foreign_def)
  qed
  then have "?P w2"
  proof (rule for_each_inv [where P = ?P, OF cr])
    fix e v v' assume "e \<in> set (creates ?ch)" "?P v" "map_option snd (CreateEntry (client c) e v) = Some v'"
    then show "?P v'" using man [of e] by (auto simp: mem intro: ok_create)
  qed
  then show "?P w'"
  proof (rule for_each_inv [where P = ?P, OF u])
    fix e v v' assume e: "e \<in> set (updates ?ch)" and v: "?P v" "map_option snd (UpdateEntry (client c) e v) = Some v'"
    obtain x where "map_of (current s) (ID e) = Some x" using e by (auto simp: mem)
    then have "ID x = ID e" "x \<in> S" using cur wf_state_current [OF wf] by blast+
    then have "ID e \<in> ID ` S" by (metis image_eqI)
    then show "?P v'" using e v man [of e] by (auto simp: mem intro: ok_update)
  qed
qed

lemma cycle_confined:
  fixes r :: "('id, 'td, 'w, 'k) MainReconciler"
  assumes "SPIREClient r = client c" and "selectors_not_nil (mr_kube r)"
    and keep: "status_writes_keep (mr_kube r) calls" "sync_keeps (mr_env r) calls"
    and vis: "\<And>w. visits (range_declared r w)" "\<And>w. visits (range_current r w)"
    and run: "reconcileAll r (m, w) = Some (m', w')"
  shows "ok_since calls r (calls w) {} w'"
proof (cases "list_clusters (mr_kube r) w")
  case (Inl e)
  then show ?thesis using run ok_start by (auto simp: reconcileAll_def)
next
  case (Inr cls)
  then obtain m1 w1 where s: "syncConnections r cls (m, w) = Some (m1, w1)"
    using run by (auto simp: reconcileAll_def split: bind_splits)
  have 1: "ok_since calls r (calls w) {} w1"
    using syncConnections_keeps [OF keep(2) s] by (intro ok_keep [OF _ ok_start])
  show ?thesis
  proof (cases "list_identities (mr_kube r) w1")
    case (Inl e)
    then show ?thesis using run Inr s 1 by (simp add: reconcileAll_def)
  next
    case ids: (Inr identities)
    then obtain x w2 where l: "ListEntries (client c) w1 = Some (x, w2)"
      using run Inr s assms(1) by (auto simp: reconcileAll_def split: bind_splits)
    note 2 = ok_list [OF 1 l]
    show ?thesis
    proof (cases x)
      case (Inl e)
      then show ?thesis using run Inr s ids l assms(1) 2 by (simp add: reconcileAll_def)
    next
      case es: (Inr es)
      then have re: "reconcileEntries r cls identities es m1 w2 = Some w'"
        using run Inr s ids l assms(1) by (auto simp: reconcileAll_def split: bind_splits)
      let ?conns = "GetAllConnections (range_clusters r w2) m1"
      let ?init = "fold AddCurrent (filter (shouldProcessEntry r) es) (NewEntriesStateWithPrefix (EntryIDPrefix r)) :: ('id, 'td) entriesState"
      obtain st w3 where st: "for_each (\<lambda>conn. processCluster r w2 conn identities) ?conns ?init = Some st"
        and ap: "applyEntryChanges r st w2 = Some w3" and up: "updateStatuses r m1 identities cls st w3 = Some w'"
        using re by (auto simp: reconcileEntries_def Let_def split: bind_splits)
      have t: "typed_state r st"
        by (rule for_each_inv [where P = "typed_state r", OF st typed_current]) (rule typed_processCluster)
      have "current st = current ?init"
        by (rule for_each_inv [where P = "\<lambda>t. current t = current ?init", OF st]) (auto dest: processCluster_current)
      then have "ok_since calls r (calls w) (set es) w3"
        using 2 es current_listed by (intro apply_confined [OF _ assms(1) t vis _ ap]) fastforce+
      moreover have "calls w' = calls w3" using updateStatuses_keeps [OF assms(2) keep(1)] up by (metis option.inject)
      ultimately show ?thesis by (auto intro: ok_keep ok_weaken)
    qed
  qed
qed

subsection \<open>The targeted handlers\<close>

lemma pod_entry_confined:
  assumes "ok_since calls r base S w" and "SPIREClient r = client c"
    and run: "reconcilePodEntry r pod node identity cluster w = Some w'"
  shows "ok_since calls r base S w'"
proof (cases "RenderEntry (mr_lib r) identity cluster pod node (TrustDomain_String (mr_lib r) (TrustDomain r))")
  case (Inl err)
  then show ?thesis using run assms(1) by (simp add: reconcilePodEntry_def)
next
  case (Inr e0)
  define e where "e = e0\<lparr>ID := EntryIDPrefix r @ makeEntryKey (mr_lib r) e0\<rparr>"
  have e: "parsed_entry (mr_lib r) e" "managed r (ID e)" unfolding e_def using RenderEntry_parsed [OF Inr] by simp_all
  obtain x w1 where l: "ListEntries (client c) w = Some (x, w1)"
    using run Inr assms(2) by (auto simp: reconcilePodEntry_def Let_def split: bind_splits)
  let ?es = "case x of Inl _ \<Rightarrow> [] | Inr es \<Rightarrow> es"
  have 1: "ok_since calls r base (S \<union> set ?es) w1"
    using ok_list [OF assms(1) l] by (cases x) simp_all
  have eid: "e0\<lparr>ID := if EntryIDPrefix r \<noteq> [] then EntryIDPrefix r @ makeEntryKey (mr_lib r) e0 else makeEntryKey (mr_lib r) e0\<rparr> = e"
    by (simp add: e_def)
  have rest: "(case find (\<lambda>x. ID x = ID e) ?es of
      None \<Rightarrow> map_option snd (CreateEntry (client c) e w1)
    | Some x \<Rightarrow> if length (getOutdatedEntryFields (mr_lib r) e x) > 0
        then map_option snd (UpdateEntry (client c) (e\<lparr>ID := ID x\<rparr>) w1) else Some w1) = Some w'"
    using run l unfolding reconcilePodEntry_def Inr assms(2) sum.case Let_def eid by simp
  show ?thesis
  proof (cases "find (\<lambda>x. ID x = ID e) ?es")
    case None
    then show ?thesis using rest ok_create [OF 1 _ e(2,1)] by (auto intro: ok_weaken)
  next
    case (Some y)
    from find_Some_mem [OF Some] have y: "y \<in> set ?es" "ID y = ID e" by blast+
    have upd: "e\<lparr>ID := ID y\<rparr> = e" "ID e \<in> ID ` (S \<union> set ?es)"
      by (simp add: y(2)) (rule image_eqI [where f = ID and x = y], rule y(2) [symmetric], rule UnI2, rule y(1))
    show ?thesis using rest Some 1 ok_update [OF 1 _ e(2,1) upd(2)] upd(1) by (auto split: if_splits intro: ok_weaken)
  qed
qed

lemma delete_where_confined:
  assumes "ok_since calls r base S w" and "SPIREClient r = client c" and "\<And>e. foreign r e \<Longrightarrow> \<not> P e"
    and run: "deleteWhere r P w = Some w'"
  shows "ok_since calls r base S w'"
proof -
  obtain x w1 where l: "ListEntries (client c) w = Some (x, w1)"
    using run assms(2) by (auto simp: deleteWhere_def split: bind_splits)
  show ?thesis
  proof (cases x)
    case (Inl err)
    then show ?thesis using run l assms(2) ok_list [OF assms(1) l] by (simp add: deleteWhere_def)
  next
    case (Inr es)
    have d: "for_each (\<lambda>e. (\<lambda>w. map_option snd (DeleteEntry (client c) (ID e) w))) (filter P es) w1 = Some w'"
      using run l Inr assms(2) by (simp add: deleteWhere_def for_each_if)
    have "ok_since calls r base (S \<union> set es) w'"
      by (rule for_each_inv [where P = "ok_since calls r base (S \<union> set es)", OF d])
        (use ok_list [OF assms(1) l] Inr assms(3) in \<open>auto dest: ok_delete\<close>)
    then show ?thesis by (rule ok_weaken) simp
  qed
qed

lemma reconcile_pods_confined:
  assumes "ok_since calls r base S w" and "SPIREClient r = client c"
    and run: "reconcilePods r conn identity cluster pods w = Some w'"
  shows "ok_since calls r base S w'"
  by (rule for_each_inv [where P = "ok_since calls r base S", OF run [unfolded reconcilePods_def] assms(1)])
    (auto split: if_splits sum.splits dest: pod_entry_confined [OF _ assms(2)])

lemma single_pod_confined:
  assumes "ok_since calls r base S w" and "SPIREClient r = client c"
    and run: "ReconcileSinglePod r m pod cluster action w = Some w'"
  shows "ok_since calls r base S w'"
proof -
  have del: "ok_since calls r base S t'" if "deleteEntriesForPod r pod w = Some t'" for t'
    using that foreign_not_owned(1) unfolding deleteEntriesForPod_def by (intro delete_where_confined [OF assms(1,2) _ that [unfolded deleteEntriesForPod_def]]) auto
  have each: "ok_since calls r base S t'"
    if "for_each (\<lambda>identity. reconcilePodEntry r pod node identity cluster) identities w = Some t'" for node identities t'
    by (rule for_each_inv [where P = "ok_since calls r base S", OF that assms(1)]) (rule pod_entry_confined [OF _ assms(2)])
  show ?thesis
    using assms(1) run del each unfolding ReconcileSinglePod_def
    by (auto split: if_splits bind_splits option.splits sum.splits)
qed

text \<open>The loop of the two cleanup functions.\<close>

lemma cleanup_confined:
  assumes "ok_since calls r base S w" and "ListEntries (client c) w = Some (x, w1)"
    and "\<And>e. foreign r e \<Longrightarrow> \<not> A e"
    and "case x of Inl _ \<Rightarrow> Some w1 = Some w'
      | Inr es \<Rightarrow> for_each (\<lambda>e w. if \<not> A e then Some w
          else if \<not> B e then map_option snd (DeleteEntry (client c) (ID e) w) else Some w) es w1 = Some w'"
  shows "ok_since calls r base S w'"
proof (cases x)
  case (Inl err)
  then show ?thesis using ok_list [OF assms(1,2)] assms(4) by simp
next
  case (Inr es)
  let ?P = "ok_since calls r base (S \<union> set es)"
  have loop: "for_each (\<lambda>e w. if \<not> A e then Some w
      else if \<not> B e then map_option snd (DeleteEntry (client c) (ID e) w) else Some w) es w1 = Some w'" and P: "?P w1"
    using assms(4) Inr ok_list [OF assms(1,2)] by simp_all
  have "?P w'"
  proof (rule for_each_inv [where P = ?P, OF loop P])
    fix e v v' assume e: "e \<in> set es" and v: "?P v"
      "(if \<not> A e then Some v else if \<not> B e then map_option snd (DeleteEntry (client c) (ID e) v) else Some v) = Some v'"
    show "?P v'"
    proof (cases "A e \<and> \<not> B e")
      case True
      then have "e \<in> S \<union> set es" "\<not> foreign r e" using e assms(3) by auto
      with True v ok_delete [OF v(1)] show ?thesis by auto
    qed (use v in \<open>auto split: if_splits\<close>)
  qed
  then show ?thesis by (rule ok_weaken) simp
qed

lemma cleanup_identity_confined:
  assumes "ok_since calls r base S w" and "SPIREClient r = client c"
    and run: "cleanupOrphanedEntriesForIdentity r m identity w = Some w'"
  shows "ok_since calls r base S w'"
proof -
  obtain x w1 where l: "ListEntries (client c) w = Some (x, w1)"
    using run assms(2) by (auto simp: cleanupOrphanedEntriesForIdentity_def split: bind_splits)
  obtain uids where "case x of Inl _ \<Rightarrow> Some w1 = Some w' | Inr es \<Rightarrow> for_each (\<lambda>e w. if \<not> entryBelongsToIdentity e identity then Some w
      else if \<not> hasValidPod uids e then map_option snd (DeleteEntry (client c) (ID e) w) else Some w) es w1 = Some w'"
    using run [unfolded cleanupOrphanedEntriesForIdentity_def assms(2)] l by (cases x) (auto split: bind_splits)
  from cleanup_confined [OF assms(1) l _ this] foreign_not_owned(2) [of r] show ?thesis by blast
qed

lemma cleanup_cluster_confined:
  assumes "ok_since calls r base S w" and "SPIREClient r = client c"
    and run: "cleanupOrphanedEntriesForCluster r m cluster w = Some w'"
  shows "ok_since calls r base S w'"
proof -
  obtain x w1 where l: "ListEntries (client c) w = Some (x, w1)"
    using run assms(2) by (auto simp: cleanupOrphanedEntriesForCluster_def split: bind_splits)
  obtain uids where "case x of Inl _ \<Rightarrow> Some w1 = Some w' | Inr es \<Rightarrow> for_each (\<lambda>e w. if \<not> entryBelongsToCluster e cluster then Some w
      else if \<not> hasValidPod uids e then map_option snd (DeleteEntry (client c) (ID e) w) else Some w) es w1 = Some w'"
    using run [unfolded cleanupOrphanedEntriesForCluster_def assms(2)] l by (cases x) (auto split: bind_splits)
  from cleanup_confined [OF assms(1) l _ this] foreign_not_owned(3) [of r] show ?thesis by blast
qed

lemma identity_confined:
  assumes "ok_since calls r base S w" and "SPIREClient r = client c"
    and run: "ReconcileWorkloadIdentity r m identity deleted w = Some w'"
  shows "ok_since calls r base S w'"
proof (cases deleted)
  case True
  then show ?thesis
    using run delete_where_confined [OF assms(1,2) foreign_not_owned(2)]
    by (simp add: ReconcileWorkloadIdentity_def deleteEntriesForIdentity_def)
next
  case False
  with run obtain cls w1 where
    w1: "for_each (\<lambda>cluster w. case GetClusterConnection (ec_Name cluster) m of
           None \<Rightarrow> Some w
         | Some conn \<Rightarrow> reconcilePods r conn identity cluster (getMatchingPods r w conn identity) w) cls w = Some w1"
    "cleanupOrphanedEntriesForIdentity r m identity w1 = Some w'"
    by (auto simp: ReconcileWorkloadIdentity_def split: bind_splits)
  have "ok_since calls r base S w1"
    by (rule for_each_inv [where P = "ok_since calls r base S", OF w1(1) assms(1)])
      (auto split: option.splits dest: reconcile_pods_confined [OF _ assms(2)])
  then show ?thesis using cleanup_identity_confined [OF _ assms(2) w1(2)] by blast
qed

lemma cluster_confined:
  assumes "ok_since calls r base S w" and "SPIREClient r = client c" and keep: "sync_keeps (mr_env r) calls"
    and run: "ReconcileEKSCluster r cluster deleted (m, w) = Some (m', w')"
  shows "ok_since calls r base S w'"
proof (cases "deleted \<or> \<not> Enabled (ec_Spec cluster)")
  case True
  then show ?thesis
    using run delete_where_confined [OF assms(1,2) foreign_not_owned(3)]
    by (auto simp: ReconcileEKSCluster_def deleteEntriesForCluster_def split: bind_splits)
next
  case False
  with run obtain err m1 w1 where add: "AddOrUpdateCluster (mr_env r) cluster m w = Some (err, m1, w1)"
    by (auto simp: ReconcileEKSCluster_def split: bind_splits)
  have i1: "ok_since calls r base S w1" by (rule ok_keep [OF AddOrUpdateCluster_keeps [OF keep add] assms(1)])
  have rest: "ok_since calls r base S w3"
    if "for_each (\<lambda>identity w. reconcilePods r conn identity cluster (getMatchingPods r w conn identity) w) ids w1 = Some w2"
      "cleanupOrphanedEntriesForCluster r m1 cluster w2 = Some w3" for conn ids w2 w3
  proof -
    have "ok_since calls r base S w2"
      by (rule for_each_inv [where P = "ok_since calls r base S", OF that(1) i1])
        (auto dest: reconcile_pods_confined [OF _ assms(2)])
    then show ?thesis using cleanup_cluster_confined [OF _ assms(2) that(2)] by blast
  qed
  show ?thesis using run False add i1 rest by (auto simp: ReconcileEKSCluster_def split: option.splits bind_splits)
qed

subsection \<open>The deletion controller\<close>

lemma owner_confined:
  assumes "ok_since calls r base S w" and "dr_SPIREClient dr = client c"
    and run: "deleteEntriesForOwner dr t n w = Some (err, w')"
  shows "ok_since calls r base S w'"
proof -
  let ?own = "\<lambda>e. ownedBy t n (Hint e)"
  obtain x w1 where l: "ListEntries (client c) w = Some (x, w1)"
    using run assms(2) by (auto simp: deleteEntriesForOwner_def split: bind_splits)
  note 1 = ok_list [OF assms(1) l]
  show ?thesis
  proof (cases x)
    case (Inl e)
    then show ?thesis using run l assms(2) 1 by (simp add: deleteEntriesForOwner_def)
  next
    case (Inr es)
    show ?thesis
    proof (cases "filter ?own es = []")
      case True
      then show ?thesis using run l assms(2) 1 Inr by (auto simp: deleteEntriesForOwner_def intro: ok_weaken)
    next
      case False
      then obtain sts where b: "BatchDeleteEntries (client c) (map ID (filter ?own es)) w1 = Some (sts, w')"
        using run l assms(2) Inr
        by (auto simp: deleteEntriesForOwner_def Let_def split: bind_splits option.splits if_splits)
      have "ok_since calls r base (S \<union> set es) w'"
        by (rule ok_batch_delete [OF _ b]) (use 1 Inr foreign_not_owned(4) in auto)
      then show ?thesis by (rule ok_weaken) simp
    qed
  qed
qed

end

end
