(* ===== verification/Interleaving.thy ===== *)
theory Interleaving
  imports Requests System
begin

text \<open>
  Handlers that run at the same time. \<open>System\<close> takes a handler as one step; here its single calls to
  the server interleave with those of the other handlers and with other users of the server, which
  answers as it likes: it may refuse any call, and a listing may mix states of different times.
  Shown: no call of a handler is out of bounds, and no interleaving of the handlers' calls changes
  an entry of another tool.
\<close>

subsection \<open>The calls of a handler\<close>

inductive handler_calls ::
  "('id, 'td, ('id, 'td, 'w) recorded, 'k) MainReconciler \<Rightarrow> ('id, 'td, ('id, 'td, 'w) recorded, 'k) DeletionReconciler \<Rightarrow>
   ('id, 'td) request list \<Rightarrow> bool" for r dr where
  calls_cycle: "reconcileAll r (m, (w, [])) = Some (m', (w', l)) \<Longrightarrow> handler_calls r dr l"
| calls_pod: "ReconcileSinglePod r m pod cluster action (w, []) = Some (w', l) \<Longrightarrow> handler_calls r dr l"
| calls_identity: "WorkloadIdentityReconciler_Reconcile (mr_kube r) (Some r) m name (w, []) = Some (err, (w', l)) \<Longrightarrow>
    handler_calls r dr l"
| calls_cluster: "EKSClusterRegistryReconciler_Reconcile (mr_kube r) (Some r) name (m, (w, [])) = Some (err, m', (w', l)) \<Longrightarrow>
    handler_calls r dr l"
| calls_delete_identity: "deletion_ReconcileWorkloadIdentity dr name (w, []) = Some (err, (w', l)) \<Longrightarrow> handler_calls r dr l"
| calls_delete_cluster: "deletion_ReconcileEKSClusterRegistry dr name (w, []) = Some (err, (w', l)) \<Longrightarrow> handler_calls r dr l"

text \<open>Any reconcilers, over a world that also holds what their clients recorded; everything else
  reads and changes the world as before.\<close>

definition on_world :: "('w \<Rightarrow> 'x \<times> 'w) \<Rightarrow> ('id, 'td, 'w) recorded \<Rightarrow> 'x \<times> ('id, 'td, 'w) recorded" where
  "on_world f = (\<lambda>(w, l). case f w of (x, w') \<Rightarrow> (x, w', l))"

definition recorded_kube :: "('w, 'k) kube \<Rightarrow> (('id, 'td, 'w) recorded, 'k) kube" where
  "recorded_kube k =
     \<lparr>list_clusters = (\<lambda>s. list_clusters k (fst s)), list_identities = (\<lambda>s. list_identities k (fst s)),
      get_cluster = (\<lambda>s. get_cluster k (fst s)), get_identity = (\<lambda>s. get_identity k (fst s)),
      update_cluster = (\<lambda>s x. on_world (\<lambda>w. update_cluster k w x) s),
      update_identity = (\<lambda>s x. on_world (\<lambda>w. update_identity k w x) s),
      status_update_cluster = (\<lambda>s x. on_world (\<lambda>w. status_update_cluster k w x) s),
      status_update_identity = (\<lambda>s x. on_world (\<lambda>w. status_update_identity k w x) s),
      IsNotFound = IsNotFound k, nodes_Get = (\<lambda>s. nodes_Get k (fst s)), store_List = (\<lambda>s. store_List k (fst s)),
      LabelSelectorAsSelector = LabelSelectorAsSelector k, time_Now = (\<lambda>s. time_Now k (fst s))\<rparr>"

definition recorded_env :: "('w, 'k) cluster_env \<Rightarrow> (('id, 'td, 'w) recorded, 'k) cluster_env" where
  "recorded_env env =
     \<lparr>cl_aws = \<lparr>DescribeCluster = (\<lambda>s. DescribeCluster (cl_aws env) (fst s)), ClientConfig = ClientConfig (cl_aws env),
        clientcmd_Write = clientcmd_Write (cl_aws env), aws_Now = (\<lambda>s. aws_Now (cl_aws env) (fst s))\<rparr>,
      WaitForCacheSync = (\<lambda>(w, l) i. map_option (\<lambda>(b, w'). (b, w', l)) (WaitForCacheSync env w i))\<rparr>"

definition recorded_main ::
  "('id, 'td, 'w, 'k) MainReconciler \<Rightarrow> ('id, 'td, ('id, 'td, 'w) recorded, 'k) MainReconciler" where
  "recorded_main r =
     \<lparr>mr_lib = mr_lib r, mr_kube = recorded_kube (mr_kube r), mr_env = recorded_env (mr_env r), TrustDomain = TrustDomain r,
      ClusterName = ClusterName r, IgnoreNamespaces = IgnoreNamespaces r, EntryIDPrefix = EntryIDPrefix r,
      GCInterval = GCInterval r, SPIREClient = recording (SPIREClient r),
      range_clusters = (\<lambda>s. range_clusters r (fst s)), range_declared = (\<lambda>s. range_declared r (fst s)),
      range_current = (\<lambda>s. range_current r (fst s))\<rparr>"

definition recorded_deletion ::
  "('id, 'td, 'w, 'k) DeletionReconciler \<Rightarrow> ('id, 'td, ('id, 'td, 'w) recorded, 'k) DeletionReconciler" where
  "recorded_deletion dr =
     \<lparr>dr_kube = recorded_kube (dr_kube dr), dr_SPIREClient = recording (dr_SPIREClient dr)\<rparr>"

lemma recorded_simps [simp]:
  "mr_lib (recorded_main r) = mr_lib r" "EntryIDPrefix (recorded_main r) = EntryIDPrefix r"
  "SPIREClient (recorded_main r) = recording (SPIREClient r)"
  "dr_SPIREClient (recorded_deletion dr) = recording (dr_SPIREClient dr)"
  "range_declared (recorded_main r) s = range_declared r (fst s)" "range_current (recorded_main r) s = range_current r (fst s)"
  by (simp_all add: recorded_main_def recorded_deletion_def)

lemma managed_recorded [simp]: "managed (recorded_main r) = managed r"
  by (simp add: managed_def fun_eq_iff)

lemma foreign_recorded [simp]: "foreign (recorded_main r) = foreign r"
  by (simp add: foreign_def fun_eq_iff)

lemma recorded_keeps:
  "status_writes_keep (mr_kube (recorded_main r)) snd" "object_writes_keep (dr_kube (recorded_deletion dr)) snd"
  "sync_keeps (mr_env (recorded_main r)) snd" "selectors_not_nil (mr_kube (recorded_main r)) = selectors_not_nil (mr_kube r)"
  by (auto simp: recorded_main_def recorded_deletion_def recorded_kube_def recorded_env_def status_writes_keep_def
      object_writes_keep_def sync_keeps_def selectors_not_nil_def on_world_def case_prod_beta)

context request_log
begin

lemma deletions_confined:
  assumes "ok_since calls r base S w" and "dr_SPIREClient dr = client c" and "object_writes_keep (dr_kube dr) calls"
  shows "deletion_ReconcileWorkloadIdentity dr name w = Some (err, w') \<Longrightarrow> ok_since calls r base S w'"
    and "deletion_ReconcileEKSClusterRegistry dr name w = Some (err, w') \<Longrightarrow> ok_since calls r base S w'"
proof -
  note keep = object_writes_keepD [OF assms(3)] and own = owner_confined [OF assms(1,2)]
  show "deletion_ReconcileWorkloadIdentity dr name w = Some (err, w') \<Longrightarrow> ok_since calls r base S w'"
    by (elim deletion_identity_cases) (use assms(1) in simp, metis own ok_keep [where calls = calls, OF keep(1)])
  show "deletion_ReconcileEKSClusterRegistry dr name w = Some (err, w') \<Longrightarrow> ok_since calls r base S w'"
    by (elim deletion_cluster_cases) (use assms(1) in simp, metis own ok_keep [where calls = calls, OF keep(2)])
qed

end

lemma ok_since_recorded: "ok_since snd r [] S (w', l) \<Longrightarrow> confined r [] l"
  by (simp add: ok_since_def)

lemma handler_calls_confined:
  assumes "handler_calls (recorded_main r0) (recorded_deletion dr0) l" and "selectors_not_nil (mr_kube r0)"
    and "\<And>w. visits (range_declared r0 w)" and "\<And>w. visits (range_current r0 w)"
  shows "confined (recorded_main r0) [] l"
proof -
  define r where "r = recorded_main r0"
  define dr where "dr = recorded_deletion dr0"
  have rec: "SPIREClient r = recording (SPIREClient r0)" "dr_SPIREClient dr = recording (dr_SPIREClient dr0)"
    "selectors_not_nil (mr_kube r)" "\<And>w. visits (range_declared r w)" "\<And>w. visits (range_current r w)"
    "status_writes_keep (mr_kube r) snd" "object_writes_keep (dr_kube dr) snd" "sync_keeps (mr_env r) snd"
    using assms(2-4) unfolding r_def dr_def by (simp_all add: recorded_keeps)
  have start: "ok_since snd r [] {} (w, [])" for w using ok_start [of snd r "(w, [])"] by simp
  have "handler_calls r dr l" using assms(1) by (simp add: r_def dr_def)
  then have "confined r [] l"
  proof (cases rule: handler_calls.cases)
    case (calls_cycle m w m' w')
    from recorder.cycle_confined [OF rec(1,3,6,8,4,5) this] show ?thesis by (auto dest: ok_since_recorded)
  next
    case (calls_pod m pod cluster action w w')
    from recorder.single_pod_confined [OF start rec(1) this] show ?thesis by (rule ok_since_recorded)
  next
    case (calls_identity m name w err w')
    then show ?thesis
      by (auto simp: WorkloadIdentityReconciler_Reconcile_def split: sum.splits if_splits
          intro: ok_since_recorded [where S = "{}" and w' = w'] recorder.identity_confined [OF start rec(1)])
  next
    case (calls_cluster name m w err m' w')
    then show ?thesis
      by (auto simp: EKSClusterRegistryReconciler_Reconcile_def split: sum.splits if_splits
          intro: ok_since_recorded [where S = "{}" and w' = w'] recorder.cluster_confined [OF start rec(1,8)])
  next
    case (calls_delete_identity name w err w')
    from recorder.deletions_confined(1) [OF start rec(2,7) this] show ?thesis by (rule ok_since_recorded)
  next
    case (calls_delete_cluster name w err w')
    from recorder.deletions_confined(2) [OF start rec(2,7) this] show ?thesis by (rule ok_since_recorded)
  qed
  then show ?thesis by (simp add: r_def)
qed

subsection \<open>Histories\<close>

text \<open>
  What a call may do to the server's table, given the tables \<open>ts\<close> so far, the current one last: a
  listed entry was in one of them; creating, updating and deleting do what they say or nothing, a
  batch a part of it.
\<close>

definition effect ::
  "('id, 'td) request \<Rightarrow> (string \<Rightarrow> ('id, 'td) Entry option) list \<Rightarrow> (string \<Rightarrow> ('id, 'td) Entry option) \<Rightarrow> bool" where
  "effect q ts t' \<longleftrightarrow>
     (let t = last ts in
      case q of
        Listed (Inl err) \<Rightarrow> t' = t
      | Listed (Inr es) \<Rightarrow> t' = t \<and> (\<forall>e \<in> set es. \<exists>s \<in> set ts. s (ID e) = Some e)
      | Created e \<Rightarrow> t' = t \<or> t (ID e) = None \<and> t' = t(ID e \<mapsto> e)
      | Updated e \<Rightarrow> t' = t \<or> t' = t(ID e \<mapsto> e)
      | Deleted i \<Rightarrow> t' = t \<or> t' = t(i := None)
      | DeletedAll ids \<Rightarrow> \<exists>gone. gone \<subseteq> set ids \<and> t' = t |` (- gone))"

text \<open>Calls with the number of the thread that makes them, and the tables they lead through; others
  change the table as \<open>others\<close> allows.\<close>

inductive history ::
  "((string \<Rightarrow> ('id, 'td) Entry option) \<Rightarrow> (string \<Rightarrow> ('id, 'td) Entry option) \<Rightarrow> bool) \<Rightarrow>
   (string \<Rightarrow> ('id, 'td) Entry option) \<Rightarrow> (nat \<times> ('id, 'td) request) list \<Rightarrow>
   (string \<Rightarrow> ('id, 'td) Entry option) list \<Rightarrow> bool" for others t0 where
  history_start: "history others t0 [] [t0]"
| history_call: "history others t0 g ts \<Longrightarrow> effect q ts t' \<Longrightarrow> history others t0 (g @ [(k, q)]) (ts @ [t'])"
| history_others: "history others t0 g ts \<Longrightarrow> others (last ts) t' \<Longrightarrow> history others t0 g (ts @ [t'])"

definition thread :: "nat \<Rightarrow> (nat \<times> ('id, 'td) request) list \<Rightarrow> ('id, 'td) request list" where
  "thread k g = map snd (filter (\<lambda>x. fst x = k) g)"

lemma thread_snoc [simp]: "thread k (g @ [(j, q)]) = thread k g @ (if j = k then [q] else [])"
  by (simp add: thread_def)

lemma thread_Nil [simp]: "thread k [] = []"
  by (simp add: thread_def)

text \<open>An allowed call leaves a foreign entry alone, as long as no listing has shown its identifier with
  another content.\<close>

lemma effect_keeps:
  assumes "permitted r past q" and "effect q ts t'" and "last ts (ID e) = Some e" and "foreign r e"
    and "\<And>x. x \<in> seen past \<Longrightarrow> ID x = ID e \<Longrightarrow> x = e"
  shows "t' (ID e) = Some e"
proof (cases q)
  case (Listed x)
  then show ?thesis using assms(2,3) by (auto simp: effect_def Let_def split: sum.splits)
next
  case (Created d)
  then show ?thesis using assms(2-4) by (auto simp: effect_def Let_def)
next
  case (Updated d)
  then have "ID d \<noteq> ID e" using assms(1,4) by (auto simp: foreign_def)
  then show ?thesis using assms(2,3) Updated by (auto simp: effect_def Let_def)
next
  case (Deleted i)
  then obtain x where "x \<in> seen past" "i = ID x" "\<not> foreign r x" using assms(1) by auto
  then have "i \<noteq> ID e" using assms(4,5) by metis
  then show ?thesis using assms(2,3) Deleted by (auto simp: effect_def Let_def)
next
  case (DeletedAll ids)
  have "ID e \<notin> set ids"
  proof
    assume "ID e \<in> set ids"
    then obtain x where "x \<in> seen past" "ID e = ID x" "\<not> foreign r x" using assms(1) DeletedAll by auto
    then show False using assms(4,5) by metis
  qed
  then show ?thesis using assms(2,3) DeletedAll by (auto simp: effect_def Let_def restrict_map_def)
qed

lemma history_keeps:
  assumes "history others t0 g ts" and "\<And>k. confined r [] (thread k g)"
    and "\<And>t t'. others t t' \<Longrightarrow> keeping (foreign r) t t'" and "t0 (ID e) = Some e" and "foreign r e"
  shows "ts \<noteq> [] \<and> (\<forall>t \<in> set ts. t (ID e) = Some e) \<and> (\<forall>k. \<forall>x \<in> seen (thread k g). ID x = ID e \<longrightarrow> x = e)"
  using assms(1,2)
proof (induction rule: history.induct)
  case (history_call g ts q t' k)
  have "confined r [] (thread j g)" for j
    using history_call.prems [of j] by (auto simp: confined_append split: if_splits)
  then have IH: "ts \<noteq> []" "\<And>t. t \<in> set ts \<Longrightarrow> t (ID e) = Some e" "\<And>j x. x \<in> seen (thread j g) \<Longrightarrow> ID x = ID e \<Longrightarrow> x = e"
    using history_call.IH by blast+
  have p: "permitted r (thread k g) q" using history_call.prems [of k] by (simp add: confined_append)
  have t': "t' (ID e) = Some e"
    by (rule effect_keeps [OF p history_call.hyps(2)]) (use IH assms(5) in auto)
  have new: "x = e" if x: "x \<in> seen [q]" "ID x = ID e" for x
  proof -
    obtain es where "q = Listed (Inr es)" "x \<in> set es" using x(1) by (auto split: request.splits sum.splits)
    then have "\<exists>t \<in> set ts. t (ID x) = Some x" using history_call.hyps(2) by (simp add: effect_def)
    then obtain t where "t \<in> set ts" "t (ID x) = Some x" ..
    then show ?thesis using IH(2) [of t] x(2) by (metis option.inject)
  qed
  have "x = e" if "x \<in> seen (thread j (g @ [(k, q)]))" "ID x = ID e" for x j
  proof -
    have "x \<in> seen (thread j g) \<or> x \<in> seen [q]" using that(1) by (cases "k = j") (simp_all del: seen_single)
    then show ?thesis using IH(3) [of x j] new that(2) by blast
  qed
  moreover have "\<forall>t \<in> set (ts @ [t']). t (ID e) = Some e" using IH(2) t' by auto
  ultimately show ?case by blast
next
  case (history_others g ts t')
  then have IH: "ts \<noteq> []" "\<And>t. t \<in> set ts \<Longrightarrow> t (ID e) = Some e" "\<And>j x. x \<in> seen (thread j g) \<Longrightarrow> ID x = ID e \<Longrightarrow> x = e"
    by blast+
  then have "t' (ID e) = Some e" using assms(3) [OF history_others.hyps(2)] assms(5) by (simp add: keeping_def)
  then have "\<forall>t \<in> set (ts @ [t']). t (ID e) = Some e" using IH(2) by auto
  then show ?case using IH(3) by blast
qed (use assms(4) in simp)

subsection \<open>Properties\<close>

lemma confined_permitted: "confined r past (pre @ q # post) \<Longrightarrow> permitted r (past @ pre) q"
  by (simp add: confined_append)



subsection \<open>The properties on the small installation\<close>

text \<open>A run of the deletion controller that lists one entry and deletes it.\<close>

abbreviation ref_hint :: string where
  "ref_hint \<equiv> entryHint (ref_dying ''app'') (ref_cluster ''east'')"

abbreviation ref_calls :: "(string \<times> string, string) request list" where
  "ref_calls \<equiv> [Listed (Inr [ref_tagged ref_hint]), DeletedAll [''e'']]"

lemma ref_handler_calls: "handler_calls (recorded_main ref_registrar) (recorded_deletion ref_dr) ref_calls"
proof -
  let ?w = "ref_server ref_hint" and ?dr = "recorded_deletion ref_dr"
  from spire.list_law [OF ref_server(1) [of ref_hint]] obtain es where
    l: "ListEntries (spire_client ref_connection) ?w = Some (Inr es, ?w)" and d: "distinct (map ID es)"
    and v: "[''e'' \<mapsto> ref_tagged ref_hint] = map_of (map (\<lambda>e. (ID e, e)) es)"
    unfolding ref_server(2) by (elim exE conjE) (rule that)
  have "x \<in> set es \<longleftrightarrow> x = ref_tagged ref_hint" for x
  proof -
    have "x \<in> set es \<longleftrightarrow> map_of (map (\<lambda>e. (ID e, e)) es) (ID x) = Some x"
      using d by (subst map_of_eq_Some_iff) (auto simp: comp_def)
    then show ?thesis unfolding v [symmetric] by auto
  qed
  then have set: "set es = {ref_tagged ref_hint}" by blast
  have "length es = card (set es)" using d by (simp add: distinct_map distinct_card)
  then have "length es = 1" unfolding set by simp
  then obtain y where y: "es = [y]" by (cases es) simp_all
  with set have es: "es = [ref_tagged ref_hint]" by (simp only: list.set singleton_insert_inj_eq)
  from spire.batch_delete_law [OF ref_server(1)] obtain sts w1 where
    b: "BatchDeleteEntries (spire_client ref_connection) [''e''] ?w = Some ((sts, None), w1)" "length sts = 1" by fastforce
  have "ownedBy ''WorkloadIdentity'' ''app'' ref_hint"
    using ownedBy_identity_hint [of "ref_dying ''app''" "''app''" "[]"] by simp
  then have "deleteEntriesForOwner ?dr ''WorkloadIdentity'' ''app'' (?w, []) = Some (None, w1, ref_calls)"
    using l b by (simp add: deleteEntriesForOwner_def recording_def record_call_def es)
  then have "\<exists>err w2. deletion_ReconcileWorkloadIdentity ?dr ''app'' (?w, []) = Some (err, w2, ref_calls)"
    by (simp add: deletion_ReconcileWorkloadIdentity_def recorded_deletion_def recorded_kube_def on_world_def
        ContainsFinalizer_def SPIRECleanupFinalizer_def)
  then show ?thesis by (elim exE) (rule calls_delete_identity)
qed


text \<open>Two such runs, interleaved, next to an entry of another tool.\<close>

lemma ref_history:
  fixes foreign_entry :: "(string \<times> string, string) Entry"
  defines "t0 \<equiv> [''e'' \<mapsto> ref_tagged ref_hint, ''x'' \<mapsto> foreign_entry]"
  shows "history (=) t0 [(0, ref_calls ! 0), (1, ref_calls ! 0), (0, ref_calls ! 1), (1, ref_calls ! 1)]
    [t0, t0, t0, t0(''e'' := None), t0(''e'' := None)]"
proof -
  have "history (=) t0 [] [t0]" by (rule history_start)
  from history_call [OF this, of "ref_calls ! 0" t0 0]
  have "history (=) t0 [(0, ref_calls ! 0)] [t0, t0]" by (simp add: effect_def t0_def)
  from history_call [OF this, of "ref_calls ! 0" t0 1]
  have 2: "history (=) t0 [(0, ref_calls ! 0), (1, ref_calls ! 0)] [t0, t0, t0]" by (simp add: effect_def t0_def)
  have "t0(''e'' := None) = t0 |` (- {''e''})" by (simp add: fun_eq_iff restrict_map_def)
  then have "effect (ref_calls ! 1) [t0, t0, t0] (t0(''e'' := None))"
    by (auto simp: effect_def intro!: exI [of _ "{''e''}"])
  from history_call [OF 2 this, of 0]
  have 3: "history (=) t0 [(0, ref_calls ! 0), (1, ref_calls ! 0), (0, ref_calls ! 1)] [t0, t0, t0, t0(''e'' := None)]" by simp
  have "effect (ref_calls ! 1) [t0, t0, t0, t0(''e'' := None)] (t0(''e'' := None))"
    by (auto simp: effect_def intro!: exI [of _ "{}"])
  from history_call [OF 3 this, of 1] show ?thesis by simp
qed


end
