(* ===== verification/Recording.thy ===== *)
theory Recording
  imports Interleaving
begin

text \<open>
  Recording the calls of a client changes nothing else: every handler, run on the recorded client of
  \<open>Interleaving\<close>, does to the world what it does on the client itself (\<open>recorded_cycle\<close>,
  \<open>recorded_single_pod\<close>, \<open>recorded_identity\<close>, \<open>recorded_cluster\<close>, \<open>recorded_events\<close>,
  \<open>recorded_deletions\<close>). The lists of calls are therefore those of the program's own runs.
\<close>

lemma bind_sim:
  "map_option h a' = a \<Longrightarrow> (\<And>x. map_option k (g' x) = g (h x)) \<Longrightarrow> map_option k (Option.bind a' g') = Option.bind a g"
  by (cases a') auto

lemma for_each_sim:
  assumes "\<And>x s. map_option h (f' x s) = f x (h s)"
  shows "map_option h (for_each f' xs s) = for_each f xs (h s)"
proof (induction xs arbitrary: s)
  case (Cons x xs)
  have "map_option h (Option.bind (f' x s) (for_each f' xs)) = Option.bind (f x (h s)) (for_each f xs)"
    by (rule bind_sim [where h = h]) (simp_all only: assms Cons.IH)
  then show ?case by simp
qed simp

abbreviation (input) erase :: "'x \<times> 'w \<times> 'l \<Rightarrow> 'x \<times> 'w" where
  "erase \<equiv> \<lambda>(x, w, l). (x, w)"

lemma record_call_erase: "map_option erase (record_call q call s) = call (fst s)"
  by (cases "call (fst s)") (auto simp: record_call_def case_prod_beta split: prod.split)

lemma recording_erase:
  "map_option erase (ListEntries (recording c) s) = ListEntries c (fst s)"
  "map_option erase (CreateEntry (recording c) e s) = CreateEntry c e (fst s)"
  "map_option erase (UpdateEntry (recording c) e s) = UpdateEntry c e (fst s)"
  "map_option erase (DeleteEntry (recording c) i s) = DeleteEntry c i (fst s)"
  "map_option erase (BatchDeleteEntries (recording c) is s) = BatchDeleteEntries c is (fst s)"
  by (simp_all add: recording_def record_call_erase)

lemma recording_erase_world:
  "map_option fst (map_option snd (CreateEntry (recording c) e s)) = map_option snd (CreateEntry c e (fst s))"
  "map_option fst (map_option snd (UpdateEntry (recording c) e s)) = map_option snd (UpdateEntry c e (fst s))"
  "map_option fst (map_option snd (DeleteEntry (recording c) i s)) = map_option snd (DeleteEntry c i (fst s))"
  unfolding recording_erase [symmetric] by (simp_all add: option.map_comp comp_def case_prod_beta)

text \<open>What is only read is the same.\<close>

lemma recorded_kube_simps [simp]:
  "LabelSelectorAsSelector (recorded_kube k) = LabelSelectorAsSelector k" "IsNotFound (recorded_kube k) = IsNotFound k"
  "list_clusters (recorded_kube k) s = list_clusters k (fst s)" "list_identities (recorded_kube k) s = list_identities k (fst s)"
  "get_cluster (recorded_kube k) s n = get_cluster k (fst s) n" "get_identity (recorded_kube k) s n = get_identity k (fst s) n"
  "nodes_Get (recorded_kube k) s = nodes_Get k (fst s)" "store_List (recorded_kube k) s = store_List k (fst s)"
  "time_Now (recorded_kube k) s = time_Now k (fst s)"
  "fst (snd (status_update_identity (recorded_kube k) s i)) = snd (status_update_identity k (fst s) i)"
  "fst (snd (status_update_cluster (recorded_kube k) s x)) = snd (status_update_cluster k (fst s) x)"
  "erase (update_identity (recorded_kube k) s i) = update_identity k (fst s) i"
  "erase (update_cluster (recorded_kube k) s x) = update_cluster k (fst s) x"
  by (simp_all add: recorded_kube_def on_world_def case_prod_beta)

lemma recorded_main_simps [simp]:
  "mr_kube (recorded_main r) = recorded_kube (mr_kube r)" "mr_env (recorded_main r) = recorded_env (mr_env r)"
  "TrustDomain (recorded_main r) = TrustDomain r" "IgnoreNamespaces (recorded_main r) = IgnoreNamespaces r"
  "range_clusters (recorded_main r) s = range_clusters r (fst s)"
  "dr_kube (recorded_deletion dr) = recorded_kube (dr_kube dr)"
  by (simp_all add: recorded_main_def recorded_deletion_def)

lemma recorded_reads [simp]:
  "shouldProcessIdentity (recorded_main r) = shouldProcessIdentity r"
  "shouldProcessEntry (recorded_main r) = shouldProcessEntry r"
  "isNamespaceIgnored (recorded_main r) = isNamespaceIgnored r"
  "getPodsFromInformer (recorded_main r) s = getPodsFromInformer r (fst s)"
  "getMatchingPods (recorded_main r) s = getMatchingPods r (fst s)"
  "identities_of (recorded_main r) s = identities_of r (fst s)" "clusters_of (recorded_main r) s = clusters_of r (fst s)"
  "pendingChanges (recorded_main r) s = pendingChanges r (fst s)"
  unfolding fun_eq_iff shouldProcessIdentity_def shouldProcessEntry_def isNamespaceIgnored_def getPodsFromInformer_def
    getMatchingPods_def identities_of_def clusters_of_def pendingChanges_def recorded_simps recorded_main_simps recorded_kube_simps
  by (rule refl allI)+

lemma recorded_matches [simp]: "identityMatches (recorded_main r) = identityMatches r"
  "processWorkloadIdentity (recorded_main r) s = processWorkloadIdentity r (fst s)"
  "count_targeted (recorded_main r) = count_targeted r" "count_pods (recorded_main r) s = count_pods r (fst s)"
  unfolding fun_eq_iff identityMatches_def processWorkloadIdentity_def declarePod_def [abs_def] count_targeted_def count_pods_def
    recorded_reads recorded_simps recorded_main_simps recorded_kube_simps
  by (rule refl allI)+

lemma recorded_reads2 [simp]:
  "processCluster (recorded_main r) s = processCluster r (fst s)"
  "calculateIdentityStats (recorded_main r) m s = calculateIdentityStats r m (fst s)"
  "calculateClusterEntries (recorded_main r) s = calculateClusterEntries r (fst s)"
  "findMatchingIdentities (recorded_main r) s = findMatchingIdentities r (fst s)"
  "findMatchingClusters (recorded_main r) s = findMatchingClusters r (fst s)"
  "findIdentitiesForCluster (recorded_main r) s = findIdentitiesForCluster r (fst s)"
  "validUIDsForIdentity (recorded_main r) m s = validUIDsForIdentity r m (fst s)"
  "validUIDsForCluster (recorded_main r) m s = validUIDsForCluster r m (fst s)"
  unfolding fun_eq_iff processCluster_def calculateIdentityStats_def calculateClusterEntries_def findMatchingIdentities_def
    findMatchingClusters_def findIdentitiesForCluster_def validUIDsForIdentity_def validUIDsForCluster_def
    recorded_reads recorded_matches recorded_main_simps
  by (rule refl allI)+

text \<open>The manager's operations leave the notes alone.\<close>

lemma recorded_aws_simps [simp]:
  "DescribeCluster (cl_aws (recorded_env env)) s = DescribeCluster (cl_aws env) (fst s)"
  "ClientConfig (cl_aws (recorded_env env)) = ClientConfig (cl_aws env)"
  "aws_Now (cl_aws (recorded_env env)) s = aws_Now (cl_aws env) (fst s)"
  by (simp_all add: recorded_env_def)

lemma recorded_client [simp]: "GetClusterClient (cl_aws (recorded_env env)) s = GetClusterClient (cl_aws env) (fst s)"
  unfolding fun_eq_iff GetClusterClient_def createClusterClient_def cluster_kubeconfig_def recorded_aws_simps
  by (rule refl allI)+

lemma recorded_connection [simp]:
  "createClusterConnection (recorded_env env) s = createClusterConnection env (fst s)"
  unfolding fun_eq_iff createClusterConnection_def createK8sClient_def recorded_client recorded_aws_simps
  by (rule refl allI)+

lemma recorded_wait: "map_option erase (WaitForCacheSync (recorded_env env) s i) = WaitForCacheSync env (fst s) i"
  by (cases s; cases "WaitForCacheSync env (fst s) i") (auto simp: recorded_env_def)

abbreviation (input) erase2 :: "'x \<times> 'y \<times> 'w \<times> 'l \<Rightarrow> 'x \<times> 'y \<times> 'w" where
  "erase2 \<equiv> \<lambda>(x, y, w, l). (x, y, w)"

lemma recorded_connect:
  "map_option erase2 (connectCluster (recorded_env env) cluster m s) = connectCluster env cluster m (fst s)"
proof (cases "Enabled (ec_Spec cluster)")
  case True
  have "map_option erase2 (connectCluster (recorded_env env) cluster m s) =
      Option.bind (createClusterConnection env (fst s) cluster m) (\<lambda>(r, m). case r of
        Inl err \<Rightarrow> Some (Some (Wrap ''failed to create cluster connection'' err), m, fst s)
      | Inr conn \<Rightarrow> Option.bind (WaitForCacheSync env (fst s) (PodInformer conn)) (\<lambda>(synced, w).
          Some (if synced then None else Some (Errs ''failed to sync pod cache''),
            m\<lparr>clusters := AList.update (ec_Name cluster) conn (clusters m)\<rparr>, w)))"
    using True unfolding recorded_wait [symmetric]
    by (cases "createClusterConnection env (fst s) cluster m")
      (auto simp: connectCluster_def Let_def case_prod_beta bind_map_option map_option_bind comp_def split: sum.split)
  then show ?thesis using True unfolding connectCluster_def [of env] Let_def by simp
qed (simp add: connectCluster_def case_prod_beta)

lemma recorded_add_or_update:
  "map_option erase2 (AddOrUpdateCluster (recorded_env env) cluster m s) = AddOrUpdateCluster env cluster m (fst s)"
proof (cases "map_of (clusters m) (ec_Name cluster)")
  case (Some old)
  show ?thesis
  proof (cases "same_connection (conn_Cluster old) cluster")
    case False
    then show ?thesis using Some
      by (cases "stopClusterConnection old m") (simp_all add: AddOrUpdateCluster_def recorded_connect)
  qed (use Some in \<open>simp add: AddOrUpdateCluster_def case_prod_beta\<close>)
qed (simp add: AddOrUpdateCluster_def recorded_connect)

lemma recorded_add_manager:
  "map_option erase ((\<lambda>(m, s). map_option snd (AddOrUpdateCluster (recorded_env env) cluster m s)) t) =
     (\<lambda>(m, w). map_option snd (AddOrUpdateCluster env cluster m w)) (erase t)"
proof (cases t)
  case (fields m w l)
  have "AddOrUpdateCluster env cluster m w = map_option erase2 (AddOrUpdateCluster (recorded_env env) cluster m (w, l))"
    using recorded_add_or_update [of env cluster m "(w, l)"] by simp
  then show ?thesis by (simp add: fields option.map_comp comp_def case_prod_beta)
qed

lemma recorded_sync:
  "map_option erase (syncConnections (recorded_main r) cls t) = syncConnections r cls (erase t)"
  unfolding syncConnections_def Let_def recorded_main_simps
  by (rule bind_sim [where h = erase], rule for_each_sim, rule recorded_add_manager)
    (simp add: case_prod_beta map_option_bind comp_def)

lemma recorded_statuses:
  "map_option fst (updateStatuses (recorded_main r) m identities cls state s) = updateStatuses r m identities cls state (fst s)"
  unfolding updateStatuses_def
  by (rule bind_sim [where h = fst]; rule for_each_sim)
    (simp_all add: updateIdentityStatus_def updateClusterStatus_def Let_def map_option_bind comp_def)

lemma recorded_apply:
  "map_option fst (applyEntryChanges (recorded_main r) state s) = applyEntryChanges r state (fst s)"
  unfolding applyEntryChanges_def recorded_simps case_prod_beta
  by (rule bind_sim [where h = fst] for_each_sim recording_erase_world)+

lemma recorded_entries:
  "map_option fst (reconcileEntries (recorded_main r) cls identities es m s) = reconcileEntries r cls identities es m (fst s)"
proof -
  have "map_option fst (Option.bind (applyEntryChanges (recorded_main r) st s) (updateStatuses (recorded_main r) m identities cls st)) =
      Option.bind (applyEntryChanges r st (fst s)) (updateStatuses r m identities cls st)" for st
    by (rule bind_sim [where h = fst]) (simp_all only: recorded_apply recorded_statuses)
  then show ?thesis
    unfolding reconcileEntries_def Let_def recorded_simps recorded_main_simps recorded_reads recorded_reads2
    by (simp add: map_option_bind comp_def)
qed

lemma recorded_cycle:
  "map_option erase (reconcileAll (recorded_main r) t) = reconcileAll r (erase t)"
proof (cases "list_clusters (mr_kube r) (fst (snd t))")
  case (Inl e)
  then show ?thesis by (simp add: reconcileAll_def case_prod_beta)
next
  case (Inr cls)
  have rest: "map_option erase (Option.bind (reconcileEntries (recorded_main r) cls ids es m s) (\<lambda>s. Some (m, s))) =
      Option.bind (reconcileEntries r cls ids es m (fst s)) (\<lambda>w. Some (m, w))" for ids es m s
    by (rule bind_sim [OF recorded_entries]) (simp add: case_prod_beta)
  have lst: "map_option erase (Option.bind (ListEntries (recording (SPIREClient r)) s) (\<lambda>(listed, s). case listed of Inl _ \<Rightarrow> Some (m, s)
        | Inr es \<Rightarrow> Option.bind (reconcileEntries (recorded_main r) cls ids es m s) (\<lambda>s. Some (m, s)))) =
      Option.bind (ListEntries (SPIREClient r) (fst s)) (\<lambda>(listed, w). case listed of Inl _ \<Rightarrow> Some (m, w)
        | Inr es \<Rightarrow> Option.bind (reconcileEntries r cls ids es m w) (\<lambda>w. Some (m, w)))" for ids m s
    by (rule bind_sim [OF recording_erase(1)]) (auto simp: rest case_prod_beta split: sum.split)
  have "map_option erase (reconcileAll (recorded_main r) t) =
      Option.bind (syncConnections r cls (erase t)) (\<lambda>(m, w). case list_identities (mr_kube r) w of Inl _ \<Rightarrow> Some (m, w)
        | Inr ids \<Rightarrow> Option.bind (ListEntries (SPIREClient r) w) (\<lambda>(listed, w). case listed of Inl _ \<Rightarrow> Some (m, w)
            | Inr es \<Rightarrow> Option.bind (reconcileEntries r cls ids es m w) (\<lambda>w. Some (m, w))))"
    using Inr unfolding reconcileAll_def recorded_main_simps recorded_kube_simps recorded_simps sum.case
    by (simp, intro bind_sim [OF recorded_sync]) (clarsimp simp: lst split: sum.split)
  then show ?thesis using Inr by (simp add: reconcileAll_def case_prod_beta)
qed

text \<open>The targeted reactions.\<close>

lemma recorded_delete_where: "map_option fst (deleteWhere (recorded_main r) P s) = deleteWhere r P (fst s)"
proof -
  have "map_option fst (for_each (\<lambda>entry w. if P entry then map_option snd (DeleteEntry (recording (SPIREClient r)) (ID entry) w) else Some w) es s) =
      for_each (\<lambda>entry w. if P entry then map_option snd (DeleteEntry (SPIREClient r) (ID entry) w) else Some w) es (fst s)" for es s
    by (rule for_each_sim) (simp add: recording_erase_world)
  then show ?thesis
    unfolding deleteWhere_def recorded_simps by (intro bind_sim [OF recording_erase(1)]) (auto split: sum.split)
qed

lemma recorded_pod_entry:
  "map_option fst (reconcilePodEntry (recorded_main r) pod node identity cluster s) = reconcilePodEntry r pod node identity cluster (fst s)"
proof (cases "RenderEntry (mr_lib r) identity cluster pod node (TrustDomain_String (mr_lib r) (TrustDomain r))")
  case (Inl e)
  then show ?thesis by (simp add: reconcilePodEntry_def)
next
  case (Inr e)
  then show ?thesis
    unfolding reconcilePodEntry_def recorded_simps recorded_main_simps Let_def Inr sum.case
    by (intro bind_sim [OF recording_erase(1)]) (auto simp: recording_erase_world split: option.split sum.split)
qed

lemma recorded_pods:
  "map_option fst (reconcilePods (recorded_main r) conn identity cluster pods s) = reconcilePods r conn identity cluster pods (fst s)"
  unfolding reconcilePods_def by (rule for_each_sim) (auto simp: recorded_pod_entry split: sum.split)

lemma recorded_single_pod:
  "map_option fst (ReconcileSinglePod (recorded_main r) m pod cluster action s) = ReconcileSinglePod r m pod cluster action (fst s)"
proof -
  have "map_option fst (for_each (\<lambda>identity. reconcilePodEntry (recorded_main r) pod node identity cluster) ids s) =
      for_each (\<lambda>identity. reconcilePodEntry r pod node identity cluster) ids (fst s)" for node ids
    by (rule for_each_sim) (rule recorded_pod_entry)
  then have "map_option fst (case nodes_Get (mr_kube r) (fst s) k n of Inl _ \<Rightarrow> Some s
        | Inr node \<Rightarrow> for_each (\<lambda>identity. reconcilePodEntry (recorded_main r) pod node identity cluster) ids s) =
      (case nodes_Get (mr_kube r) (fst s) k n of Inl _ \<Rightarrow> Some (fst s)
        | Inr node \<Rightarrow> for_each (\<lambda>identity. reconcilePodEntry r pod node identity cluster) ids (fst s))" for k n ids
    by (simp split: sum.split)
  moreover have "map_option fst (deleteEntriesForPod (recorded_main r) pod s) = deleteEntriesForPod r pod (fst s)"
    unfolding deleteEntriesForPod_def recorded_reads by (rule recorded_delete_where)
  ultimately show ?thesis
    unfolding ReconcileSinglePod_def recorded_reads recorded_reads2 recorded_main_simps recorded_kube_simps
    by (auto simp: map_option_bind comp_def split: option.split intro!: Option.bind_cong [OF refl])
qed

lemma recorded_cleanup:
  "map_option fst (cleanupOrphanedEntriesForIdentity (recorded_main r) m identity s) = cleanupOrphanedEntriesForIdentity r m identity (fst s)"
  "map_option fst (cleanupOrphanedEntriesForCluster (recorded_main r) m cluster s) = cleanupOrphanedEntriesForCluster r m cluster (fst s)"
proof -
  have loop: "map_option fst (for_each (\<lambda>e w. if \<not> A e then Some w
        else if \<not> B e then map_option snd (DeleteEntry (recording (SPIREClient r)) (ID e) w) else Some w) es s) =
      for_each (\<lambda>e w. if \<not> A e then Some w else if \<not> B e then map_option snd (DeleteEntry (SPIREClient r) (ID e) w) else Some w) es (fst s)"
    for A B es s by (rule for_each_sim) (simp add: recording_erase_world)
  show "map_option fst (cleanupOrphanedEntriesForIdentity (recorded_main r) m identity s) = cleanupOrphanedEntriesForIdentity r m identity (fst s)"
    "map_option fst (cleanupOrphanedEntriesForCluster (recorded_main r) m cluster s) = cleanupOrphanedEntriesForCluster r m cluster (fst s)"
    unfolding cleanupOrphanedEntriesForIdentity_def cleanupOrphanedEntriesForCluster_def recorded_simps recorded_reads2
    by (rule bind_sim [OF recording_erase(1)]; clarsimp simp: map_option_bind comp_def loop split: sum.split)+
qed

lemma recorded_identity:
  "map_option fst (ReconcileWorkloadIdentity (recorded_main r) m identity deleted s) = ReconcileWorkloadIdentity r m identity deleted (fst s)"
proof (cases deleted)
  case True
  then show ?thesis by (simp add: ReconcileWorkloadIdentity_def deleteEntriesForIdentity_def recorded_delete_where)
next
  case False
  have loop: "map_option fst (for_each (\<lambda>cluster s. case GetClusterConnection (ec_Name cluster) m of None \<Rightarrow> Some s
        | Some conn \<Rightarrow> reconcilePods (recorded_main r) conn identity cluster (getMatchingPods r (fst s) conn identity) s) cls s) =
      for_each (\<lambda>cluster w. case GetClusterConnection (ec_Name cluster) m of None \<Rightarrow> Some w
        | Some conn \<Rightarrow> reconcilePods r conn identity cluster (getMatchingPods r w conn identity) w) cls (fst s)" for cls
    by (rule for_each_sim) (simp add: recorded_pods split: option.split)
  have "map_option fst (Option.bind (for_each (\<lambda>cluster s. case GetClusterConnection (ec_Name cluster) m of None \<Rightarrow> Some s
        | Some conn \<Rightarrow> reconcilePods (recorded_main r) conn identity cluster (getMatchingPods r (fst s) conn identity) s) cls s)
        (cleanupOrphanedEntriesForIdentity (recorded_main r) m identity)) =
      Option.bind (for_each (\<lambda>cluster w. case GetClusterConnection (ec_Name cluster) m of None \<Rightarrow> Some w
        | Some conn \<Rightarrow> reconcilePods r conn identity cluster (getMatchingPods r w conn identity) w) cls (fst s))
        (cleanupOrphanedEntriesForIdentity r m identity)" for cls
    by (rule bind_sim [where h = fst]) (simp_all only: loop recorded_cleanup(1))
  then show ?thesis using False unfolding ReconcileWorkloadIdentity_def recorded_reads recorded_reads2
    by (simp add: map_option_bind comp_def)
qed

lemma recorded_cluster:
  "map_option erase (ReconcileEKSCluster (recorded_main r) cluster deleted t) = ReconcileEKSCluster r cluster deleted (erase t)"
proof -
  obtain m s where t: "t = (m, s)" by (cases t)
  show ?thesis
  proof (cases "deleted \<or> \<not> Enabled (ec_Spec cluster)")
    case True
    have "map_option erase (Option.bind (deleteWhere (recorded_main r) P s) (\<lambda>s. Option.bind (RemoveCluster n m) (\<lambda>m. Some (m, s)))) =
        Option.bind (deleteWhere r P (fst s)) (\<lambda>w. Option.bind (RemoveCluster n m) (\<lambda>m. Some (m, w)))" for P n
      by (rule bind_sim [OF recorded_delete_where]) (simp add: map_option_bind comp_def case_prod_beta)
    then show ?thesis using True by (auto simp: ReconcileEKSCluster_def deleteEntriesForCluster_def t case_prod_beta)
  next
    case False
    have loop: "map_option fst (for_each (\<lambda>identity s. reconcilePods (recorded_main r) conn identity cluster (getMatchingPods r (fst s) conn identity) s) ids s) =
        for_each (\<lambda>identity w. reconcilePods r conn identity cluster (getMatchingPods r w conn identity) w) ids (fst s)" for conn ids s
      by (rule for_each_sim) (rule recorded_pods)
    have rest: "map_option erase (Option.bind (for_each (\<lambda>identity s. reconcilePods (recorded_main r) conn identity cluster (getMatchingPods r (fst s) conn identity) s) ids s)
          (\<lambda>s. Option.bind (cleanupOrphanedEntriesForCluster (recorded_main r) m1 cluster s) (\<lambda>s. Some (m1, s)))) =
        Option.bind (for_each (\<lambda>identity w. reconcilePods r conn identity cluster (getMatchingPods r w conn identity) w) ids (fst s))
          (\<lambda>w. Option.bind (cleanupOrphanedEntriesForCluster r m1 cluster w) (\<lambda>w. Some (m1, w)))" for conn ids m1 s
      by (rule bind_sim [OF loop], rule bind_sim [OF recorded_cleanup(2)]) (simp add: case_prod_beta)
    have er: "erase (m, s) = (m, fst s)" by (cases s) simp
    show ?thesis using False unfolding ReconcileEKSCluster_def recorded_main_simps recorded_reads recorded_reads2 t er
      by (simp, intro bind_sim [OF recorded_add_or_update])
        (clarsimp split: option.split, rule bind_sim [where h = "\<lambda>ids. ids"], simp_all add: rest option.map_ident)
  qed
qed

lemma erase_Pair:
  "map_option (erase \<circ> Pair a) x = map_option (Pair a) (map_option fst x)"
  "map_option (erase2 \<circ> Pair a) y = map_option (Pair a) (map_option erase y)"
  by (cases x; cases y; auto)+

lemma recorded_events:
  "map_option erase (WorkloadIdentityReconciler_Reconcile (mr_kube (recorded_main r)) (Some (recorded_main r)) m name s) =
     WorkloadIdentityReconciler_Reconcile (mr_kube r) (Some r) m name (fst s)"
  "map_option erase2 (EKSClusterRegistryReconciler_Reconcile (mr_kube (recorded_main r)) (Some (recorded_main r)) name t) =
     EKSClusterRegistryReconciler_Reconcile (mr_kube r) (Some r) name (erase t)"
  by (auto simp: WorkloadIdentityReconciler_Reconcile_def option.map_comp erase_Pair recorded_identity case_prod_beta split: sum.split)
    (cases t, auto simp: EKSClusterRegistryReconciler_Reconcile_def option.map_comp erase_Pair recorded_cluster split: sum.split)

lemma recorded_owner:
  "map_option erase (deleteEntriesForOwner (recorded_deletion dr) t n s) = deleteEntriesForOwner dr t n (fst s)"
  unfolding deleteEntriesForOwner_def recorded_simps Let_def
  by (rule bind_sim [OF recording_erase(1)])
    (auto simp: bind_map_option map_option_bind comp_def case_prod_beta recording_erase(5) [symmetric]
       split: sum.split option.split intro!: Option.bind_cong [OF refl])

lemma recorded_deletions:
  "map_option erase (deletion_ReconcileWorkloadIdentity (recorded_deletion dr) name s) = deletion_ReconcileWorkloadIdentity dr name (fst s)"
  "map_option erase (deletion_ReconcileEKSClusterRegistry (recorded_deletion dr) name s) = deletion_ReconcileEKSClusterRegistry dr name (fst s)"
proof -
  have 1: "map_option erase (Option.bind (deleteEntriesForOwner (recorded_deletion dr) t n s) (\<lambda>(err, s). case err of
        Some e \<Rightarrow> Some (Some e, s) | None \<Rightarrow> Some (update_identity (recorded_kube (dr_kube dr)) s x))) =
      Option.bind (deleteEntriesForOwner dr t n (fst s)) (\<lambda>(err, w). case err of
        Some e \<Rightarrow> Some (Some e, w) | None \<Rightarrow> Some (update_identity (dr_kube dr) w x))" for t n x
    by (rule bind_sim [OF recorded_owner]) (auto split: option.split simp: recorded_kube_simps [unfolded case_prod_beta])
  have 2: "map_option erase (Option.bind (deleteEntriesForOwner (recorded_deletion dr) t n s) (\<lambda>(err, s). case err of
        Some e \<Rightarrow> Some (Some e, s) | None \<Rightarrow> Some (update_cluster (recorded_kube (dr_kube dr)) s x))) =
      Option.bind (deleteEntriesForOwner dr t n (fst s)) (\<lambda>(err, w). case err of
        Some e \<Rightarrow> Some (Some e, w) | None \<Rightarrow> Some (update_cluster (dr_kube dr) w x))" for t n x
    by (rule bind_sim [OF recorded_owner]) (auto split: option.split simp: recorded_kube_simps [unfolded case_prod_beta])
  show "map_option erase (deletion_ReconcileWorkloadIdentity (recorded_deletion dr) name s) = deletion_ReconcileWorkloadIdentity dr name (fst s)"
    unfolding deletion_ReconcileWorkloadIdentity_def recorded_main_simps by (auto simp: 1 split: sum.split) (cases s, simp)+
  show "map_option erase (deletion_ReconcileEKSClusterRegistry (recorded_deletion dr) name s) = deletion_ReconcileEKSClusterRegistry dr name (fst s)"
    unfolding deletion_ReconcileEKSClusterRegistry_def recorded_main_simps by (auto simp: 2 split: sum.split) (cases s, simp)+
qed

end
