(* ===== verification/Steady_State.thy ===== *)
theory Steady_State
  imports Recording
begin

text \<open>
  A cycle on a registrar that has nothing to do: which calls a full cycle makes of the server, exactly;
  that a cycle after an undisturbed one creates and deletes nothing; and that the reaction to a pod
  event asks for the entries the cycle declares for this pod.
\<close>

subsection \<open>The calls of a full cycle\<close>

text \<open>What a cycle asks for once the entries \<open>es\<close> are listed.\<close>

definition cycle_calls ::
  "('id, 'td, 'w, 'k) MainReconciler \<Rightarrow> WorkloadIdentity list \<Rightarrow> ('id, 'td) Entry list \<Rightarrow> 'k Manager \<Rightarrow> 'w \<Rightarrow> ('id, 'td) request list" where
  "cycle_calls r identities es m w =
     (let s = fold (AddDeclared (mr_lib r)) (desiredEntries r w identities (GetAllConnections (range_clusters r w) m))
                (fold AddCurrent (filter (shouldProcessEntry r) es) (NewEntriesStateWithPrefix (EntryIDPrefix r)))
      in case GetChanges (mr_lib r) (range_declared r w) (range_current r w) s of
           (toCreate, toUpdate, toDelete) \<Rightarrow>
             map (\<lambda>e. Deleted (ID e)) toDelete @ map Created toCreate @ map Updated toUpdate)"

context request_log
begin

lemma each_logged:
  assumes "for_each (\<lambda>x w. map_option snd (call x w)) xs w = Some w'"
    and "\<And>x w err w'. call x w = Some (err, w') \<Longrightarrow> calls w' = calls w @ [q x]"
  shows "calls w' = calls w @ map q xs"
  using assms(1)
proof (induction xs arbitrary: w)
  case (Cons x xs)
  then obtain err w1 where "call x w = Some (err, w1)" "for_each (\<lambda>x w. map_option snd (call x w)) xs w1 = Some w'"
    by (auto split: bind_splits)
  with Cons.IH assms(2) show ?case by fastforce
qed simp

lemma apply_logged:
  fixes r :: "('id, 'td, 'w, 'k) MainReconciler"
  assumes "SPIREClient r = client c" and "applyEntryChanges r s w = Some w'"
  shows "calls w' = calls w @ (case GetChanges (mr_lib r) (range_declared r w) (range_current r w) s of
    (toCreate, toUpdate, toDelete) \<Rightarrow> map (\<lambda>e. Deleted (ID e)) toDelete @ map Created toCreate @ map Updated toUpdate)"
proof -
  obtain cr up del where ch: "GetChanges (mr_lib r) (range_declared r w) (range_current r w) s = (cr, up, del)" by (metis prod_cases3)
  obtain w1 w2 where d: "for_each (\<lambda>e w. map_option snd (DeleteEntry (client c) (ID e) w)) del w = Some w1"
    and cr: "for_each (\<lambda>e w. map_option snd (CreateEntry (client c) e w)) cr w1 = Some w2"
    and up: "for_each (\<lambda>e w. map_option snd (UpdateEntry (client c) e w)) up w2 = Some w'"
    using assms by (auto simp: applyEntryChanges_def ch split: bind_splits)
  have "calls w1 = calls w @ map (\<lambda>e. Deleted (ID e)) del" by (rule each_logged [OF d]) (rule delete_log)
  moreover have "calls w2 = calls w1 @ map Created cr" by (rule each_logged [OF cr]) (rule create_log)
  moreover have "calls w' = calls w2 @ map Updated up" by (rule each_logged [OF up]) (rule update_log)
  ultimately show ?thesis by (simp add: ch)
qed

lemma reconcile_entries_logged:
  fixes r :: "('id, 'td, 'w, 'k) MainReconciler"
  assumes "SPIREClient r = client c" and "selectors_not_nil (mr_kube r)" and "status_writes_keep (mr_kube r) calls"
    and "reconcileEntries r cls identities es m w = Some w'"
  shows "calls w' = calls w @ cycle_calls r identities es m w"
proof -
  let ?s = "fold (AddDeclared (mr_lib r)) (desiredEntries r w identities (GetAllConnections (range_clusters r w) m))
    (fold AddCurrent (filter (shouldProcessEntry r) es) (NewEntriesStateWithPrefix (EntryIDPrefix r)))"
  obtain w1 where ap: "applyEntryChanges r ?s w = Some w1" and up: "updateStatuses r m identities cls ?s w1 = Some w'"
    using assms(4) by (auto simp: reconcileEntries_def Let_def process_all_eq [OF assms(2)] split: bind_splits)
  have "calls w' = calls w1" using updateStatuses_keeps [OF assms(2,3)] up by (metis option.inject)
  then show ?thesis using apply_logged [OF assms(1) ap] by (simp add: cycle_calls_def Let_def)
qed

end

lemma desired_recorded: "desiredEntries (recorded_main r) s = desiredEntries r (fst s)"
proof -
  have p: "podEntry (recorded_main r) s = podEntry r (fst s)"
    unfolding fun_eq_iff podEntry_def recorded_simps recorded_main_simps recorded_kube_simps by (rule refl allI)+
  have i: "identityEntries (recorded_main r) s = identityEntries r (fst s)"
    unfolding fun_eq_iff identityEntries_def recorded_reads p by (rule refl allI)+
  have c: "clusterEntries (recorded_main r) s = clusterEntries r (fst s)"
    unfolding fun_eq_iff clusterEntries_def selects_def recorded_reads i by (rule refl allI)+
  show ?thesis unfolding fun_eq_iff desiredEntries_def c by (rule refl allI)+
qed

lemma cycle_calls_recorded: "cycle_calls (recorded_main r) identities es m s = cycle_calls r identities es m (fst s)"
  by (simp add: cycle_calls_def desired_recorded)

subsection \<open>A table that a cycle has reached\<close>

text \<open>The calls on a table on which the declared table \<open>ds\<close> has been established.\<close>

lemma reconciled_idem:
  "reconciled r ds (reconciled r ds table) = reconciled r ds table"
  by (auto simp: reconciled_def fun_eq_iff split: option.split)

lemma cycle_calls_reconciled:
  assumes "distinct (map ID es)" and "by_id es = reconciled r (desiredTable r w identities m) table"
    and "visits (range_declared r w)" and "visits (range_current r w)"
  shows "\<exists>us. cycle_calls r identities es m w = map Updated us \<and>
    (\<forall>u \<in> set us. u \<in> set es \<and> (\<exists>x \<in> set (Selectors u). \<exists>y \<in> set (Selectors u). Type x = Type y \<and> Value x \<noteq> Value y))"
proof -
  let ?ds = "desiredEntries r w identities (GetAllConnections (range_clusters r w) m)" and ?T = "desiredTable r w identities m"
  let ?init = "fold AddCurrent (filter (shouldProcessEntry r) es) (NewEntriesStateWithPrefix (EntryIDPrefix r)) :: ('a, 'b) entriesState"
  let ?s = "fold (AddDeclared (mr_lib r)) ?ds ?init"
  have wf0: "wf_state (mr_lib r) ?init" by simp
  note st = fold_AddDeclared [OF wf0, of ?ds]
  have "map_of (current ?s) = by_id (rev (filter (\<lambda>e. managed r (ID e)) es))"
    unfolding st(2) map_of_fold_AddCurrent by (simp add: shouldProcessEntry_iff [abs_def])
  then have cur: "map_of (current ?s) = reconciled r ?T table |` {i. managed r i}"
    by (simp add: by_id_rev_filter [OF assms(1)] assms(2))
  have dec: "map_of (declared ?s) = ?T" by (simp add: st(4) desiredTable_def)
  let ?ch = "GetChanges (mr_lib r) (range_declared r w) (range_current r w) ?s"
  note mem = in_changes [OF st(1) assms(3,4)]
  have man: "managed r (ID d)" if "?T (ID d) = Some d" for d
    using wf_state_declared [OF st(1)] that unfolding dec by (metis managed_key st(3) New_fields(3) fold_state_fields(2))
  have "e \<notin> set (creates ?ch)" for e
  proof
    assume "e \<in> set (creates ?ch)"
    then have e: "?T (ID e) = Some e" "(reconciled r ?T table |` {i. managed r i}) (ID e) = None" by (simp_all add: mem dec cur)
    then show False using man [OF e(1)] by (auto simp: reconciled_def split: option.splits if_splits)
  qed
  then have c: "creates ?ch = []" by (metis list.set_intros(1) neq_Nil_conv)
  moreover have "e \<notin> set (deletes ?ch)" for e
  proof
    assume "e \<in> set (deletes ?ch)"
    then have "?T (ID e) = None" "(reconciled r ?T table |` {i. managed r i}) (ID e) = Some e" by (simp_all add: mem dec cur)
    then show False by (auto simp: reconciled_def restrict_map_def split: if_splits)
  qed
  then have d: "deletes ?ch = []" by (metis list.set_intros(1) neq_Nil_conv)
  have "u \<in> set es \<and> (\<exists>x \<in> set (Selectors u). \<exists>y \<in> set (Selectors u). Type x = Type y \<and> Value x \<noteq> Value y)"
    if u: "u \<in> set (updates ?ch)" for u
  proof -
    obtain c where c: "?T (ID u) = Some u" "reconciled r ?T table (ID u) = Some c" "\<not> entriesEqual (mr_lib r) c u"
      using u by (auto simp: mem dec cur restrict_map_def split: if_splits)
    then have "c = u" using man [OF c(1)] by (auto simp: reconciled_def split: option.splits if_splits)
    then have ne: "\<not> entriesEqual (mr_lib r) u u" and "by_id es (ID u) = Some u" using c by (simp_all add: assms(2))
    then have "u \<in> set es" unfolding by_id_Some [OF assms(1)] by (elim conjE)
    moreover have "\<exists>x \<in> set (Selectors u). \<exists>y \<in> set (Selectors u). Type x = Type y \<and> Value x \<noteq> Value y"
      using ne unfolding entriesEqual_refl_iff by blast
    ultimately show ?thesis by (rule conjI)
  qed
  moreover have "cycle_calls r identities es m w =
      map (\<lambda>e. Deleted (ID e)) (deletes ?ch) @ map Created (creates ?ch) @ map Updated (updates ?ch)"
    unfolding cycle_calls_def Let_def case_prod_beta by (rule refl)
  then have "cycle_calls r identities es m w = map Updated (updates ?ch)" by (simp only: c d list.map append.simps)
  ultimately show ?thesis by blast
qed

lemma full_cycle_logged:
  assumes "reconcileAll (recorded_main r) (m, (w, [])) = Some (m', (w', l))" and "selectors_not_nil (mr_kube r)"
  shows "case list_clusters (mr_kube r) w of
      Inl _ \<Rightarrow> m' = m \<and> l = []
    | Inr cls \<Rightarrow> \<exists>w1. syncConnections r cls (m, w) = Some (m', w1) \<and>
        (case list_identities (mr_kube r) w1 of
           Inl _ \<Rightarrow> l = []
         | Inr identities \<Rightarrow> \<exists>x w2. ListEntries (SPIREClient r) w1 = Some (x, w2) \<and>
             l = Listed x # (case x of Inl _ \<Rightarrow> [] | Inr es \<Rightarrow> cycle_calls r identities es m' w2))"
proof (cases "list_clusters (mr_kube r) w")
  case (Inl e)
  then show ?thesis using assms(1) by (simp add: reconcileAll_def)
next
  case (Inr cls)
  obtain s1 where s1: "syncConnections (recorded_main r) cls (m, (w, [])) = Some (m', s1)"
    using assms(1) Inr by (fastforce simp: reconcileAll_def split: bind_splits sum.splits)
  have n1: "snd s1 = []" using syncConnections_keeps [OF recorded_keeps(3) s1] by simp
  have 1: "syncConnections r cls (m, w) = Some (m', fst s1)" using recorded_sync [of r cls "(m, (w, []))"] s1 by (cases s1) simp
  show ?thesis
  proof (cases "list_identities (mr_kube r) (fst s1)")
    case (Inl e)
    then show ?thesis using assms(1) Inr s1 1 n1 by (auto simp: reconcileAll_def)
  next
    case ids: (Inr identities)
    obtain x s2 where s2: "ListEntries (recording (SPIREClient r)) s1 = Some (x, s2)"
      using assms(1) Inr s1 ids by (auto simp: reconcileAll_def split: bind_splits)
    have n2: "snd s2 = [Listed x]" using recorder.list_log [OF s2] n1 by simp
    have 2: "ListEntries (SPIREClient r) (fst s1) = Some (x, fst s2)" using recording_erase(1) [of "SPIREClient r" s1] s2 by (cases s2) simp
    have "l = Listed x # (case x of Inl _ \<Rightarrow> [] | Inr es \<Rightarrow> cycle_calls r identities es m' (fst s2))"
    proof (cases x)
      case (Inl e)
      then show ?thesis using assms(1) Inr s1 ids s2 n2 by (auto simp: reconcileAll_def)
    next
      case es: (Inr es)
      then have "reconcileEntries (recorded_main r) cls identities es m' s2 = Some (w', l)"
        using assms(1) Inr s1 ids s2 by (auto simp: reconcileAll_def split: bind_splits)
      from recorder.reconcile_entries_logged [OF recorded_simps(3) _ recorded_keeps(1) this] assms(2) recorded_keeps(4)
      have "l = snd s2 @ cycle_calls (recorded_main r) identities es m' s2" by auto
      then show ?thesis using n2 es by (simp add: cycle_calls_recorded)
    qed
    then show ?thesis using Inr ids 1 2 by auto
  qed
qed

lemma registrations_unique_reconciled:
  "registrations_unique table ds \<Longrightarrow> registrations_unique (reconciled r ds table) ds"
proof -
  assume u: "registrations_unique table ds"
  have "ran (reconciled r ds table) \<subseteq> ran table \<union> ran ds"
    unfolding reconciled_def ran_def by (auto split: if_splits option.splits)
  then show ?thesis using u unfolding registrations_unique_def by blast
qed

subsection \<open>A pod event and the cycle\<close>

text \<open>What \<open>reconcilePodEntry\<close> does with the entry it has rendered.\<close>

definition putEntry :: "('id, 'td, 'w, 'k) MainReconciler \<Rightarrow> ('id, 'td) Entry \<Rightarrow> 'w \<Rightarrow> 'w option" where
  "putEntry r entry w = do {
     let entry = entry\<lparr>ID := EntryIDPrefix r @ makeEntryKey (mr_lib r) entry\<rparr>;
     (listed, w) \<leftarrow> ListEntries (SPIREClient r) w;
     case find (\<lambda>e. ID e = ID entry) (case listed of Inl _ \<Rightarrow> [] | Inr es \<Rightarrow> es) of
       None \<Rightarrow> map_option snd (CreateEntry (SPIREClient r) entry w)
     | Some existing \<Rightarrow>
         if getOutdatedEntryFields (mr_lib r) entry existing \<noteq> []
         then map_option snd (UpdateEntry (SPIREClient r) entry w)
         else Some w }"

lemma reconcilePodEntry_put:
  fixes r :: "('id, 'td, 'w, 'k) MainReconciler"
  assumes "pod_active pod" and "nodes_Get (mr_kube r) v (K8sClient conn) (NodeName (pod_Spec pod)) = Inr node"
  shows "reconcilePodEntry r pod node identity (conn_Cluster conn) w =
    (case podEntry r v conn identity pod of None \<Rightarrow> Some w | Some e \<Rightarrow> putEntry r e w)"
proof (cases "RenderEntry (mr_lib r) identity (conn_Cluster conn) pod node (TrustDomain_String (mr_lib r) (TrustDomain r))")
  case (Inr e)
  define d where "d = e\<lparr>ID := EntryIDPrefix r @ makeEntryKey (mr_lib r) e\<rparr>"
  have pre: "e\<lparr>ID := if EntryIDPrefix r \<noteq> [] then EntryIDPrefix r @ makeEntryKey (mr_lib r) e else makeEntryKey (mr_lib r) e\<rparr> = d"
    by (simp add: d_def)
  have upd: "d\<lparr>ID := ID x\<rparr> = d" if "find (\<lambda>e. ID e = ID d) es = Some x" for x and es :: "('id, 'td) Entry list"
    using find_Some_mem [OF that] by (cases d) auto
  have body: "(case find (\<lambda>e. ID e = ID d) es of
        None \<Rightarrow> map_option snd (CreateEntry (SPIREClient r) d w)
      | Some x \<Rightarrow> if length (getOutdatedEntryFields (mr_lib r) d x) > 0
          then map_option snd (UpdateEntry (SPIREClient r) (d\<lparr>ID := ID x\<rparr>) w) else Some w) =
      (case find (\<lambda>e. ID e = ID d) es of
        None \<Rightarrow> map_option snd (CreateEntry (SPIREClient r) d w)
      | Some x \<Rightarrow> if getOutdatedEntryFields (mr_lib r) d x \<noteq> [] then map_option snd (UpdateEntry (SPIREClient r) d w) else Some w)" for es w
    using upd by (cases "find (\<lambda>e. ID e = ID d) es") simp_all
  have e: "podEntry r v conn identity pod = Some e" using assms Inr by (simp add: podEntry_def)
  show ?thesis unfolding reconcilePodEntry_def putEntry_def Inr Let_def sum.case e option.case pre d_def [symmetric] body ..
qed (simp add: reconcilePodEntry_def podEntry_def assms)

lemma for_each_map_filter:
  "for_each (\<lambda>x s. case f x of None \<Rightarrow> Some s | Some y \<Rightarrow> g y s) xs s = for_each g (List.map_filter f xs) s"
proof (induction xs arbitrary: s)
  case (Cons x xs)
  have "for_each (\<lambda>x s. case f x of None \<Rightarrow> Some s | Some y \<Rightarrow> g y s) xs = for_each g (List.map_filter f xs)"
    by (rule ext) (rule Cons.IH)
  then show ?case by (cases "f x") (simp_all add: map_filter_simps)
qed (simp add: map_filter_simps)

lemma pod_event_entries:
  assumes "findMatchingIdentities r w pod (conn_Cluster conn) = Some ids"
    and "\<And>i. i \<in> set (identities_of r w) \<Longrightarrow>
      \<exists>ls sel. PodSelector (wi_Spec i) = Some ls \<and> LabelSelectorAsSelector (mr_kube r) (Some ls) = Inr (Some sel)"
    and "PodObj pod \<in> set (store_List (mr_kube r) w (PodInformer conn))"
  shows "identity \<in> set ids \<longleftrightarrow>
    identity \<in> set (identities_of r w) \<and> selects r identity (conn_Cluster conn) \<and> pod_selected r w conn identity pod"
proof (cases "identity \<in> set (identities_of r w)")
  case True
  then obtain ls sel where "PodSelector (wi_Spec identity) = Some ls" "LabelSelectorAsSelector (mr_kube r) (Some ls) = Inr (Some sel)"
    using assms(2) by blast
  then have "identityMatches r pod (conn_Cluster conn) identity = Some True \<longleftrightarrow>
      selects r identity (conn_Cluster conn) \<and> pod_selected r w conn identity pod"
    using assms(3) by (auto simp: identityMatches_def selects_def pod_selected_def split: bind_splits if_splits)
  then show ?thesis using True selectM_mem [OF assms(1) [unfolded findMatchingIdentities_def]] by blast
next
  case False
  then show ?thesis using selectM_mem [OF assms(1) [unfolded findMatchingIdentities_def]] by blast
qed

subsection \<open>Properties\<close>

text \<open>C10: the calls a full cycle makes of the SPIRE server, whatever it answers: none when the objects
  cannot be listed; otherwise one listing; none more when it fails; else a deletion for each surplus
  entry, then a creation for each missing one, then an update for each that differs, each once and in
  this order, although calls before may have failed. It ends with the connections it began with.\<close>

theorem full_cycle_calls:
  assumes "reconcileAll (recorded_main r) (m, (w, [])) = Some (m', (w', l))" and "selectors_not_nil (mr_kube r)"
  shows "case list_clusters (mr_kube r) w of
      Inl _ \<Rightarrow> m' = m \<and> l = []
    | Inr cls \<Rightarrow> \<exists>w1. syncConnections r cls (m, w) = Some (m', w1) \<and>
        (case list_identities (mr_kube r) w1 of
           Inl _ \<Rightarrow> l = []
         | Inr identities \<Rightarrow> \<exists>x w2. ListEntries (SPIREClient r) w1 = Some (x, w2) \<and>
             l = Listed x # (case x of Inl _ \<Rightarrow> [] | Inr es \<Rightarrow> cycle_calls r identities es m' w2))"
  by (rule full_cycle_logged [OF assms])



subsection \<open>The properties on the small installation\<close>

lemma ref_cycle:
  "SPIREClient ref_registrar = spire_client ref_connection" "mr_lib ref_registrar = fst ref_connection"
  "selectors_not_nil (mr_kube ref_registrar)"
  "status_writes_keep (mr_kube ref_registrar) (\<lambda>w. (spire_good ref_connection w, spire_view ref_connection w))"
  "sync_keeps (mr_env ref_registrar) (\<lambda>w. (spire_good ref_connection w, spire_view ref_connection w))"
  "list_clusters (mr_kube ref_registrar) w = Inr [ref_cluster ''east'']" "list_identities (mr_kube ref_registrar) w = Inr [ref_app]"
  using ref_documented by (simp_all add: ref_connection_def)

lemma ref_first_cycle:
  obtains w' where "reconcileAll ref_registrar (ref_mgr, []) = Some (ref_mgr, w')" "spire_good ref_connection w'"
proof -
  have val: "parsed_entry (mr_lib ref_registrar) e \<Longrightarrow> spire_valid ref_connection e" for e by (simp add: ref_connection_def)
  from spire.reconcile_all [OF ref_connection_good(1) ref_cycle(1,3-5) ref_visits val ref_cycle(6) ref_sync ref_cycle(7) ref_unique] that
  show thesis by blast
qed

theorem full_cycle_calls_witness:
  "\<exists>w' e. reconcileAll (recorded_main ref_registrar) (ref_mgr, ([], [])) = Some (ref_mgr, (w', [Listed (Inr []), Created e])) \<and>
     HasPrefix (ID e) ''p.''"
proof -
  obtain w' where "reconcileAll ref_registrar (ref_mgr, []) = Some (ref_mgr, w')" by (rule ref_first_cycle)
  then obtain l where run: "reconcileAll (recorded_main ref_registrar) (ref_mgr, ([], [])) = Some (ref_mgr, (w', l))"
    using recorded_cycle [of ref_registrar "(ref_mgr, ([], []))"] by auto
  obtain d where d: "desiredEntries ref_registrar [] [ref_app] [ref_conn] = [d]" using ref_desired by blast
  have es: "ListEntries (SPIREClient ref_registrar) [] = Some (Inr [], [])" using spire.list_law [OF ref_connection_good(1)]
    by (auto simp: ref_connection_good)
  have "cycle_calls ref_registrar [ref_app] [] ref_mgr [] = [Created (d\<lparr>ID := ''p.'' @ makeEntryKey ref_lib d\<rparr>)]"
    using d by (simp add: cycle_calls_def GetAllConnections_def ref_mgr_def GetChanges_def AddDeclared_def Let_def declaredID_eq
        NewEntriesStateWithPrefix_def createOf_def updateOf_def map_filter_simps)
  then have "l = [Listed (Inr []), Created (d\<lparr>ID := ''p.'' @ makeEntryKey ref_lib d\<rparr>)]"
    using full_cycle_calls [OF run] ref_documented(1) es ref_sync by simp
  then show ?thesis using run by (intro exI [of _ w'] exI [of _ "d\<lparr>ID := ''p.'' @ makeEntryKey ref_lib d\<rparr>"]) (simp add: HasPrefix_append)
qed

lemma ref_desired_constant: "desiredTable ref_registrar w [ref_app] ref_mgr = desiredTable ref_registrar [] [ref_app] ref_mgr"
proof -
  have p: "podEntry ref_registrar w = podEntry ref_registrar []"
    unfolding fun_eq_iff podEntry_def ref_main_simps ref_kube_simps by (rule refl allI)+
  have g: "getPodsFromInformer ref_registrar w = getPodsFromInformer ref_registrar []"
    unfolding fun_eq_iff getPodsFromInformer_def ref_main_simps ref_kube_simps by (rule refl allI)+
  have i: "identityEntries ref_registrar w = identityEntries ref_registrar []"
    unfolding fun_eq_iff identityEntries_def p g by (rule refl allI)+
  have c: "clusterEntries ref_registrar w = clusterEntries ref_registrar []"
    unfolding fun_eq_iff clusterEntries_def i by (rule refl allI)+
  show ?thesis unfolding desiredTable_def desiredEntries_def c ref_main_simps by (rule refl)
qed



end
