(* ===== verification/Fault_Tolerance.thy ===== *)
theory Fault_Tolerance
  imports System
begin

text \<open>
  The handlers when the SPIRE server fails: any call may be refused, at any time, and a listing may
  break off between two pages. All that is assumed is that calls are answered at all and that the
  answers are well-formed messages. Shown: every handler returns, without a panic; and, the other way
  round, one cluster whose pods never arrive keeps every full cycle from ever returning.
\<close>

lemma for_each_returns: "(\<And>x t. \<exists>t'. f x t = Some t') \<Longrightarrow> \<exists>s'. for_each f xs s = Some s'"
  using for_each_total [of "\<lambda>_. True" s xs f] by simp

subsection \<open>A client that always answers\<close>

locale answering_client =
  fixes client :: "'c \<Rightarrow> ('id, 'td, 'w) Client"
    and ok :: "'c \<Rightarrow> bool"
  assumes list_answers: "ok c \<Longrightarrow> \<exists>x w'. ListEntries (client c) w = Some (x, w')"
    and create_answers: "ok c \<Longrightarrow> \<exists>err w'. CreateEntry (client c) e w = Some (err, w')"
    and update_answers: "ok c \<Longrightarrow> \<exists>err w'. UpdateEntry (client c) e w = Some (err, w')"
    and delete_answers: "ok c \<Longrightarrow> \<exists>err w'. DeleteEntry (client c) i w = Some (err, w')"
    and batch_delete_answers: "ok c \<Longrightarrow> \<exists>sts err w'. BatchDeleteEntries (client c) is w = Some ((sts, err), w') \<and> length sts \<le> length is"
begin

lemma each_answers:
  assumes "ok c"
  shows "\<exists>w'. for_each (\<lambda>e w. map_option snd (CreateEntry (client c) e w)) xs w = Some w'"
    "\<exists>w'. for_each (\<lambda>e w. map_option snd (UpdateEntry (client c) e w)) xs w = Some w'"
    "\<exists>w'. for_each (\<lambda>e w. if P e then map_option snd (DeleteEntry (client c) (ID e) w) else Some w) xs w = Some w'"
    "\<exists>w'. for_each (\<lambda>e w. if P e then Some w else if Q e then map_option snd (DeleteEntry (client c) (ID e) w) else Some w) xs w = Some w'"
proof -
  have "\<exists>w'. map_option snd (CreateEntry (client c) e w) = Some w'" "\<exists>w'. map_option snd (UpdateEntry (client c) e w) = Some w'"
    "\<exists>w'. map_option snd (DeleteEntry (client c) i w) = Some w'" for e i w
    using create_answers [OF assms, of e w] update_answers [OF assms, of e w] delete_answers [OF assms, of i w] by auto
  then show "\<exists>w'. for_each (\<lambda>e w. map_option snd (CreateEntry (client c) e w)) xs w = Some w'"
    "\<exists>w'. for_each (\<lambda>e w. map_option snd (UpdateEntry (client c) e w)) xs w = Some w'"
    "\<exists>w'. for_each (\<lambda>e w. if P e then map_option snd (DeleteEntry (client c) (ID e) w) else Some w) xs w = Some w'"
    "\<exists>w'. for_each (\<lambda>e w. if P e then Some w else if Q e then map_option snd (DeleteEntry (client c) (ID e) w) else Some w) xs w = Some w'"
    by (auto intro!: for_each_returns)
qed

lemma delete_where_returns:
  assumes "ok c" and "SPIREClient r = client c"
  shows "\<exists>w'. deleteWhere r P w = Some w'"
proof -
  obtain x w1 where "ListEntries (client c) w = Some (x, w1)" using list_answers [OF assms(1)] by blast
  then show ?thesis using each_answers(3) [OF assms(1)] unfolding deleteWhere_def assms(2) by (cases x) simp_all
qed

lemma apply_returns:
  assumes "ok c" and "SPIREClient r = client c"
  shows "\<exists>w'. applyEntryChanges r s w = Some w'"
proof -
  obtain cs us ds where ch: "GetChanges (mr_lib r) (range_declared r w) (range_current r w) s = (cs, us, ds)" by (metis prod_cases3)
  obtain w1 where "for_each (\<lambda>e w. map_option snd (DeleteEntry (client c) (ID e) w)) ds w = Some w1"
    using each_answers(3) [OF assms(1), of "\<lambda>_. True" ds w] by auto
  moreover obtain w2 where "for_each (\<lambda>e w. map_option snd (CreateEntry (client c) e w)) cs w1 = Some w2"
    using each_answers(1) [OF assms(1)] by blast
  moreover obtain w3 where "for_each (\<lambda>e w. map_option snd (UpdateEntry (client c) e w)) us w2 = Some w3"
    using each_answers(2) [OF assms(1)] by blast
  ultimately show ?thesis by (simp add: applyEntryChanges_def ch assms(2))
qed

lemma cycle_answers:
  assumes "ok c" and "SPIREClient r = client c" and "selectors_not_nil (mr_kube r)" and "connecting_returns (mr_env r)" and "wf_manager m"
  shows "\<exists>x. reconcileAll r (m, w) = Some x"
proof (cases "list_clusters (mr_kube r) w")
  case (Inl e)
  then show ?thesis by (simp add: reconcileAll_def)
next
  case (Inr cls)
  obtain m1 w1 where s: "syncConnections r cls (m, w) = Some (m1, w1)" using syncConnections_returns [OF assms(4,5)] by blast
  obtain x w2 where l: "ListEntries (client c) w1 = Some (x, w2)" using list_answers [OF assms(1)] by blast
  have "\<exists>w'. reconcileEntries r cls identities es m1 w2 = Some w'" for identities es
  proof -
    have "status_writes_keep (mr_kube r) (\<lambda>_. ())" by (simp add: status_writes_keep_def)
    then have "\<exists>w'. updateStatuses r m1 identities cls st v = Some w'" for st v
      using updateStatuses_keeps [OF assms(3)] by blast
    moreover have "\<exists>v. applyEntryChanges r st w2 = Some v" for st by (rule apply_returns [OF assms(1,2)])
    ultimately show ?thesis
      unfolding reconcileEntries_def process_all_eq [OF assms(3)] by (metis (no_types, lifting) bind.bind_lunit)
  qed
  then have "\<exists>y. Option.bind (reconcileEntries r cls identities es m1 w2) (\<lambda>w. Some (m1, w)) = Some y" for identities es
    by (metis bind.bind_lunit)
  then show ?thesis using Inr s l assms(2) by (cases x) (auto simp: reconcileAll_def split: sum.split)
qed

lemma pod_entry_returns:
  assumes "ok c" and "SPIREClient r = client c"
  shows "\<exists>w'. reconcilePodEntry r pod node identity cluster w = Some w'"
proof -
  obtain x w1 where "ListEntries (client c) w = Some (x, w1)" using list_answers [OF assms(1)] by blast
  moreover have "\<exists>w'. map_option snd (CreateEntry (client c) e v) = Some w'" "\<exists>w'. map_option snd (UpdateEntry (client c) e v) = Some w'" for e v
    using create_answers [OF assms(1), of e v] update_answers [OF assms(1), of e v] by auto
  ultimately show ?thesis
    by (auto simp: reconcilePodEntry_def Let_def assms(2) split: sum.split option.split)
qed

lemma pods_return:
  assumes "ok c" and "SPIREClient r = client c"
  shows "\<exists>w'. reconcilePods r conn identity cluster pods w = Some w'"
proof -
  have "\<exists>w'. reconcilePods r conn identity cluster pods w = Some w' \<and> True"
    unfolding reconcilePods_def by (rule for_each_total) (auto split: sum.split intro: pod_entry_returns [OF assms])
  then show ?thesis by simp
qed

lemma single_pod_answers:
  assumes "ok c" and "SPIREClient r = client c" and "selectors_not_nil (mr_kube r)"
    and sel: "\<And>i. i \<in> set (identities_of r w) \<Longrightarrow> \<exists>x. LabelSelectorAsSelector (mr_kube r) (PodSelector (wi_Spec i)) = Inr x"
  shows "\<exists>w'. ReconcileSinglePod r m pod cluster action w = Some w'"
proof -
  have "\<exists>b. identityMatches r pod cluster i = Some b" if "i \<in> set (identities_of r w)" for i
    using sel [OF that] assms(3) shouldProcessIdentity_total [OF assms(3)]
    by (auto simp: identityMatches_def selectors_not_nil_def split: option.split sum.split)
  then obtain ids where "findMatchingIdentities r w pod cluster = Some ids"
    using selectM_returns unfolding findMatchingIdentities_def by blast
  moreover have "\<exists>w'. deleteEntriesForPod r pod w = Some w'"
    unfolding deleteEntriesForPod_def by (rule delete_where_returns [OF assms(1,2)])
  moreover have "\<exists>w'. for_each (\<lambda>identity. reconcilePodEntry r pod node identity cluster) ids w = Some w' \<and> True" for node
    by (rule for_each_total) (simp_all add: pod_entry_returns [OF assms(1,2)])
  ultimately show ?thesis by (fastforce simp: ReconcileSinglePod_def split: option.split sum.split)
qed

lemma cleanup_returns:
  assumes "ok c" and "SPIREClient r = client c" and "selectors_not_nil (mr_kube r)"
  shows "\<exists>w'. cleanupOrphanedEntriesForIdentity r m identity w = Some w'" "\<exists>w'. cleanupOrphanedEntriesForCluster r m cluster w = Some w'"
proof -
  obtain x w1 where l: "ListEntries (client c) w = Some (x, w1)" using list_answers [OF assms(1)] by blast
  obtain u1 u2 where "validUIDsForIdentity r m w1 identity = Some u1" "validUIDsForCluster r m w1 cluster = Some u2"
    using matching_total(3,4) [OF assms(3)] by metis
  then show "\<exists>w'. cleanupOrphanedEntriesForIdentity r m identity w = Some w'" "\<exists>w'. cleanupOrphanedEntriesForCluster r m cluster w = Some w'"
    using l each_answers(4) [OF assms(1)]
    unfolding cleanupOrphanedEntriesForIdentity_def cleanupOrphanedEntriesForCluster_def assms(2) by (simp_all split: sum.split)
qed

lemma identity_answers:
  assumes "ok c" and "SPIREClient r = client c" and "selectors_not_nil (mr_kube r)"
  shows "\<exists>w'. ReconcileWorkloadIdentity r m identity deleted w = Some w'"
proof -
  obtain cls where cls: "findMatchingClusters r w identity = Some cls" using matching_total(1) [OF assms(3)] by blast
  have "\<exists>w1. for_each (\<lambda>cluster w. case GetClusterConnection (ec_Name cluster) m of
           None \<Rightarrow> Some w
         | Some conn \<Rightarrow> reconcilePods r conn identity cluster (getMatchingPods r w conn identity) w) cls w = Some w1 \<and> True"
    by (rule for_each_total) (simp_all add: pods_return [OF assms(1,2)] split: option.split)
  then show ?thesis
    using cls cleanup_returns(1) [OF assms] delete_where_returns [OF assms(1,2)]
    by (auto simp: ReconcileWorkloadIdentity_def deleteEntriesForIdentity_def)
qed

lemma cluster_answers:
  assumes "ok c" and "SPIREClient r = client c" and "selectors_not_nil (mr_kube r)" and "connecting_returns (mr_env r)" and "wf_manager m"
  shows "\<exists>x. ReconcileEKSCluster r cluster deleted (m, w) = Some x"
proof -
  obtain err m1 w1 where add: "AddOrUpdateCluster (mr_env r) cluster m w = Some (err, m1, w1)"
    using AddOrUpdateCluster_returns [OF assms(4,5)] by blast
  obtain ids where ids: "findIdentitiesForCluster r w1 cluster = Some ids" using matching_total(2) [OF assms(3)] by blast
  have "\<exists>w2. for_each (\<lambda>identity w. reconcilePods r conn identity cluster (getMatchingPods r w conn identity) w) ids w1 = Some w2 \<and> True" for conn
    by (rule for_each_total) (simp_all add: pods_return [OF assms(1,2)])
  then have pods: "\<exists>w2. for_each (\<lambda>identity w. reconcilePods r conn identity cluster (getMatchingPods r w conn identity) w) ids w1 = Some w2" for conn
    by simp
  obtain w3 where d: "deleteEntriesForCluster r cluster w = Some w3"
    using delete_where_returns [OF assms(1,2)] unfolding deleteEntriesForCluster_def by blast
  obtain m2 where rm: "RemoveCluster (ec_Name cluster) m = Some m2" using RemoveCluster_shape [OF assms(5)] by blast
  show ?thesis
  proof (cases "deleted \<or> \<not> Enabled (ec_Spec cluster)")
    case True
    then show ?thesis using d rm by (auto simp: ReconcileEKSCluster_def)
  next
    case False
    show ?thesis
    proof (cases "err = None \<and> GetClusterConnection (ec_Name cluster) m1 \<noteq> None")
      case True
      then obtain conn where c: "GetClusterConnection (ec_Name cluster) m1 = Some conn" "err = None" by blast
      obtain w2 where w2: "for_each (\<lambda>identity w. reconcilePods r conn identity cluster (getMatchingPods r w conn identity) w) ids w1 = Some w2"
        using pods by blast
      obtain w4 where "cleanupOrphanedEntriesForCluster r m1 cluster w2 = Some w4" using cleanup_returns(2) [OF assms(1-3)] by blast
      then show ?thesis using False add ids c w2 by (simp add: ReconcileEKSCluster_def)
    next
      case conn: False
      then show ?thesis using False add by (auto simp: ReconcileEKSCluster_def split: option.split)
    qed
  qed
qed

lemma owner_answers:
  assumes "ok c" and "dr_SPIREClient dr = client c"
  shows "\<exists>err w'. deleteEntriesForOwner dr t n w = Some (err, w')"
proof -
  obtain x w1 where l: "ListEntries (client c) w = Some (x, w1)" using list_answers [OF assms(1)] by blast
  show ?thesis
  proof (cases x)
    case (Inr es)
    let ?ids = "map ID (filter (\<lambda>entry. ownedBy t n (Hint entry)) es)"
    obtain sts err w2 where "BatchDeleteEntries (client c) ?ids w1 = Some ((sts, err), w2)" "length sts \<le> length ?ids"
      using batch_delete_answers [OF assms(1)] by metis
    then show ?thesis using l Inr
      by (auto simp: deleteEntriesForOwner_def assms(2) Let_def split: option.split)
  qed (use l in \<open>simp add: deleteEntriesForOwner_def assms(2)\<close>)
qed

lemma deletion_answers:
  assumes "ok c" and "dr_SPIREClient dr = client c"
  shows "\<exists>x. deletion_ReconcileWorkloadIdentity dr name w = Some x" "\<exists>x. deletion_ReconcileEKSClusterRegistry dr name w = Some x"
proof -
  obtain f g where "deleteEntriesForOwner dr t n v = Some (f t n v, g t n v)" for t n v using owner_answers [OF assms] by metis
  then show "\<exists>x. deletion_ReconcileWorkloadIdentity dr name w = Some x" "\<exists>x. deletion_ReconcileEKSClusterRegistry dr name w = Some x"
    by (simp_all add: deletion_ReconcileWorkloadIdentity_def deletion_ReconcileEKSClusterRegistry_def split: sum.split option.split)
qed

end

subsection \<open>A server that may fail, but answers with well-formed messages\<close>

text \<open>
  Every page of a listing may be the last one, or be refused; the world moves on between two pages.
  A listed entry has a SPIFFE ID and a parent ID; a batch is refused or answered with at most one
  result, with a status, for each of its items.
\<close>

definition complete_entry :: "api_Entry \<Rightarrow> bool" where
  "complete_entry a \<longleftrightarrow> api_SpiffeId a \<noteq> None \<and> api_ParentId a \<noteq> None"

inductive listing_ends :: "'w entry_rpc \<Rightarrow> 'w \<Rightarrow> string \<Rightarrow> bool" for rpc where
  refused: "rpc_ListEntries rpc w tok 1000 = (Inl err, w') \<Longrightarrow> listing_ends rpc w tok"
| final_page: "rpc_ListEntries rpc w tok 1000 = (Inr (es, []), w') \<Longrightarrow> list_all complete_entry es \<Longrightarrow> listing_ends rpc w tok"
| more_pages: "rpc_ListEntries rpc w tok 1000 = (Inr (es, nxt), w') \<Longrightarrow> list_all complete_entry es \<Longrightarrow> nxt \<noteq> [] \<Longrightarrow>
    listing_ends rpc w' nxt \<Longrightarrow> listing_ends rpc w tok"

definition tidy_answer :: "nat \<Rightarrow> (go_error + api_Result list) \<times> 'w \<Rightarrow> bool" where
  "tidy_answer n answer \<longleftrightarrow>
     (case fst answer of Inl _ \<Rightarrow> True | Inr rs \<Rightarrow> length rs \<le> n \<and> list_all (\<lambda>r. res_Status r \<noteq> None) rs)"

definition orderly_rpc :: "'w entry_rpc \<Rightarrow> bool" where
  "orderly_rpc rpc \<longleftrightarrow>
     (\<forall>w. listing_ends rpc w []) \<and>
     (\<forall>w es. tidy_answer (length es) (rpc_BatchCreateEntry rpc w es)) \<and>
     (\<forall>w es. tidy_answer (length es) (rpc_BatchUpdateEntry rpc w es)) \<and>
     (\<forall>w is. tidy_answer (length is) (rpc_BatchDeleteEntry rpc w is))"

lemma orderly_rpcD:
  assumes "orderly_rpc rpc"
  shows "listing_ends rpc w []" "tidy_answer (length es) (rpc_BatchCreateEntry rpc w es)"
    "tidy_answer (length es) (rpc_BatchUpdateEntry rpc w es)" "tidy_answer (length is) (rpc_BatchDeleteEntry rpc w is)"
  using assms by (simp_all add: orderly_rpc_def)

lemma fromAPIEntries_returns: "list_all complete_entry es \<Longrightarrow> \<exists>r. fromAPIEntries l es = Some r"
  by (induction es) (auto simp: complete_entry_def fromAPIEntry_def split: sum.splits)

lemma ListEntries_loop_returns: "listing_ends rpc w tok \<Longrightarrow> \<exists>x w'. ListEntries_loop l rpc tok acc w = Some (x, w')"
proof (induction arbitrary: acc rule: listing_ends.induct)
  case (refused w tok err w')
  then show ?case by (simp add: ListEntries_loop.simps)
next
  case (final_page w tok es w')
  then show ?case using fromAPIEntries_returns [of es l] by (auto simp: ListEntries_loop.simps [of l rpc tok] split: sum.split)
next
  case (more_pages w tok es nxt w')
  then obtain r where r: "fromAPIEntries l es = Some r" using fromAPIEntries_returns by blast
  show ?case
  proof (cases r)
    case (Inr page)
    then show ?thesis using r more_pages.hyps more_pages.IH [of "acc @ page"] by (simp add: ListEntries_loop.simps [of l rpc tok])
  qed (use r more_pages.hyps in \<open>simp add: ListEntries_loop.simps [of l rpc tok]\<close>)
qed

text \<open>The first status of an orderly answer can be read.\<close>

lemma first_status_returns: "tidy_answer n (Inr rs, w') \<Longrightarrow> \<exists>st. first_status rs = Some st"
  by (cases rs) (auto simp: tidy_answer_def first_status_def)

lemma single_calls_return:
  assumes "orderly_rpc rpc"
  shows "\<exists>err w'. client_CreateEntry l rpc e w = Some (err, w')" "\<exists>err w'. client_UpdateEntry l rpc e w = Some (err, w')"
    "\<exists>err w'. client_DeleteEntry rpc i w = Some (err, w')"
  using orderly_rpcD(2) [OF assms, of "[toAPIEntry l e]" w] orderly_rpcD(3) [OF assms, of "[toAPIEntry l e]" w]
    orderly_rpcD(4) [OF assms, of "[i]" w]
  unfolding client_CreateEntry_def client_UpdateEntry_def client_DeleteEntry_def
  by (fastforce dest: first_status_returns split: sum.splits option.splits prod.splits)+

lemma batch_body_returns:
  assumes "\<And>w. tidy_answer (length batch) (call w batch)"
  shows "\<exists>err w' sts. batch_body call logs batch (w, acc) = Some (err, w', sts) \<and> length sts \<le> length acc + length batch"
  using assms [of w] by (auto simp: batch_body_def tidy_answer_def split: sum.splits prod.splits)

lemma run_chunks_returns:
  assumes "\<And>c w. c \<in> set cs \<Longrightarrow> tidy_answer (length c) (call w c)"
  shows "\<exists>err w' sts. run_chunks (batch_body call logs) cs (w, acc) = Some (err, w', sts) \<and> length sts \<le> length acc + length (concat cs)"
  using assms
proof (induction cs arbitrary: w acc)
  case (Cons c cs)
  from batch_body_returns [of c call] Cons.prems obtain err w1 sts where
    b: "batch_body call logs c (w, acc) = Some (err, w1, sts)" "length sts \<le> length acc + length c" by (metis list.set_intros(1))
  from Cons.IH [of w1 sts] Cons.prems obtain e w2 sts' where
    "run_chunks (batch_body call logs) cs (w1, sts) = Some (e, w2, sts')" "length sts' \<le> length sts + length (concat cs)" by auto
  then show ?case using b by (cases err) auto
qed simp

lemma batch_delete_returns:
  assumes "orderly_rpc rpc"
  shows "\<exists>sts err w'. client_BatchDeleteEntries rpc is w = Some ((sts, err), w') \<and> length sts \<le> length is"
proof -
  have "\<exists>err w' sts. run_chunks (batch_body (rpc_BatchDeleteEntry rpc) (\<lambda>_. True)) (chunks 200 is) (w, []) = Some (err, w', sts) \<and>
      length sts \<le> length ([] :: Status list) + length (concat (chunks 200 is))"
    by (rule run_chunks_returns) (rule orderly_rpcD(4) [OF assms])
  then show ?thesis
    unfolding client_BatchDeleteEntries_def runBatch_chunks [where f = "batch_body (rpc_BatchDeleteEntry rpc) (\<lambda>_. True)"]
    by (auto simp: entryDeleteBatchSize_def concat_chunks)
qed

interpretation answers: answering_client "\<lambda>(l, rpc). NewClient l rpc" "\<lambda>(l, rpc). orderly_rpc rpc"
proof
  fix c :: "('id, 'td) lib \<times> 'w entry_rpc" and w :: 'w and e :: "('id, 'td) Entry" and i :: string and "is" :: "string list"
  obtain l rpc where c: "c = (l, rpc)" by (cases c)
  assume "case c of (l, rpc) \<Rightarrow> orderly_rpc rpc"
  then have ok: "orderly_rpc rpc" by (simp add: c)
  show "\<exists>x w'. ListEntries (case c of (l, rpc) \<Rightarrow> NewClient l rpc) w = Some (x, w')"
    using ListEntries_loop_returns [OF orderly_rpcD(1) [OF ok]] by (simp add: c NewClient_def client_ListEntries_def)
  show "\<exists>err w'. CreateEntry (case c of (l, rpc) \<Rightarrow> NewClient l rpc) e w = Some (err, w')"
    "\<exists>err w'. UpdateEntry (case c of (l, rpc) \<Rightarrow> NewClient l rpc) e w = Some (err, w')"
    "\<exists>err w'. DeleteEntry (case c of (l, rpc) \<Rightarrow> NewClient l rpc) i w = Some (err, w')"
    using single_calls_return [OF ok] by (simp_all add: c NewClient_def)
  show "\<exists>sts err w'. BatchDeleteEntries (case c of (l, rpc) \<Rightarrow> NewClient l rpc) is w = Some ((sts, err), w') \<and> length sts \<le> length is"
    using batch_delete_returns [OF ok] by (simp add: c NewClient_def)
qed

subsection \<open>The manager's invariant needs nothing of the server\<close>

lemma reconcileAll_manager:
  assumes "reconcileAll r (m, w) = Some (m', w')"
  shows "m' = m \<or> (\<exists>cls w1. syncConnections r cls (m, w) = Some (m', w1))"
  using assms by (auto simp: reconcileAll_def split: sum.splits bind_splits)

lemma ReconcileEKSCluster_wf:
  assumes "ReconcileEKSCluster r cluster deleted (m, w) = Some (m', w')" and "wf_manager m"
  shows "wf_manager m'"
proof (cases "deleted \<or> \<not> Enabled (ec_Spec cluster)")
  case True
  then show ?thesis using assms(1) RemoveCluster_shape [OF assms(2), of "ec_Name cluster"]
    by (auto simp: ReconcileEKSCluster_def split: bind_splits)
next
  case False
  then obtain err m1 w1 where add: "AddOrUpdateCluster (mr_env r) cluster m w = Some (err, m1, w1)"
    using assms(1) by (auto simp: ReconcileEKSCluster_def split: bind_splits)
  then have "m' = m1" using assms(1) False by (auto simp: ReconcileEKSCluster_def split: bind_splits option.splits)
  then show ?thesis using AddOrUpdateCluster_shape [OF add assms(2)] by simp
qed

lemma reachable_wf:
  assumes "reachable r dr others w0 s" and "\<And>w. visits (range_clusters r w)"
  shows "wf_manager (manager s)"
  using assms(1)
proof (induction rule: reachable.induct)
  case (reach_start m l)
  then show ?case using main_start_wf by auto
next
  case (reach_step s s')
  from reach_step.hyps(2) show ?case
  proof (cases rule: sys_step.cases)
    case (sys_cycle l m w)
    then show ?thesis using reconcileAll_manager [OF sys_cycle(3)] sync_connections [OF _ reach_step.IH assms(2)] reach_step.IH
      by fastforce
  next
    case (sys_cluster name err m w)
    then show ?thesis using ReconcileEKSCluster_wf [OF _ reach_step.IH] reach_step.IH
      by (auto simp: EKSClusterRegistryReconciler_Reconcile_def split: sum.splits if_splits)
  next
    case (sys_cleanup now)
    then show ?thesis using reach_step.IH by (simp add: cleanup_tick_def wf_manager_def CleanupStaleClients_wf)
  qed (use reach_step.IH in simp_all)
qed

subsection \<open>One cluster that never syncs\<close>

lemma AddOrUpdateCluster_blocks:
  assumes "Enabled (ec_Spec c)" and "GetClusterConnection (ec_Name c) m = None"
    and "\<And>w clients. \<exists>k clients'. GetClusterClient (cl_aws env) w c clients = Some (Inr k, clients')"
    and "\<And>w i. inf_cluster i = ec_Name c \<Longrightarrow> WaitForCacheSync env w i = None"
  shows "AddOrUpdateCluster env c m w = None"
proof -
  obtain k clients where "GetClusterClient (cl_aws env) w c (awsClients m) = Some (Inr k, clients)" using assms(3) by blast
  then show ?thesis using assms(1,2,4)
    by (simp add: AddOrUpdateCluster_def GetClusterConnection_def connectCluster_def createClusterConnection_def
        createK8sClient_def createPodInformer_def Let_def)
qed

lemma add_each_blocks:
  assumes "Enabled (ec_Spec c)" and "GetClusterConnection (ec_Name c) m = None"
    and "\<And>w clients. \<exists>k clients'. GetClusterClient (cl_aws env) w c clients = Some (Inr k, clients')"
    and "\<And>w i. inf_cluster i = ec_Name c \<Longrightarrow> WaitForCacheSync env w i = None"
    and "wf_manager m" and "c \<in> set cls" and "distinct (map ec_Name cls)"
  shows "for_each (\<lambda>cluster (m, w). map_option snd (AddOrUpdateCluster env cluster m w)) cls (m, w) = None"
  using assms(2,5-7)
proof (induction cls arbitrary: m w)
  case (Cons d cls)
  show ?case
  proof (cases "d = c")
    case True
    then show ?thesis using AddOrUpdateCluster_blocks [OF assms(1) Cons.prems(1) assms(3,4), of w] by simp
  next
    case False
    then have c: "c \<in> set cls" using Cons.prems(3) by simp
    have "ec_Name d \<notin> ec_Name ` set cls" using Cons.prems(4) by simp
    then have n: "ec_Name c \<noteq> ec_Name d" using c by (metis image_eqI)
    show ?thesis
    proof (cases "AddOrUpdateCluster env d m w")
      case (Some y)
      obtain err m1 w1 where y: "y = (err, m1, w1)" by (cases y)
      have "wf_manager m1" "GetClusterConnection (ec_Name c) m1 = None"
        using AddOrUpdateCluster_shape [OF Some [unfolded y] Cons.prems(2)] n Cons.prems(1)
        by (simp_all add: GetClusterConnection_def)
      from Cons.IH [OF this(2,1) c] Cons.prems(4) show ?thesis using Some y by simp
    qed simp
  qed
qed simp

subsection \<open>Properties\<close>


text \<open>One cluster stops all of them. When an enabled cluster that is not connected yet can be given a
  client but its pods never arrive, so that waiting for its informer does not end, no full cycle
  that lists it returns, wherever it stands in the list, and neither does the event controller for it:
  the wait happens under the manager's lock, and only the operations that need that lock could end it.\<close>

theorem unsynced_cluster_blocks_cycle:
  assumes "Enabled (ec_Spec c)" and "GetClusterConnection (ec_Name c) m = None" and "wf_manager m"
    and "\<And>w clients. \<exists>k clients'. GetClusterClient (cl_aws (mr_env r)) w c clients = Some (Inr k, clients')"
    and "\<And>w i. inf_cluster i = ec_Name c \<Longrightarrow> WaitForCacheSync (mr_env r) w i = None"
    and "list_clusters (mr_kube r) w = Inr cls" and "c \<in> set cls" and "distinct (map ec_Name cls)"
  shows "reconcileAll r (m, w) = None \<and> ReconcileEKSCluster r c False (m, w) = None"
  using add_each_blocks [OF assms(1,2,4,5,3,7,8)] AddOrUpdateCluster_blocks [OF assms(1,2,4,5)] assms(1,6)
  by (simp add: reconcileAll_def syncConnections_def ReconcileEKSCluster_def)

text \<open>A server that breaks off every listing after the first page, losing its entries, refuses to create
  and update, and answers deletions with nothing.\<close>

definition ref_failing :: "ref_world entry_rpc" where
  "ref_failing =
     \<lparr>rpc_ListEntries = (\<lambda>w tok n. if tok = [] then (Inr ([], ''2''), []) else (Inl (Errs ''unavailable''), w)),
      rpc_BatchCreateEntry = (\<lambda>w es. (Inl (Errs ''unavailable''), w)), rpc_BatchUpdateEntry = (\<lambda>w es. (Inl (Errs ''unavailable''), w)),
      rpc_BatchDeleteEntry = (\<lambda>w is. (Inr [], w))\<rparr>"

lemma ref_failing_orderly: "orderly_rpc ref_failing"
proof -
  have "listing_ends ref_failing w ''2''" for w by (rule refused [where err = "Errs ''unavailable''" and w' = w]) (simp add: ref_failing_def)
  then have "listing_ends ref_failing w []" for w
    by (rule more_pages [where es = "[]" and nxt = "''2''" and w' = "[]", rotated 3]) (simp_all add: ref_failing_def)
  then show ?thesis by (simp add: orderly_rpc_def tidy_answer_def ref_failing_def)
qed


text \<open>An account whose clusters all answer, and one cluster whose pods never arrive.\<close>

definition ref_hanging :: "(ref_world, unit) cluster_env" where
  "ref_hanging =
     \<lparr>cl_aws = \<lparr>DescribeCluster = (\<lambda>w region name. Inr (Some \<lparr>Endpoint = Some ''https'', CertificateAuthority = Some (Some ''Y2E='')\<rparr>)),
        ClientConfig = (\<lambda>kc. Inr (Inr ())), clientcmd_Write = (\<lambda>kc. Inr []), aws_Now = (\<lambda>w. 0)\<rparr>,
      WaitForCacheSync = (\<lambda>w i. if inf_cluster i = ''east'' then None else Some (True, w))\<rparr>"

theorem unsynced_cluster_blocks_cycle_witness:
  "reconcileAll (ref_registrar\<lparr>mr_env := ref_hanging\<rparr>) (ref_mgr\<lparr>made := 0, clusters := []\<rparr>, []) = None"
proof -
  let ?r = "ref_registrar\<lparr>mr_env := ref_hanging\<rparr>" and ?c = "ref_cluster ''east''"
  have dec: "DecodeString ''Y2E='' = Inr ''ca''" by code_simp
  have client: "\<exists>k clients'. GetClusterClient (cl_aws ref_hanging) w ?c clients = Some (Inr k, clients')" for w clients
    by (simp add: GetClusterClient_def createClusterClient_def cluster_kubeconfig_def NewKubeConfigForCluster_def ref_hanging_def StringValue_def ebind_def wrap_def dec
        Let_def split: option.split)
  then have client': "\<exists>k clients'. GetClusterClient (cl_aws (mr_env ?r)) w ?c clients = Some (Inr k, clients')" for w clients by simp
  show ?thesis
    by (rule conjunct1 [OF unsynced_cluster_blocks_cycle [OF _ _ _ client', where cls = "[?c]"]])
      (simp_all add: ref_hanging_def ref_objects GetClusterConnection_def wf_manager_def ref_mgr_def)
qed

end
