(* ===== verification/By_Object.thy ===== *)
theory By_Object
  imports Reference_Env
begin

text \<open>
  \<open>internal/spireentry/byobject.go\<close>: the order on the objects that asked for an entry. Time
  differences are 64-bit and wrap around. Shown: for times less than \<open>2^62\<close> nanoseconds from the
  epoch the comparison is the one of the order by creation, deletion and UID.
\<close>

definition s64 :: "int \<Rightarrow> int" where
  "s64 x = (x + 2 ^ 63) mod 2 ^ 64 - 2 ^ 63"

text \<open>The interface \<open>byObject\<close>, as far as the comparison uses it, is the metadata of the identity;
  \<open>stats\<close> is shared with the owner, so the increments return the new statistics.\<close>

record workloadIdentityBy =
  by_identity :: WorkloadIdentity
  by_cluster :: EKSClusterRegistry
  by_pod :: Pod
  by_stats :: WorkloadIdentityStats

definition newWorkloadIdentityBy ::
  "WorkloadIdentity \<Rightarrow> EKSClusterRegistry \<Rightarrow> Pod \<Rightarrow> WorkloadIdentityStats \<Rightarrow> workloadIdentityBy" where
  "newWorkloadIdentityBy identity cluster pod stats =
     \<lparr>by_identity = identity, by_cluster = cluster, by_pod = pod, by_stats = stats\<rparr>"

definition IncrementEntriesToSet :: "workloadIdentityBy \<Rightarrow> workloadIdentityBy" where
  "IncrementEntriesToSet b = b"

definition IncrementEntriesMasked :: "workloadIdentityBy \<Rightarrow> workloadIdentityBy" where
  "IncrementEntriesMasked b = b"

definition IncrementEntrySuccess :: "workloadIdentityBy \<Rightarrow> workloadIdentityBy" where
  "IncrementEntrySuccess b = b\<lparr>by_stats := (by_stats b)\<lparr>stats_EntriesRegistered := s64 (stats_EntriesRegistered (by_stats b) + 1)\<rparr>\<rparr>"

definition IncrementEntryFailures :: "workloadIdentityBy \<Rightarrow> workloadIdentityBy" where
  "IncrementEntryFailures b = b\<lparr>by_stats := (by_stats b)\<lparr>EntryFailures := s64 (EntryFailures (by_stats b) + 1)\<rparr>\<rparr>"

definition UnixNano :: "gotime \<Rightarrow> int" where
  "UnixNano t = s64 t"

definition objectCmp :: "workloadIdentityBy \<Rightarrow> workloadIdentityBy \<Rightarrow> int" where
  "objectCmp a b =
     (let am = wi_Meta (by_identity a); bm = wi_Meta (by_identity b);
          creationDiff = s64 (UnixNano (CreationTimestamp am) - UnixNano (CreationTimestamp bm));
          byUID = (if UID am < UID bm then - 1 else if UID am > UID bm then 1 else 0)
      in if creationDiff < 0 then - 1 else if creationDiff > 0 then 1
         else case (DeletionTimestamp am, DeletionTimestamp bm) of
                (None, None) \<Rightarrow> byUID
              | (Some _, None) \<Rightarrow> 1
              | (None, Some _) \<Rightarrow> - 1
              | (Some x, Some y) \<Rightarrow>
                  (let deleteDiff = s64 (UnixNano x - UnixNano y)
                   in if deleteDiff < 0 then 1 else if deleteDiff > 0 then - 1 else byUID))"

lemma s64_id: "- (2 ^ 63) \<le> x \<Longrightarrow> x < 2 ^ 63 \<Longrightarrow> s64 x = x"
  by (simp add: s64_def)

lemma s64_zero: "s64 0 = 0"
  by (simp add: s64_def)

definition near :: "gotime \<Rightarrow> bool" where
  "near t \<longleftrightarrow> - (2 ^ 62) \<le> t \<and> t < 2 ^ 62"

definition near_by :: "workloadIdentityBy \<Rightarrow> bool" where
  "near_by b \<longleftrightarrow> near (CreationTimestamp (wi_Meta (by_identity b))) \<and>
     (case DeletionTimestamp (wi_Meta (by_identity b)) of None \<Rightarrow> True | Some t \<Rightarrow> near t)"

lemma diff_near: "near x \<Longrightarrow> near y \<Longrightarrow> s64 (UnixNano x - UnixNano y) = x - y"
  unfolding near_def UnixNano_def by (simp add: s64_id)

text \<open>The key the comparison orders by: creation, then no deletion first and later deletions before
  earlier ones, then the UID.\<close>

definition before :: "workloadIdentityBy \<Rightarrow> workloadIdentityBy \<Rightarrow> bool" where
  "before a b \<longleftrightarrow>
     (let am = wi_Meta (by_identity a); bm = wi_Meta (by_identity b);
          d = (\<lambda>m. case DeletionTimestamp m of None \<Rightarrow> (0, 0) | Some t \<Rightarrow> (1 :: int, - t))
      in CreationTimestamp am < CreationTimestamp bm \<or>
         CreationTimestamp am = CreationTimestamp bm \<and>
           (fst (d am) < fst (d bm) \<or> fst (d am) = fst (d bm) \<and>
             (snd (d am) < snd (d bm) \<or> snd (d am) = snd (d bm) \<and> UID am < UID bm)))"

text \<open>For objects with times near the epoch the comparison is -1, 1 or 0 as the first object comes
  before the second, after it, or neither, in the order by creation time, then deletion time
  (none first, later before earlier), then UID.\<close>

theorem object_cmp_orders:
  assumes "near_by a" and "near_by b"
  shows "objectCmp a b = (if before a b then - 1 else if before b a then 1 else 0)"
proof -
  have c: "s64 (UnixNano (CreationTimestamp (wi_Meta (by_identity a))) - UnixNano (CreationTimestamp (wi_Meta (by_identity b)))) =
      CreationTimestamp (wi_Meta (by_identity a)) - CreationTimestamp (wi_Meta (by_identity b))"
    using assms by (intro diff_near) (simp_all add: near_by_def)
  have d: "s64 (UnixNano x - UnixNano y) = x - y"
    if "DeletionTimestamp (wi_Meta (by_identity a)) = Some x" "DeletionTimestamp (wi_Meta (by_identity b)) = Some y" for x y
    using assms that by (intro diff_near) (simp_all add: near_by_def)
  show ?thesis
    unfolding objectCmp_def Let_def c before_def
    by (cases "DeletionTimestamp (wi_Meta (by_identity a))"; cases "DeletionTimestamp (wi_Meta (by_identity b))") (auto simp: d s64_zero)
qed

theorem object_cmp_orders_witness:
  "objectCmp
     (newWorkloadIdentityBy (zero_WorkloadIdentity\<lparr>wi_Meta := zero_meta\<lparr>CreationTimestamp := 1\<rparr>\<rparr>) (ref_cluster ''c'') (ref_pod ''p'' ''u'') (Stats (wi_Status zero_WorkloadIdentity)))
     (newWorkloadIdentityBy (zero_WorkloadIdentity\<lparr>wi_Meta := zero_meta\<lparr>CreationTimestamp := 2\<rparr>\<rparr>) (ref_cluster ''c'') (ref_pod ''p'' ''u'') (Stats (wi_Status zero_WorkloadIdentity))) = - 1"
  by (subst object_cmp_orders) (simp_all add: near_by_def near_def before_def zero_meta_def newWorkloadIdentityBy_def)

end
