(* ===== verification/Client_Properties.thy ===== *)
theory Client_Properties
  imports Reference_Env
begin

text \<open>
  What the operations of \<open>pkg/spireapi/client.go\<close> guarantee to their callers: the conversions of
  an entry are inverse to each other, a listing is the concatenation of the server's pages, the
  batch operations are the sequential run of the operation over chunks of bounded size, and the
  status of a single creation decides its result.
\<close>

lemma parsed_ref_entry: "parsed_entry ref_lib (ref_entry i sels)"
proof -
  have "ref_FromString ''spiffe://a.org/ns/shop'' = Inr (''a.org'', ''/ns/shop'')"
    "ref_FromString ''spiffe://a.org/agent'' = Inr (''a.org'', ''/agent'')" by code_simp+
  then have "parsed_id ref_lib (''a.org'', ''/ns/shop'')" "parsed_id ref_lib (''a.org'', ''/agent'')"
    unfolding parsed_id_def ref_lib_def by auto
  then show ?thesis by (simp add: parsed_entry_def ref_entry_def)
qed

text \<open>C30: an entry whose SPIFFE IDs and trust domains come from the parsers of the SPIFFE library
  survives the trip through the message of the entry API unchanged.\<close>

theorem entry_round_trip:
  assumes "spiffe_documented l" and "parsed_entry l e"
  shows "fromAPIEntry l (toAPIEntry l e) = Some (Inr e)"
  using assms by (rule fromAPI_toAPI)

theorem entry_round_trip_witness:
  "fromAPIEntry ref_lib (toAPIEntry ref_lib (ref_entry ''e1'' [Selector ''k8s'' ''ns:shop''])) =
     Some (Inr (ref_entry ''e1'' [Selector ''k8s'' ''ns:shop'']))"
  by (rule entry_round_trip [OF ref_spiffe_documented parsed_ref_entry])

text \<open>C27: when the server answers with finitely many pages whose entries decode, the listing
  returns (it does not loop), without an error, the decoded entries of all pages in order.\<close>

theorem listing_returns_all_pages:
  assumes "pages rpc w [] as" and "\<And>a. a \<in> set as \<Longrightarrow> decode l a \<noteq> None"
  shows "\<exists>es. client_ListEntries l rpc w = Some (Inr es, w) \<and>
    list_all2 (\<lambda>a e. fromAPIEntry l a = Some (Inr e)) as es"
proof -
  have "list_all2 (\<lambda>a e. fromAPIEntry l a = Some (Inr e)) as (map (\<lambda>a. the (decode l a)) as)"
    using assms(2) by (auto simp: list_all2_map2 decode_Some_iff [symmetric] intro!: list.rel_refl_strong)
  with client_ListEntries_pages [OF assms] show ?thesis by blast
qed

text \<open>A server with two pages.\<close>

definition two_pages :: "unit entry_rpc" where
  "two_pages =
     \<lparr>rpc_ListEntries = (\<lambda>w tok n.
        (Inr (if tok = [] then ([toAPIEntry ref_lib (ref_entry ''e1'' [])], ''p2'')
              else ([toAPIEntry ref_lib (ref_entry ''e2'' [])], [])), w)),
      rpc_BatchCreateEntry = (\<lambda>w as. (Inr [], w)), rpc_BatchUpdateEntry = (\<lambda>w as. (Inr [], w)),
      rpc_BatchDeleteEntry = (\<lambda>w ids. (Inr [], w))\<rparr>"

lemma two_pages_pages:
  "pages two_pages () [] ([toAPIEntry ref_lib (ref_entry ''e1'' [])] @ [toAPIEntry ref_lib (ref_entry ''e2'' [])])"
proof (rule next_page)
  show "rpc_ListEntries two_pages () [] 1000 = (Inr ([toAPIEntry ref_lib (ref_entry ''e1'' [])], ''p2''), ())"
    by (simp add: two_pages_def)
  show "pages two_pages () ''p2'' [toAPIEntry ref_lib (ref_entry ''e2'' [])]"
    by (rule last_page) (simp add: two_pages_def)
qed simp

theorem listing_returns_all_pages_witness:
  "\<exists>es. client_ListEntries ref_lib two_pages () = Some (Inr es, ()) \<and>
     list_all2 (\<lambda>a e. fromAPIEntry ref_lib a = Some (Inr e))
       ([toAPIEntry ref_lib (ref_entry ''e1'' [])] @ [toAPIEntry ref_lib (ref_entry ''e2'' [])]) es"
  by (rule listing_returns_all_pages [OF two_pages_pages])
    (auto simp: decode_toAPI [OF ref_spiffe_documented parsed_ref_entry])

text \<open>The batch creation is the sequential run of the creation call over consecutive chunks of
  the entries, none of them empty and each of at most 50, which together are the entries in
  order; it stops at the first call that fails, with the statuses collected up to there.\<close>

theorem batch_create_in_chunks:
  "\<exists>cs. concat cs = entries \<and> list_all (\<lambda>c. c \<noteq> [] \<and> length c \<le> 50) cs \<and>
     client_BatchCreateEntries l rpc entries w =
       Option.bind (run_chunks (\<lambda>c. batch_body (rpc_BatchCreateEntry rpc) create_logs (entriesToAPI l c)) cs (w, []))
         (\<lambda>(err, w', statuses). Some ((statuses, err), w'))"
proof (intro exI conjI)
  show "concat (chunks 50 entries) = entries" by (rule concat_chunks) simp
  show "list_all (\<lambda>c. c \<noteq> [] \<and> length c \<le> 50) (chunks 50 entries)"
    unfolding list_all_iff using chunks_size by blast
  show "client_BatchCreateEntries l rpc entries w =
      Option.bind (run_chunks (\<lambda>c. batch_body (rpc_BatchCreateEntry rpc) create_logs (entriesToAPI l c))
        (chunks 50 entries) (w, [])) (\<lambda>(err, w', statuses). Some ((statuses, err), w'))"
    using runBatch_chunks [of entries 50 "\<lambda>c. batch_body (rpc_BatchCreateEntry rpc) create_logs (entriesToAPI l c)"]
    by (simp add: client_BatchCreateEntries_def entryCreateBatchSize_def)
qed

text \<open>Against a server that behaves as documented, the batch deletion of any list of
  identifiers, longer than one batch or not, reports no error and one status per identifier, and
  leaves exactly the entries with other identifiers.\<close>

theorem batch_delete_exact:
  assumes "spire_good (l, rpc, sv) w"
  shows "\<exists>sts w'. client_BatchDeleteEntries rpc ids w = Some ((sts, None), w') \<and>
    length sts = length ids \<and> spire_view (l, rpc, sv) w' = spire_view (l, rpc, sv) w |` (- set ids)"
  using spire.batch_delete_law [OF assms, of ids] by auto

theorem batch_delete_exact_witness:
  "\<exists>sts w'. client_BatchDeleteEntries ref_rpc [''e1''] (map (toAPIEntry ref_lib) [ref_entry ''e1'' [], ref_entry ''e2'' []]) =
       Some ((sts, None), w') \<and> length sts = length [''e1''] \<and>
     spire_view (ref_lib, ref_rpc, \<lambda>w. w) w' =
       spire_view (ref_lib, ref_rpc, \<lambda>w. w) (map (toAPIEntry ref_lib) [ref_entry ''e1'' [], ref_entry ''e2'' []]) |` (- set [''e1''])"
proof (rule batch_delete_exact)
  show "spire_good (ref_lib, ref_rpc, \<lambda>w. w) (map (toAPIEntry ref_lib) [ref_entry ''e1'' [], ref_entry ''e2'' []])"
    unfolding ref_connection_def [symmetric]
    by (rule ref_good) (simp_all add: parsed_ref_entry, simp_all add: ref_entry_def)
qed

text \<open>A creation that the server refuses because an entry with the same SPIFFE ID, parent ID
  and selectors exists under another identifier is reported as a success, and the server's table
  stays as it was: the caller is not told that its entry is missing.\<close>

theorem refused_creation_reports_success:
  assumes "spire_good (l, rpc, sv) w" and "parsed_entry l e" and "ID e \<noteq> []"
    and "spire_view (l, rpc, sv) w (ID e) = None"
    and "x \<in> ran (spire_view (l, rpc, sv) w)" and "same_registration x e"
  shows "\<exists>w'. client_CreateEntry l rpc e w = Some (None, w') \<and>
    spire_view (l, rpc, sv) w' (ID e) = None"
  using spire.create_dup_law [of "(l, rpc, sv)" w e x] assms by auto

theorem refused_creation_reports_success_witness:
  "\<exists>w'. client_CreateEntry ref_lib ref_rpc (ref_entry ''e2'' []) (map (toAPIEntry ref_lib) [ref_entry ''e1'' []]) =
       Some (None, w') \<and> spire_view (ref_lib, ref_rpc, \<lambda>w. w) w' (ID (ref_entry ''e2'' [])) = None"
proof (rule refused_creation_reports_success)
  show "spire_good (ref_lib, ref_rpc, \<lambda>w. w) (map (toAPIEntry ref_lib) [ref_entry ''e1'' []])"
    unfolding ref_connection_def [symmetric] by (rule ref_good) (simp_all add: parsed_ref_entry)
  have v: "spire_view (ref_lib, ref_rpc, \<lambda>w. w) (map (toAPIEntry ref_lib) [ref_entry ''e1'' []]) = by_id [ref_entry ''e1'' []]"
    unfolding ref_connection_def [symmetric] by (rule ref_view) (simp add: parsed_ref_entry)
  show "spire_view (ref_lib, ref_rpc, \<lambda>w. w) (map (toAPIEntry ref_lib) [ref_entry ''e1'' []]) (ID (ref_entry ''e2'' [])) = None"
    unfolding v by (simp add: ref_entry_def)
  show "ref_entry ''e1'' [] \<in> ran (spire_view (ref_lib, ref_rpc, \<lambda>w. w) (map (toAPIEntry ref_lib) [ref_entry ''e1'' []]))"
    unfolding v by simp
qed (simp add: parsed_ref_entry, simp_all add: ref_entry_def same_registration_def)

end
