(* ===== verification/Deep_Copy.thy ===== *)
theory Deep_Copy
  imports Api_Types
begin

text \<open>
  The deep copies of \<open>api/v1alpha1/zz_generated.deepcopy.go\<close>, on an explicit memory. The other
  theories take objects as values; this one shows why they may: the cluster manager keeps
  \<open>cluster.DeepCopy()\<close>, and a deep copy has the value of the original and shares no memory with it, so
  that no later write to the one is seen in the other.

  Memory is a list of cells, an address an index, an allocation an append. A struct in memory
  (\<open>mem_\<dots>\<close>) has addresses where Go has pointers and maps, and slice headers where Go has slices. What
  a struct means is read by a \<open>look\<close> function: its value in depth and the addresses it was read from.
  The structs of other packages (\<open>ObjectMeta\<close>, \<open>ListMeta\<close>, \<open>LabelSelector\<close>, \<open>Time\<close>, \<open>Condition\<close>,
  \<open>LeaderElectionConfiguration\<close>) are the type \<open>'x\<close>, their copying is a parameter.
\<close>

subsection \<open>Structs in memory\<close>

type_synonym addr = nat

text \<open>A slice is nil or a window of an array.\<close>

datatype slice = Slice addr nat nat

record TypeMeta =
  tm_Kind :: string
  tm_APIVersion :: string

record mem_AWSConfig =
  aws_Region :: string
  aws_AccountIDs :: "slice option"
  aws_AssumeRoleARN :: string

record mem_ControllerMetrics =
  cm_BindAddress :: string

record mem_ControllerHealth =
  ch_HealthProbeBindAddress :: string
  ch_ReadinessEndpointName :: string
  ch_LivenessEndpointName :: string

record mem_ControllerWebhook =
  cw_Port :: "addr option"
  cw_Host :: string
  cw_CertDir :: string

record mem_ControllerManagerConfigurationSpec =
  cs_SyncPeriod :: "addr option"
  cs_LeaderElection :: "addr option"
  cs_CacheNamespace :: string
  cs_Metrics :: mem_ControllerMetrics
  cs_Health :: mem_ControllerHealth
  cs_Webhook :: mem_ControllerWebhook

record mem_ControllerManagerConfig =
  mc_TypeMeta :: TypeMeta
  mc_Spec :: mem_ControllerManagerConfigurationSpec
  mc_ClusterName :: string
  mc_TrustDomain :: string
  mc_IgnoreNamespaces :: "slice option"
  mc_SPIREServerSocketPath :: string
  mc_EntryIDPrefix :: string
  mc_GCInterval :: duration
  mc_AWSConfig :: mem_AWSConfig

record mem_EKSClusterRegistrySpec =
  es_ClusterName :: string
  es_Region :: string
  es_AccountID :: string
  es_Enabled :: bool
  es_AssumeRoleARN :: string
  es_Labels :: "addr option"

record mem_EKSClusterRegistryStatus =
  et_LastSync :: "addr option"
  et_Conditions :: "slice option"
  et_NamespaceCount :: int
  et_EntriesRegistered :: int

record 'x mem_EKSClusterRegistry =
  er_TypeMeta :: TypeMeta
  er_ObjectMeta :: 'x
  er_Spec :: mem_EKSClusterRegistrySpec
  er_Status :: mem_EKSClusterRegistryStatus

record 'x mem_EKSClusterRegistryList =
  el_TypeMeta :: TypeMeta
  el_ListMeta :: 'x
  el_Items :: "slice option"

record mem_WorkloadIdentitySpec =
  ws_ApplicationName :: string
  ws_Namespace :: string
  ws_SPIFFEIDTemplate :: string
  ws_ParentIDTemplate :: string
  ws_PodSelector :: "addr option"
  ws_TTL :: duration
  ws_JWTTTL :: duration
  ws_DNSNameTemplates :: "slice option"
  ws_WorkloadSelectorTemplates :: "slice option"
  ws_FederatesWith :: "slice option"
  ws_Admin :: bool
  ws_Downstream :: bool
  ws_AutoPopulateDNSNames :: bool
  ws_ClusterSelector :: "addr option"
  ws_Hint :: string

record mem_WorkloadIdentityStatus =
  wt_Stats :: WorkloadIdentityStats
  wt_LastReconciliation :: "addr option"

record 'x mem_WorkloadIdentity =
  wr_TypeMeta :: TypeMeta
  wr_ObjectMeta :: 'x
  wr_Spec :: mem_WorkloadIdentitySpec
  wr_Status :: mem_WorkloadIdentityStatus

record 'x mem_WorkloadIdentityList =
  wl_TypeMeta :: TypeMeta
  wl_ListMeta :: 'x
  wl_Items :: "slice option"

subsection \<open>Cells\<close>

text \<open>What a cell holds: the array of a slice, a map, or what a pointer leads to.\<close>

datatype 'x cell =
    Strings "string list"
  | Externals "'x list"
  | Clusters "'x mem_EKSClusterRegistry list"
  | Identities "'x mem_WorkloadIdentity list"
  | StringMap "string gomap"
  | DurationCell duration
  | IntCell int
  | External 'x
  | AWSConfigCell mem_AWSConfig
  | ControllerMetricsCell mem_ControllerMetrics
  | ControllerHealthCell mem_ControllerHealth
  | ControllerWebhookCell mem_ControllerWebhook
  | ConfigurationSpecCell mem_ControllerManagerConfigurationSpec
  | ConfigCell mem_ControllerManagerConfig
  | ClusterSpecCell mem_EKSClusterRegistrySpec
  | ClusterStatusCell mem_EKSClusterRegistryStatus
  | ClusterCell "'x mem_EKSClusterRegistry"
  | ClusterListCell "'x mem_EKSClusterRegistryList"
  | IdentitySpecCell mem_WorkloadIdentitySpec
  | IdentityStatsCell WorkloadIdentityStats
  | IdentityStatusCell mem_WorkloadIdentityStatus
  | IdentityCell "'x mem_WorkloadIdentity"
  | IdentityListCell "'x mem_WorkloadIdentityList"

type_synonym 'x heap = "'x cell list"

text \<open>A kind of cell: how a value of a type is stored, and how it is read if the cell is of this kind.\<close>

type_synonym ('s, 'x) kind = "('s \<Rightarrow> 'x cell) \<times> ('x cell \<Rightarrow> 's option)"

definition kind :: "('s, 'x) kind \<Rightarrow> bool" where
  "kind k \<longleftrightarrow> (\<forall>s. snd k (fst k s) = Some s)"

definition strings :: "(string list, 'x) kind" where
  "strings = (Strings, \<lambda>c. case c of Strings s \<Rightarrow> Some s | _ \<Rightarrow> None)"
definition externals :: "('x list, 'x) kind" where
  "externals = (Externals, \<lambda>c. case c of Externals s \<Rightarrow> Some s | _ \<Rightarrow> None)"
definition cluster_items :: "('x mem_EKSClusterRegistry list, 'x) kind" where
  "cluster_items = (Clusters, \<lambda>c. case c of Clusters s \<Rightarrow> Some s | _ \<Rightarrow> None)"
definition identity_items :: "('x mem_WorkloadIdentity list, 'x) kind" where
  "identity_items = (Identities, \<lambda>c. case c of Identities s \<Rightarrow> Some s | _ \<Rightarrow> None)"
definition string_map :: "(string gomap, 'x) kind" where
  "string_map = (StringMap, \<lambda>c. case c of StringMap s \<Rightarrow> Some s | _ \<Rightarrow> None)"
definition a_duration :: "(duration, 'x) kind" where
  "a_duration = (DurationCell, \<lambda>c. case c of DurationCell s \<Rightarrow> Some s | _ \<Rightarrow> None)"
definition an_int :: "(int, 'x) kind" where
  "an_int = (IntCell, \<lambda>c. case c of IntCell s \<Rightarrow> Some s | _ \<Rightarrow> None)"
definition an_external :: "('x, 'x) kind" where
  "an_external = (External, \<lambda>c. case c of External s \<Rightarrow> Some s | _ \<Rightarrow> None)"
definition an_AWSConfig :: "(mem_AWSConfig, 'x) kind" where
  "an_AWSConfig = (AWSConfigCell, \<lambda>c. case c of AWSConfigCell s \<Rightarrow> Some s | _ \<Rightarrow> None)"
definition a_ControllerMetrics :: "(mem_ControllerMetrics, 'x) kind" where
  "a_ControllerMetrics = (ControllerMetricsCell, \<lambda>c. case c of ControllerMetricsCell s \<Rightarrow> Some s | _ \<Rightarrow> None)"
definition a_ControllerHealth :: "(mem_ControllerHealth, 'x) kind" where
  "a_ControllerHealth = (ControllerHealthCell, \<lambda>c. case c of ControllerHealthCell s \<Rightarrow> Some s | _ \<Rightarrow> None)"
definition a_ControllerWebhook :: "(mem_ControllerWebhook, 'x) kind" where
  "a_ControllerWebhook = (ControllerWebhookCell, \<lambda>c. case c of ControllerWebhookCell s \<Rightarrow> Some s | _ \<Rightarrow> None)"
definition a_ConfigurationSpec :: "(mem_ControllerManagerConfigurationSpec, 'x) kind" where
  "a_ConfigurationSpec = (ConfigurationSpecCell, \<lambda>c. case c of ConfigurationSpecCell s \<Rightarrow> Some s | _ \<Rightarrow> None)"
definition a_Config :: "(mem_ControllerManagerConfig, 'x) kind" where
  "a_Config = (ConfigCell, \<lambda>c. case c of ConfigCell s \<Rightarrow> Some s | _ \<Rightarrow> None)"
definition a_ClusterSpec :: "(mem_EKSClusterRegistrySpec, 'x) kind" where
  "a_ClusterSpec = (ClusterSpecCell, \<lambda>c. case c of ClusterSpecCell s \<Rightarrow> Some s | _ \<Rightarrow> None)"
definition a_ClusterStatus :: "(mem_EKSClusterRegistryStatus, 'x) kind" where
  "a_ClusterStatus = (ClusterStatusCell, \<lambda>c. case c of ClusterStatusCell s \<Rightarrow> Some s | _ \<Rightarrow> None)"
definition a_Cluster :: "('x mem_EKSClusterRegistry, 'x) kind" where
  "a_Cluster = (ClusterCell, \<lambda>c. case c of ClusterCell s \<Rightarrow> Some s | _ \<Rightarrow> None)"
definition a_ClusterList :: "('x mem_EKSClusterRegistryList, 'x) kind" where
  "a_ClusterList = (ClusterListCell, \<lambda>c. case c of ClusterListCell s \<Rightarrow> Some s | _ \<Rightarrow> None)"
definition an_IdentitySpec :: "(mem_WorkloadIdentitySpec, 'x) kind" where
  "an_IdentitySpec = (IdentitySpecCell, \<lambda>c. case c of IdentitySpecCell s \<Rightarrow> Some s | _ \<Rightarrow> None)"
definition an_IdentityStats :: "(WorkloadIdentityStats, 'x) kind" where
  "an_IdentityStats = (IdentityStatsCell, \<lambda>c. case c of IdentityStatsCell s \<Rightarrow> Some s | _ \<Rightarrow> None)"
definition an_IdentityStatus :: "(mem_WorkloadIdentityStatus, 'x) kind" where
  "an_IdentityStatus = (IdentityStatusCell, \<lambda>c. case c of IdentityStatusCell s \<Rightarrow> Some s | _ \<Rightarrow> None)"
definition an_Identity :: "('x mem_WorkloadIdentity, 'x) kind" where
  "an_Identity = (IdentityCell, \<lambda>c. case c of IdentityCell s \<Rightarrow> Some s | _ \<Rightarrow> None)"
definition an_IdentityList :: "('x mem_WorkloadIdentityList, 'x) kind" where
  "an_IdentityList = (IdentityListCell, \<lambda>c. case c of IdentityListCell s \<Rightarrow> Some s | _ \<Rightarrow> None)"

lemmas kind_defs = strings_def externals_def cluster_items_def identity_items_def string_map_def a_duration_def an_int_def
  an_external_def an_AWSConfig_def a_ControllerMetrics_def a_ControllerHealth_def a_ControllerWebhook_def a_ConfigurationSpec_def
  a_Config_def a_ClusterSpec_def a_ClusterStatus_def a_Cluster_def a_ClusterList_def an_IdentitySpec_def an_IdentityStats_def
  an_IdentityStatus_def an_Identity_def an_IdentityList_def

lemma kinds [simp]:
  "kind strings" "kind externals" "kind cluster_items" "kind identity_items" "kind string_map" "kind a_duration" "kind an_int"
  "kind an_external" "kind an_AWSConfig" "kind a_ControllerMetrics" "kind a_ControllerHealth" "kind a_ControllerWebhook"
  "kind a_ConfigurationSpec" "kind a_Config" "kind a_ClusterSpec" "kind a_ClusterStatus" "kind a_Cluster" "kind a_ClusterList"
  "kind an_IdentitySpec" "kind an_IdentityStats" "kind an_IdentityStatus" "kind an_Identity" "kind an_IdentityList"
  by (simp_all add: kind_def kind_defs)

definition load :: "('s, 'x) kind \<Rightarrow> addr \<Rightarrow> 'x heap \<Rightarrow> 's option" where
  "load k a h = (if a < length h then snd k (h ! a) else None)"

text \<open>An allocation that is filled before anyone else has its address is a cell made with its content.\<close>

definition alloc :: "('s, 'x) kind \<Rightarrow> 's \<Rightarrow> 'x heap \<Rightarrow> addr \<times> 'x heap" where
  "alloc k s h = (length h, h @ [fst k s])"

subsection \<open>Copying\<close>

text \<open>
  A copy takes what is in \<open>*in\<close> and returns what is left in \<open>*out\<close>, with the memory as it is then;
  \<open>None\<close> is a panic on a bad address. The statements the generator uses: an assignment; a new pointer
  when the old one is not nil, filled by \<open>copy\<close>; a new array when the slice is not nil, filled element
  by element; a new map when the map is not nil, filled in the order of \<open>range\<close>.
\<close>

type_synonym ('v, 'x) into = "'v \<Rightarrow> 'x heap \<Rightarrow> ('v \<times> 'x heap) option"

definition assign :: "('v, 'x) into" where
  "assign v h = Some (v, h)"

definition copy_ptr :: "('s, 'x) kind \<Rightarrow> ('s, 'x) into \<Rightarrow> (addr option, 'x) into" where
  "copy_ptr k copy p h = (case p of
     None \<Rightarrow> Some (None, h)
   | Some a \<Rightarrow> do {
       s \<leftarrow> load k a h;
       (out, h) \<leftarrow> copy s h;
       let (b, h) = alloc k out h;
       Some (Some b, h) })"

fun copy_each :: "('s, 'x) into \<Rightarrow> ('s list, 'x) into" where
  "copy_each copy [] h = Some ([], h)"
| "copy_each copy (s # ss) h = do {
     (out, h) \<leftarrow> copy s h;
     (outs, h) \<leftarrow> copy_each copy ss h;
     Some (out # outs, h) }"

definition copy_slice :: "('s list, 'x) kind \<Rightarrow> ('s, 'x) into \<Rightarrow> (slice option, 'x) into" where
  "copy_slice k copy sl h = (case sl of
     None \<Rightarrow> Some (None, h)
   | Some (Slice a i n) \<Rightarrow> do {
       ss \<leftarrow> load k a h;
       (outs, h) \<leftarrow> copy_each copy (take n (drop i ss)) h;
       let (b, h) = alloc k outs h;
       Some (Some (Slice b 0 n), h) })"

definition copy_map :: "(string gomap \<Rightarrow> string gomap) \<Rightarrow> (addr option, 'x) into" where
  "copy_map order p h = (case p of
     None \<Rightarrow> Some (None, h)
   | Some a \<Rightarrow> do {
       m \<leftarrow> load string_map a h;
       let out = fold (\<lambda>(key, val). AList.update key val) (order m) [];
       let (b, h) = alloc string_map out h;
       Some (Some b, h) })"

subsection \<open>The contract of a copy\<close>

text \<open>
  Looking at something in memory gives its value in depth and the addresses it was read from, or
  nothing if an address is bad. A copy of what can be looked at returns; it leaves the memory there
  was as it is; what it returns has the same value; and was read from new addresses only.
\<close>

type_synonym ('v, 'x, 'd) look = "'v \<Rightarrow> 'x heap \<Rightarrow> ('d \<times> addr set) option"

definition agree :: "addr set \<Rightarrow> 'x heap \<Rightarrow> 'x heap \<Rightarrow> bool" where
  "agree A h h' \<longleftrightarrow> (\<forall>a \<in> A. a < length h \<longrightarrow> a < length h' \<and> h' ! a = h ! a)"

lemma agree_rules [simp, intro]:
  "agree A h h" "agree A h (h @ t)" "agree {} h h'"
  "agree (A \<union> B) h h' \<longleftrightarrow> agree A h h' \<and> agree B h h'"
  by (auto simp: agree_def nth_append)

lemma agree_mono: "agree B h h' \<Longrightarrow> A \<subseteq> B \<Longrightarrow> agree A h h'"
  by (auto simp: agree_def)

lemma agree_insert: "agree (insert a A) h h' \<longleftrightarrow> (a < length h \<longrightarrow> a < length h' \<and> h' ! a = h ! a) \<and> agree A h h'"
  by (auto simp: agree_def)

locale deep_copier =
  fixes copy :: "('v, 'x) into" and look :: "('v, 'x, 'd) look"
  assumes look_agree: "look v h = Some (d, A) \<Longrightarrow> agree A h h' \<Longrightarrow> look v h' = Some (d, A)"
    and look_bound: "look v h = Some (d, A) \<Longrightarrow> a \<in> A \<Longrightarrow> a < length h"
    and copy_law: "look v h = Some (d, A) \<Longrightarrow>
      \<exists>out t B. copy v h = Some (out, h @ t) \<and> look out (h @ t) = Some (d, B) \<and> (\<forall>b \<in> B. length h \<le> b)"
begin

lemma look_append: "look v h = Some (d, A) \<Longrightarrow> look v (h @ t) = Some (d, A)"
  by (erule look_agree) simp

text \<open>Original and copy go their own ways: whatever happens to the memory of the one, the value of the
  other stays.\<close>

lemma independent:
  assumes "look v h = Some (d, A)"
  shows "\<exists>out h' B. copy v h = Some (out, h') \<and> look v h' = Some (d, A) \<and> look out h' = Some (d, B) \<and> A \<inter> B = {} \<and>
    (\<forall>h''. agree B h' h'' \<longrightarrow> look out h'' = Some (d, B)) \<and> (\<forall>h''. agree A h' h'' \<longrightarrow> look v h'' = Some (d, A))"
proof -
  obtain out t B where c: "copy v h = Some (out, h @ t)" "look out (h @ t) = Some (d, B)" "\<forall>b \<in> B. length h \<le> b"
    using copy_law [OF assms] by blast
  have "A \<inter> B = {}" using look_bound [OF assms] c(3) by force
  moreover have "look v (h @ t) = Some (d, A)" by (rule look_append [OF assms])
  ultimately show ?thesis using c look_agree by (intro exI conjI) (assumption | blast)+
qed

end

subsection \<open>The copies of the parts give the copy of the whole\<close>

definition plain :: "('v, 'x, 'v) look" where
  "plain v h = Some (v, {})"

definition look_pair :: "('a, 'x, 'd) look \<Rightarrow> ('b, 'x, 'e) look \<Rightarrow> ('a \<times> 'b, 'x, 'd \<times> 'e) look" where
  "look_pair la lb v h = do { (d, A) \<leftarrow> la (fst v) h; (e, B) \<leftarrow> lb (snd v) h; Some ((d, e), A \<union> B) }"

definition copy_pair :: "('a, 'x) into \<Rightarrow> ('b, 'x) into \<Rightarrow> ('a \<times> 'b, 'x) into" where
  "copy_pair ca cb v h = do { (a, h) \<leftarrow> ca (fst v) h; (b, h) \<leftarrow> cb (snd v) h; Some ((a, b), h) }"

definition look_ptr :: "('s, 'x) kind \<Rightarrow> ('s, 'x, 'd) look \<Rightarrow> (addr option, 'x, 'd option) look" where
  "look_ptr k look p h = (case p of
     None \<Rightarrow> Some (None, {})
   | Some a \<Rightarrow> do { s \<leftarrow> load k a h; (d, A) \<leftarrow> look s h; Some (Some d, insert a A) })"

fun look_each :: "('s, 'x, 'd) look \<Rightarrow> ('s list, 'x, 'd list) look" where
  "look_each look [] h = Some ([], {})"
| "look_each look (s # ss) h = do { (d, A) \<leftarrow> look s h; (ds, B) \<leftarrow> look_each look ss h; Some (d # ds, A \<union> B) }"

definition look_slice :: "('s list, 'x) kind \<Rightarrow> ('s, 'x, 'd) look \<Rightarrow> (slice option, 'x, 'd list option) look" where
  "look_slice k look sl h = (case sl of
     None \<Rightarrow> Some (None, {})
   | Some (Slice a i n) \<Rightarrow> do {
       ss \<leftarrow> load k a h;
       if i + n \<le> length ss then do { (ds, A) \<leftarrow> look_each look (take n (drop i ss)) h; Some (Some ds, insert a A) }
       else None })"

definition look_map :: "(addr option, 'x, (string \<rightharpoonup> string) option) look" where
  "look_map p h = (case p of
     None \<Rightarrow> Some (None, {})
   | Some a \<Rightarrow> do { m \<leftarrow> load string_map a h; if wf_map m then Some (Some (map_of m), {a}) else None })"

text \<open>A struct: its fields without pointers, by \<open>here\<close>, and the parts that have some, by \<open>parts\<close>.\<close>

definition look_struct :: "('v \<Rightarrow> 'p) \<Rightarrow> ('v \<Rightarrow> 'f) \<Rightarrow> ('f, 'x, 'd) look \<Rightarrow> ('v, 'x, 'p \<times> 'd) look" where
  "look_struct here parts look v h = do { (d, A) \<leftarrow> look (parts v) h; Some ((here v, d), A) }"

interpretation assigned: deep_copier assign plain
  by unfold_locales (auto simp: assign_def plain_def)

lemma load_agree: "load k a h = Some s \<Longrightarrow> agree A h h' \<Longrightarrow> a \<in> A \<Longrightarrow> load k a h' = Some s"
  by (auto simp: load_def agree_def split: if_splits)

lemma load_bound: "load k a h = Some s \<Longrightarrow> a < length h"
  by (auto simp: load_def split: if_splits)

lemma load_alloc: "kind k \<Longrightarrow> load k (length h) (h @ fst k s # t) = Some s"
  by (simp add: load_def kind_def)

lemma copy_each_length: "copy_each copy ss h = Some (outs, h') \<Longrightarrow> length outs = length ss"
  by (induction ss arbitrary: h outs) (auto split: bind_splits)

lemma deep_copier_pair:
  assumes a: "deep_copier ca la" and b: "deep_copier cb lb"
  shows "deep_copier (copy_pair ca cb) (look_pair la lb)"
proof
  fix v h d A
  assume "look_pair la lb v h = Some (d, A)"
  then obtain e A1 f A2 where v: "la (fst v) h = Some (e, A1)" "lb (snd v) h = Some (f, A2)" "d = (e, f)" "A = A1 \<union> A2"
    by (auto simp: look_pair_def split: bind_splits)
  show "look_pair la lb v h' = Some (d, A)" if "agree A h h'" for h'
    using that v deep_copier.look_agree [OF a v(1)] deep_copier.look_agree [OF b v(2)] by (simp add: look_pair_def)
  show "x < length h" if "x \<in> A" for x
    using that v deep_copier.look_bound [OF a v(1)] deep_copier.look_bound [OF b v(2)] by auto
  obtain out t B where 1: "ca (fst v) h = Some (out, h @ t)" "la out (h @ t) = Some (e, B)" "\<forall>b \<in> B. length h \<le> b"
    using deep_copier.copy_law [OF a v(1)] by blast
  obtain out' t' B' where 2: "cb (snd v) (h @ t) = Some (out', (h @ t) @ t')" "lb out' ((h @ t) @ t') = Some (f, B')"
    "\<forall>b \<in> B'. length (h @ t) \<le> b" using deep_copier.copy_law [OF b deep_copier.look_append [OF b v(2)]] by blast
  have "look_pair la lb (out, out') (h @ t @ t') = Some (d, B \<union> B')"
    using deep_copier.look_append [OF a 1(2), of t'] 2(2) v(3) by (simp add: look_pair_def)
  moreover have "copy_pair ca cb v h = Some ((out, out'), h @ t @ t')" using 1 2 by (simp add: copy_pair_def)
  moreover have "\<forall>b \<in> B \<union> B'. length h \<le> b" using 1(3) 2(3) by force
  ultimately show "\<exists>out t B. copy_pair ca cb v h = Some (out, h @ t) \<and> look_pair la lb out (h @ t) = Some (d, B) \<and>
      (\<forall>b \<in> B. length h \<le> b)" by blast
qed

lemma deep_copier_struct:
  assumes parts: "deep_copier copy look" and eq: "\<And>v h. into v h = do { (f, h) \<leftarrow> copy (parts v) h; Some (put f v, h) }"
    and put: "\<And>f v. parts (put f v) = f" "\<And>f v. here (put f v) = here v"
  shows "deep_copier into (look_struct here parts look)"
proof
  fix v h d A
  assume "look_struct here parts look v h = Some (d, A)"
  then obtain e where v: "look (parts v) h = Some (e, A)" "d = (here v, e)" by (auto simp: look_struct_def split: bind_splits)
  show "look_struct here parts look v h' = Some (d, A)" if "agree A h h'" for h'
    using deep_copier.look_agree [OF parts v(1) that] v(2) by (simp add: look_struct_def)
  show "x < length h" if "x \<in> A" for x using deep_copier.look_bound [OF parts v(1) that] .
  obtain f t B where "copy (parts v) h = Some (f, h @ t)" "look f (h @ t) = Some (e, B)" "\<forall>b \<in> B. length h \<le> b"
    using deep_copier.copy_law [OF parts v(1)] by blast
  then have "into v h = Some (put f v, h @ t) \<and> look_struct here parts look (put f v) (h @ t) = Some (d, B) \<and> (\<forall>b \<in> B. length h \<le> b)"
    using v(2) by (simp add: eq look_struct_def put)
  then show "\<exists>out t B. into v h = Some (out, h @ t) \<and> look_struct here parts look out (h @ t) = Some (d, B) \<and> (\<forall>b \<in> B. length h \<le> b)"
    by blast
qed

lemma deep_copier_each:
  assumes s: "deep_copier copy look"
  shows "deep_copier (copy_each copy) (look_each look)"
proof
  show agree: "look_each look ss h' = Some (d, A)" if "look_each look ss h = Some (d, A)" and "agree A h h'" for ss h d A h'
    using that
  proof (induction ss arbitrary: d A)
    case (Cons s' ss)
    then obtain e A1 ds A2 where v: "look s' h = Some (e, A1)" "look_each look ss h = Some (ds, A2)" "d = e # ds" "A = A1 \<union> A2"
      by (auto split: bind_splits)
    then show ?case using deep_copier.look_agree [OF s v(1), of h'] Cons.IH [OF v(2)] Cons.prems(2) by simp
  qed simp
  show "x < length h" if "look_each look ss h = Some (d, A)" and "x \<in> A" for ss h d A x
    using that by (induction ss arbitrary: d A) (auto split: bind_splits dest: deep_copier.look_bound [OF s])
  show "\<exists>out t B. copy_each copy ss h = Some (out, h @ t) \<and> look_each look out (h @ t) = Some (d, B) \<and> (\<forall>b \<in> B. length h \<le> b)"
    if "look_each look ss h = Some (d, A)" for ss h d A
    using that
  proof (induction ss arbitrary: d A h)
    case (Cons s' ss)
    then obtain e A1 ds A2 where v: "look s' h = Some (e, A1)" "look_each look ss h = Some (ds, A2)" "d = e # ds"
      by (auto split: bind_splits)
    obtain out t B where 1: "copy s' h = Some (out, h @ t)" "look out (h @ t) = Some (e, B)" "\<forall>b \<in> B. length h \<le> b"
      using deep_copier.copy_law [OF s v(1)] by blast
    have "look_each look ss (h @ t) = Some (ds, A2)" by (rule agree [OF v(2)]) simp
    then obtain outs t' B' where 2: "copy_each copy ss (h @ t) = Some (outs, (h @ t) @ t')"
      "look_each look outs ((h @ t) @ t') = Some (ds, B')" "\<forall>b \<in> B'. length (h @ t) \<le> b" using Cons.IH by blast
    have "look_each look (out # outs) (h @ t @ t') = Some (d, B \<union> B')"
      using deep_copier.look_append [OF s 1(2), of t'] 2(2) v(3) by simp
    moreover have "copy_each copy (s' # ss) h = Some (out # outs, h @ t @ t')" using 1 2 by simp
    moreover have "\<forall>b \<in> B \<union> B'. length h \<le> b" using 1(3) 2(3) by force
    ultimately show ?case by blast
  qed simp
qed

text \<open>What is stored in a new cell is looked at through it.\<close>

lemma deep_copier_stored:
  assumes s: "deep_copier copy look" and k: "kind k" and v: "look v h = Some (d, A)"
  shows "\<exists>out t B. copy v h = Some (out, h @ t) \<and> look out (h @ t @ [fst k out]) = Some (d, B) \<and> (\<forall>b \<in> B. length h \<le> b) \<and>
    load k (length (h @ t)) (h @ t @ [fst k out]) = Some out"
proof -
  obtain out t B where c: "copy v h = Some (out, h @ t)" "look out (h @ t) = Some (d, B)" "\<forall>b \<in> B. length h \<le> b"
    using deep_copier.copy_law [OF s v] by blast
  then show ?thesis using deep_copier.look_append [OF s c(2), of "[fst k out]"] load_alloc [OF k, of "h @ t" out "[]"] by auto
qed

lemma deep_copier_ptr:
  assumes s: "deep_copier copy look" and k: "kind k"
  shows "deep_copier (copy_ptr k copy) (look_ptr k look)"
proof
  fix p h d A
  assume v: "look_ptr k look p h = Some (d, A)"
  show "look_ptr k look p h' = Some (d, A)" if "agree A h h'" for h'
  proof (cases p)
    case (Some a)
    with v obtain x e B where x: "load k a h = Some x" "look x h = Some (e, B)" "d = Some e" "A = insert a B"
      by (auto simp: look_ptr_def split: bind_splits)
    then show ?thesis using Some load_agree [OF x(1) that] deep_copier.look_agree [OF s x(2), of h'] that
      by (simp add: look_ptr_def agree_insert)
  qed (use v in \<open>simp add: look_ptr_def\<close>)
  show "x < length h" if "x \<in> A" for x
    using v that by (auto simp: look_ptr_def split: bind_splits option.splits dest: load_bound deep_copier.look_bound [OF s])
  show "\<exists>out t B. copy_ptr k copy p h = Some (out, h @ t) \<and> look_ptr k look out (h @ t) = Some (d, B) \<and> (\<forall>b \<in> B. length h \<le> b)"
  proof (cases p)
    case (Some a)
    with v obtain x e B where x: "load k a h = Some x" "look x h = Some (e, B)" "d = Some e"
      by (auto simp: look_ptr_def split: bind_splits)
    obtain out t B where c: "copy x h = Some (out, h @ t)" "look out (h @ t @ [fst k out]) = Some (e, B)" "\<forall>b \<in> B. length h \<le> b"
      "load k (length (h @ t)) (h @ t @ [fst k out]) = Some out" using deep_copier_stored [OF s k x(2)] by blast
    then have "copy_ptr k copy p h = Some (Some (length (h @ t)), h @ t @ [fst k out])"
      "look_ptr k look (Some (length (h @ t))) (h @ t @ [fst k out]) = Some (d, insert (length (h @ t)) B)"
      using Some x by (simp_all add: copy_ptr_def look_ptr_def alloc_def)
    moreover have "\<forall>b \<in> insert (length (h @ t)) B. length h \<le> b" using c(3) by simp
    ultimately show ?thesis by (intro exI [of _ "Some (length (h @ t))"] exI [of _ "t @ [fst k out]"]) auto
  qed (use v in \<open>simp add: look_ptr_def copy_ptr_def\<close>)
qed

lemma deep_copier_slice:
  assumes s: "deep_copier copy look" and k: "kind k"
  shows "deep_copier (copy_slice k copy) (look_slice k look)"
proof
  note each = deep_copier_each [OF s]
  fix p h d A
  assume v: "look_slice k look p h = Some (d, A)"
  have some: "\<exists>xs e B. load k a h = Some xs \<and> i + n \<le> length xs \<and> look_each look (take n (drop i xs)) h = Some (e, B) \<and>
    d = Some e \<and> A = insert a B" if "p = Some (Slice a i n)" for a i n
    using v that by (auto simp: look_slice_def split: bind_splits if_splits)
  show "look_slice k look p h' = Some (d, A)" if agr: "agree A h h'" for h'
  proof (cases "\<exists>a i n. p = Some (Slice a i n)")
    case True
    then obtain a i n where p: "p = Some (Slice a i n)" by blast
    from some [OF p] obtain xs e B where x: "load k a h = Some xs" "i + n \<le> length xs"
      "look_each look (take n (drop i xs)) h = Some (e, B)" "d = Some e" "A = insert a B" by blast
    then show ?thesis using p load_agree [OF x(1) agr] deep_copier.look_agree [OF each x(3), of h'] agr
      by (simp add: look_slice_def agree_insert)
  qed (use v in \<open>auto simp: look_slice_def split: option.splits slice.splits\<close>)
  show "x < length h" if "x \<in> A" for x
    using v that by (auto simp: look_slice_def split: bind_splits option.splits slice.splits if_splits
      dest: load_bound deep_copier.look_bound [OF each])
  show "\<exists>out t B. copy_slice k copy p h = Some (out, h @ t) \<and> look_slice k look out (h @ t) = Some (d, B) \<and> (\<forall>b \<in> B. length h \<le> b)"
  proof (cases "\<exists>a i n. p = Some (Slice a i n)")
    case True
    then obtain a i n where p: "p = Some (Slice a i n)" by blast
    from some [OF p] obtain xs e B where x: "load k a h = Some xs" "i + n \<le> length xs"
      "look_each look (take n (drop i xs)) h = Some (e, B)" "d = Some e" by blast
    obtain out t B where c: "copy_each copy (take n (drop i xs)) h = Some (out, h @ t)"
      "look_each look out (h @ t @ [fst k out]) = Some (e, B)" "\<forall>b \<in> B. length h \<le> b"
      "load k (length (h @ t)) (h @ t @ [fst k out]) = Some out" using deep_copier_stored [OF each k x(3)] by blast
    have "length out = n" using copy_each_length [OF c(1)] x(2) by simp
    then have "copy_slice k copy p h = Some (Some (Slice (length (h @ t)) 0 n), h @ t @ [fst k out])"
      "look_slice k look (Some (Slice (length (h @ t)) 0 n)) (h @ t @ [fst k out]) = Some (d, insert (length (h @ t)) B)"
      using p x c by (simp_all add: copy_slice_def look_slice_def alloc_def)
    moreover have "\<forall>b \<in> insert (length (h @ t)) B. length h \<le> b" using c(3) by simp
    ultimately show ?thesis by (intro exI [of _ "Some (Slice (length (h @ t)) 0 n)"] exI [of _ "t @ [fst k out]"]) auto
  qed (use v in \<open>auto simp: look_slice_def copy_slice_def split: option.splits slice.splits\<close>)
qed

lemma fold_update_map_of: "map_of (fold (\<lambda>(k, v). AList.update k v) xs m) = fold (\<lambda>(k, v) f. f(k \<mapsto> v)) xs (map_of m)"
  by (induction xs arbitrary: m) (auto simp: map_of_update)

lemma fold_update_wf: "wf_map m \<Longrightarrow> wf_map (fold (\<lambda>(k, v). AList.update k v) xs m)"
  by (induction xs arbitrary: m) auto

lemma copied_map:
  fixes m :: "string gomap"
  assumes "visits order" and "wf_map m"
  shows "map_of (fold (\<lambda>(k, v). AList.update k v) (order m) []) = map_of m"
    and "wf_map (fold (\<lambda>(k, v). AList.update k v) (order m) [])"
proof -
  have "fold (\<lambda>(k, v) f. f(k \<mapsto> v)) xs f = f ++ map_of xs" if "distinct (map fst xs)" for xs :: "string gomap" and f
    using that
  proof (induction xs arbitrary: f)
    case (Cons x xs)
    obtain k v where x: "x = (k, v)" by (cases x)
    with Cons.prems have "map_of xs k = None" by (simp add: map_of_eq_None_iff)
    then show ?case using Cons x by (auto simp: fun_eq_iff map_add_def split: option.splits)
  qed simp
  then have "map_of (fold (\<lambda>(k, v). AList.update k v) (order m) []) = map_of (order m)"
    using visits_distinct_keys [OF assms] by (simp add: fold_update_map_of wf_map_def)
  also have "\<dots> = map_of m"
    using assms visits_distinct_keys [OF assms] visits_set [OF assms(1), of m] by (simp add: map_of_inject_set wf_map_def)
  finally show "map_of (fold (\<lambda>(k, v). AList.update k v) (order m) []) = map_of m" .
  show "wf_map (fold (\<lambda>(k, v). AList.update k v) (order m) [])" by (rule fold_update_wf) (simp add: wf_map_def)
qed

lemma deep_copier_map:
  assumes "visits order"
  shows "deep_copier (copy_map order) look_map"
proof
  fix p and h :: "'x heap" and d A
  assume v: "look_map p h = Some (d, A)"
  have some: "\<exists>m. load string_map a h = Some m \<and> wf_map m \<and> d = Some (map_of m) \<and> A = {a}" if "p = Some a" for a
    using v that by (auto simp: look_map_def split: bind_splits if_splits)
  show "look_map p h' = Some (d, A)" if agr: "agree A h h'" for h'
  proof (cases p)
    case (Some a)
    with some obtain m where m: "load string_map a h = Some m" "wf_map m" "d = Some (map_of m)" "A = {a}" by blast
    then show ?thesis using Some load_agree [OF m(1) agr] by (simp add: look_map_def)
  qed (use v in \<open>simp add: look_map_def\<close>)
  show "x < length h" if "x \<in> A" for x
    using v that by (auto simp: look_map_def split: bind_splits option.splits if_splits dest: load_bound)
  show "\<exists>out t B. copy_map order p h = Some (out, h @ t) \<and> look_map out (h @ t) = Some (d, B) \<and> (\<forall>b \<in> B. length h \<le> b)"
  proof (cases p)
    case (Some a)
    with some obtain m where m: "load string_map a h = Some m" "wf_map m" "d = Some (map_of m)" by blast
    let ?m = "fold (\<lambda>(key, val). AList.update key val) (order m) []"
    have "load string_map (length h) (h @ [StringMap ?m]) = Some ?m" using load_alloc [OF kinds(5), of h ?m "[]"] by (simp add: string_map_def)
    then have "copy_map order p h = Some (Some (length h), h @ [StringMap ?m])"
      "look_map (Some (length h)) (h @ [StringMap ?m]) = Some (d, {length h})"
      using Some m copied_map [OF assms m(2)] by (simp_all add: copy_map_def look_map_def alloc_def string_map_def)
    then show ?thesis by (intro exI [of _ "Some (length h)"] exI [of _ "[StringMap ?m]"]) auto
  qed (use v in \<open>simp add: look_map_def copy_map_def\<close>)
qed

subsection \<open>The generated functions\<close>

text \<open>
  What is copied by code of other packages: \<open>DeepCopyInto\<close> of their structs, \<open>DeepCopy\<close> of a pointer
  to one; and the order in which \<open>range\<close> visits the labels. All that is assumed of it is that it keeps
  the same contract and that the order visits each label once.
\<close>

record 'x external =
  ext_DeepCopyInto :: "('x, 'x) into"
  ext_DeepCopy :: "(addr option, 'x) into"
  range_Labels :: "string gomap \<Rightarrow> string gomap"

definition copies_documented :: "'x external \<Rightarrow> ('x, 'x, 'd) look \<Rightarrow> bool" where
  "copies_documented E look \<longleftrightarrow> deep_copier (ext_DeepCopyInto E) look \<and>
     deep_copier (ext_DeepCopy E) (look_ptr an_external look) \<and> visits (range_Labels E)"

text \<open>\<open>controllermanagerconfig_types.go\<close>.\<close>

definition AWSConfig_DeepCopyInto :: "(mem_AWSConfig, 'x) into" where
  "AWSConfig_DeepCopyInto inp h = do {
     let out = inp;
     (accountIDs, h) \<leftarrow> copy_slice strings assign (aws_AccountIDs inp) h;
     Some (out\<lparr>aws_AccountIDs := accountIDs\<rparr>, h) }"

definition AWSConfig_DeepCopy :: "(addr option, 'x) into" where
  "AWSConfig_DeepCopy = copy_ptr an_AWSConfig AWSConfig_DeepCopyInto"

definition ControllerHealth_DeepCopyInto :: "(mem_ControllerHealth, 'x) into" where
  "ControllerHealth_DeepCopyInto inp h = (let out = inp in Some (out, h))"

definition ControllerHealth_DeepCopy :: "(addr option, 'x) into" where
  "ControllerHealth_DeepCopy = copy_ptr a_ControllerHealth ControllerHealth_DeepCopyInto"

definition ControllerMetrics_DeepCopyInto :: "(mem_ControllerMetrics, 'x) into" where
  "ControllerMetrics_DeepCopyInto inp h = (let out = inp in Some (out, h))"

definition ControllerMetrics_DeepCopy :: "(addr option, 'x) into" where
  "ControllerMetrics_DeepCopy = copy_ptr a_ControllerMetrics ControllerMetrics_DeepCopyInto"

definition ControllerWebhook_DeepCopyInto :: "(mem_ControllerWebhook, 'x) into" where
  "ControllerWebhook_DeepCopyInto inp h = do {
     let out = inp;
     (port, h) \<leftarrow> copy_ptr an_int assign (cw_Port inp) h;
     Some (out\<lparr>cw_Port := port\<rparr>, h) }"

definition ControllerWebhook_DeepCopy :: "(addr option, 'x) into" where
  "ControllerWebhook_DeepCopy = copy_ptr a_ControllerWebhook ControllerWebhook_DeepCopyInto"

definition ControllerManagerConfigurationSpec_DeepCopyInto :: "'x external \<Rightarrow> (mem_ControllerManagerConfigurationSpec, 'x) into" where
  "ControllerManagerConfigurationSpec_DeepCopyInto E inp h = do {
     let out = inp;
     (syncPeriod, h) \<leftarrow> copy_ptr a_duration assign (cs_SyncPeriod inp) h;
     let out = out\<lparr>cs_SyncPeriod := syncPeriod\<rparr>;
     (leaderElection, h) \<leftarrow> copy_ptr an_external (ext_DeepCopyInto E) (cs_LeaderElection inp) h;
     let out = out\<lparr>cs_LeaderElection := leaderElection\<rparr>;
     let out = out\<lparr>cs_Metrics := cs_Metrics inp\<rparr>;
     let out = out\<lparr>cs_Health := cs_Health inp\<rparr>;
     (webhook, h) \<leftarrow> ControllerWebhook_DeepCopyInto (cs_Webhook inp) h;
     Some (out\<lparr>cs_Webhook := webhook\<rparr>, h) }"

definition ControllerManagerConfigurationSpec_DeepCopy :: "'x external \<Rightarrow> (addr option, 'x) into" where
  "ControllerManagerConfigurationSpec_DeepCopy E = copy_ptr a_ConfigurationSpec (ControllerManagerConfigurationSpec_DeepCopyInto E)"

definition ControllerManagerConfig_DeepCopyInto :: "'x external \<Rightarrow> (mem_ControllerManagerConfig, 'x) into" where
  "ControllerManagerConfig_DeepCopyInto E inp h = do {
     let out = inp;
     let out = out\<lparr>mc_TypeMeta := mc_TypeMeta inp\<rparr>;
     (spec, h) \<leftarrow> ControllerManagerConfigurationSpec_DeepCopyInto E (mc_Spec inp) h;
     let out = out\<lparr>mc_Spec := spec\<rparr>;
     (ignoreNamespaces, h) \<leftarrow> copy_slice strings assign (mc_IgnoreNamespaces inp) h;
     let out = out\<lparr>mc_IgnoreNamespaces := ignoreNamespaces\<rparr>;
     (awsConfig, h) \<leftarrow> AWSConfig_DeepCopyInto (mc_AWSConfig inp) h;
     Some (out\<lparr>mc_AWSConfig := awsConfig\<rparr>, h) }"

definition ControllerManagerConfig_DeepCopy :: "'x external \<Rightarrow> (addr option, 'x) into" where
  "ControllerManagerConfig_DeepCopy E = copy_ptr a_Config (ControllerManagerConfig_DeepCopyInto E)"

text \<open>\<open>eksclusterregistry_types.go\<close>.\<close>

definition EKSClusterRegistrySpec_DeepCopyInto :: "'x external \<Rightarrow> (mem_EKSClusterRegistrySpec, 'x) into" where
  "EKSClusterRegistrySpec_DeepCopyInto E inp h = do {
     let out = inp;
     (labels, h) \<leftarrow> copy_map (range_Labels E) (es_Labels inp) h;
     Some (out\<lparr>es_Labels := labels\<rparr>, h) }"

definition EKSClusterRegistrySpec_DeepCopy :: "'x external \<Rightarrow> (addr option, 'x) into" where
  "EKSClusterRegistrySpec_DeepCopy E = copy_ptr a_ClusterSpec (EKSClusterRegistrySpec_DeepCopyInto E)"

definition EKSClusterRegistryStatus_DeepCopyInto :: "'x external \<Rightarrow> (mem_EKSClusterRegistryStatus, 'x) into" where
  "EKSClusterRegistryStatus_DeepCopyInto E inp h = do {
     let out = inp;
     (lastSync, h) \<leftarrow> (if et_LastSync inp \<noteq> None then ext_DeepCopy E (et_LastSync inp) h else Some (None, h));
     let out = out\<lparr>et_LastSync := lastSync\<rparr>;
     (conditions, h) \<leftarrow> copy_slice externals (ext_DeepCopyInto E) (et_Conditions inp) h;
     Some (out\<lparr>et_Conditions := conditions\<rparr>, h) }"

definition EKSClusterRegistryStatus_DeepCopy :: "'x external \<Rightarrow> (addr option, 'x) into" where
  "EKSClusterRegistryStatus_DeepCopy E = copy_ptr a_ClusterStatus (EKSClusterRegistryStatus_DeepCopyInto E)"

definition EKSClusterRegistry_DeepCopyInto :: "'x external \<Rightarrow> ('x mem_EKSClusterRegistry, 'x) into" where
  "EKSClusterRegistry_DeepCopyInto E inp h = do {
     let out = inp;
     let out = out\<lparr>er_TypeMeta := er_TypeMeta inp\<rparr>;
     (objectMeta, h) \<leftarrow> ext_DeepCopyInto E (er_ObjectMeta inp) h;
     let out = out\<lparr>er_ObjectMeta := objectMeta\<rparr>;
     (spec, h) \<leftarrow> EKSClusterRegistrySpec_DeepCopyInto E (er_Spec inp) h;
     let out = out\<lparr>er_Spec := spec\<rparr>;
     (status, h) \<leftarrow> EKSClusterRegistryStatus_DeepCopyInto E (er_Status inp) h;
     Some (out\<lparr>er_Status := status\<rparr>, h) }"

definition EKSClusterRegistry_DeepCopy :: "'x external \<Rightarrow> (addr option, 'x) into" where
  "EKSClusterRegistry_DeepCopy E = copy_ptr a_Cluster (EKSClusterRegistry_DeepCopyInto E)"

definition EKSClusterRegistryList_DeepCopyInto :: "'x external \<Rightarrow> ('x mem_EKSClusterRegistryList, 'x) into" where
  "EKSClusterRegistryList_DeepCopyInto E inp h = do {
     let out = inp;
     let out = out\<lparr>el_TypeMeta := el_TypeMeta inp\<rparr>;
     (listMeta, h) \<leftarrow> ext_DeepCopyInto E (el_ListMeta inp) h;
     let out = out\<lparr>el_ListMeta := listMeta\<rparr>;
     (items, h) \<leftarrow> copy_slice cluster_items (EKSClusterRegistry_DeepCopyInto E) (el_Items inp) h;
     Some (out\<lparr>el_Items := items\<rparr>, h) }"

definition EKSClusterRegistryList_DeepCopy :: "'x external \<Rightarrow> (addr option, 'x) into" where
  "EKSClusterRegistryList_DeepCopy E = copy_ptr a_ClusterList (EKSClusterRegistryList_DeepCopyInto E)"

text \<open>\<open>workloadidentity_types.go\<close>.\<close>

definition WorkloadIdentitySpec_DeepCopyInto :: "'x external \<Rightarrow> (mem_WorkloadIdentitySpec, 'x) into" where
  "WorkloadIdentitySpec_DeepCopyInto E inp h = do {
     let out = inp;
     (podSelector, h) \<leftarrow> copy_ptr an_external (ext_DeepCopyInto E) (ws_PodSelector inp) h;
     let out = out\<lparr>ws_PodSelector := podSelector\<rparr>;
     let out = out\<lparr>ws_TTL := ws_TTL inp\<rparr>;
     let out = out\<lparr>ws_JWTTTL := ws_JWTTTL inp\<rparr>;
     (dnsNameTemplates, h) \<leftarrow> copy_slice strings assign (ws_DNSNameTemplates inp) h;
     let out = out\<lparr>ws_DNSNameTemplates := dnsNameTemplates\<rparr>;
     (workloadSelectorTemplates, h) \<leftarrow> copy_slice strings assign (ws_WorkloadSelectorTemplates inp) h;
     let out = out\<lparr>ws_WorkloadSelectorTemplates := workloadSelectorTemplates\<rparr>;
     (federatesWith, h) \<leftarrow> copy_slice strings assign (ws_FederatesWith inp) h;
     let out = out\<lparr>ws_FederatesWith := federatesWith\<rparr>;
     (clusterSelector, h) \<leftarrow> copy_ptr an_external (ext_DeepCopyInto E) (ws_ClusterSelector inp) h;
     Some (out\<lparr>ws_ClusterSelector := clusterSelector\<rparr>, h) }"

definition WorkloadIdentitySpec_DeepCopy :: "'x external \<Rightarrow> (addr option, 'x) into" where
  "WorkloadIdentitySpec_DeepCopy E = copy_ptr an_IdentitySpec (WorkloadIdentitySpec_DeepCopyInto E)"

definition WorkloadIdentityStats_DeepCopyInto :: "(WorkloadIdentityStats, 'x) into" where
  "WorkloadIdentityStats_DeepCopyInto inp h = (let out = inp in Some (out, h))"

definition WorkloadIdentityStats_DeepCopy :: "(addr option, 'x) into" where
  "WorkloadIdentityStats_DeepCopy = copy_ptr an_IdentityStats WorkloadIdentityStats_DeepCopyInto"

definition WorkloadIdentityStatus_DeepCopyInto :: "'x external \<Rightarrow> (mem_WorkloadIdentityStatus, 'x) into" where
  "WorkloadIdentityStatus_DeepCopyInto E inp h = do {
     let out = inp;
     let out = out\<lparr>wt_Stats := wt_Stats inp\<rparr>;
     (lastReconciliation, h) \<leftarrow>
       (if wt_LastReconciliation inp \<noteq> None then ext_DeepCopy E (wt_LastReconciliation inp) h else Some (None, h));
     Some (out\<lparr>wt_LastReconciliation := lastReconciliation\<rparr>, h) }"

definition WorkloadIdentityStatus_DeepCopy :: "'x external \<Rightarrow> (addr option, 'x) into" where
  "WorkloadIdentityStatus_DeepCopy E = copy_ptr an_IdentityStatus (WorkloadIdentityStatus_DeepCopyInto E)"

definition WorkloadIdentity_DeepCopyInto :: "'x external \<Rightarrow> ('x mem_WorkloadIdentity, 'x) into" where
  "WorkloadIdentity_DeepCopyInto E inp h = do {
     let out = inp;
     let out = out\<lparr>wr_TypeMeta := wr_TypeMeta inp\<rparr>;
     (objectMeta, h) \<leftarrow> ext_DeepCopyInto E (wr_ObjectMeta inp) h;
     let out = out\<lparr>wr_ObjectMeta := objectMeta\<rparr>;
     (spec, h) \<leftarrow> WorkloadIdentitySpec_DeepCopyInto E (wr_Spec inp) h;
     let out = out\<lparr>wr_Spec := spec\<rparr>;
     (status, h) \<leftarrow> WorkloadIdentityStatus_DeepCopyInto E (wr_Status inp) h;
     Some (out\<lparr>wr_Status := status\<rparr>, h) }"

definition WorkloadIdentity_DeepCopy :: "'x external \<Rightarrow> (addr option, 'x) into" where
  "WorkloadIdentity_DeepCopy E = copy_ptr an_Identity (WorkloadIdentity_DeepCopyInto E)"

definition WorkloadIdentityList_DeepCopyInto :: "'x external \<Rightarrow> ('x mem_WorkloadIdentityList, 'x) into" where
  "WorkloadIdentityList_DeepCopyInto E inp h = do {
     let out = inp;
     let out = out\<lparr>wl_TypeMeta := wl_TypeMeta inp\<rparr>;
     (listMeta, h) \<leftarrow> ext_DeepCopyInto E (wl_ListMeta inp) h;
     let out = out\<lparr>wl_ListMeta := listMeta\<rparr>;
     (items, h) \<leftarrow> copy_slice identity_items (WorkloadIdentity_DeepCopyInto E) (wl_Items inp) h;
     Some (out\<lparr>wl_Items := items\<rparr>, h) }"

definition WorkloadIdentityList_DeepCopy :: "'x external \<Rightarrow> (addr option, 'x) into" where
  "WorkloadIdentityList_DeepCopy E = copy_ptr an_IdentityList (WorkloadIdentityList_DeepCopyInto E)"

text \<open>A value of the interface \<open>runtime.Object\<close> that is not nil: one of the root types and a pointer,
  which may be nil.\<close>

datatype runtime_Object =
    ConfigObject "addr option"
  | ClusterObject "addr option"
  | ClusterListObject "addr option"
  | IdentityObject "addr option"
  | IdentityListObject "addr option"

definition as_object :: "(addr option \<Rightarrow> runtime_Object) \<Rightarrow> (addr option, 'x) into \<Rightarrow> addr option \<Rightarrow> 'x heap \<Rightarrow>
    (runtime_Object option \<times> 'x heap) option" where
  "as_object con copy p h = do {
     (c, h) \<leftarrow> copy p h;
     Some (if c \<noteq> None then Some (con c) else None, h) }"

definition ControllerManagerConfig_DeepCopyObject :: "'x external \<Rightarrow> addr option \<Rightarrow> 'x heap \<Rightarrow> (runtime_Object option \<times> 'x heap) option" where
  "ControllerManagerConfig_DeepCopyObject E = as_object ConfigObject (ControllerManagerConfig_DeepCopy E)"

definition EKSClusterRegistry_DeepCopyObject :: "'x external \<Rightarrow> addr option \<Rightarrow> 'x heap \<Rightarrow> (runtime_Object option \<times> 'x heap) option" where
  "EKSClusterRegistry_DeepCopyObject E = as_object ClusterObject (EKSClusterRegistry_DeepCopy E)"

definition EKSClusterRegistryList_DeepCopyObject :: "'x external \<Rightarrow> addr option \<Rightarrow> 'x heap \<Rightarrow> (runtime_Object option \<times> 'x heap) option" where
  "EKSClusterRegistryList_DeepCopyObject E = as_object ClusterListObject (EKSClusterRegistryList_DeepCopy E)"

definition WorkloadIdentity_DeepCopyObject :: "'x external \<Rightarrow> addr option \<Rightarrow> 'x heap \<Rightarrow> (runtime_Object option \<times> 'x heap) option" where
  "WorkloadIdentity_DeepCopyObject E = as_object IdentityObject (WorkloadIdentity_DeepCopy E)"

definition WorkloadIdentityList_DeepCopyObject :: "'x external \<Rightarrow> addr option \<Rightarrow> 'x heap \<Rightarrow> (runtime_Object option \<times> 'x heap) option" where
  "WorkloadIdentityList_DeepCopyObject E = as_object IdentityListObject (WorkloadIdentityList_DeepCopy E)"

subsection \<open>What the structs mean\<close>

definition look_AWSConfig where
  "look_AWSConfig = look_struct (\<lambda>v. (aws_Region v, aws_AssumeRoleARN v)) aws_AccountIDs (look_slice strings plain)"

definition look_ControllerWebhook where
  "look_ControllerWebhook = look_struct (\<lambda>v. (cw_Host v, cw_CertDir v)) cw_Port (look_ptr an_int plain)"

definition look_ConfigurationSpec where
  "look_ConfigurationSpec look = look_struct (\<lambda>v. (cs_CacheNamespace v, cs_Metrics v, cs_Health v))
     (\<lambda>v. (cs_SyncPeriod v, cs_LeaderElection v, cs_Webhook v))
     (look_pair (look_ptr a_duration plain) (look_pair (look_ptr an_external look) look_ControllerWebhook))"

definition look_Config where
  "look_Config look = look_struct
     (\<lambda>v. (mc_TypeMeta v, mc_ClusterName v, mc_TrustDomain v, mc_SPIREServerSocketPath v, mc_EntryIDPrefix v, mc_GCInterval v))
     (\<lambda>v. (mc_Spec v, mc_IgnoreNamespaces v, mc_AWSConfig v))
     (look_pair (look_ConfigurationSpec look) (look_pair (look_slice strings plain) look_AWSConfig))"

definition look_ClusterSpec where
  "look_ClusterSpec = look_struct (\<lambda>v. (es_ClusterName v, es_Region v, es_AccountID v, es_Enabled v, es_AssumeRoleARN v)) es_Labels look_map"

definition look_ClusterStatus where
  "look_ClusterStatus look = look_struct (\<lambda>v. (et_NamespaceCount v, et_EntriesRegistered v)) (\<lambda>v. (et_LastSync v, et_Conditions v))
     (look_pair (look_ptr an_external look) (look_slice externals look))"

definition look_Cluster where
  "look_Cluster look = look_struct er_TypeMeta (\<lambda>v. (er_ObjectMeta v, er_Spec v, er_Status v))
     (look_pair look (look_pair look_ClusterSpec (look_ClusterStatus look)))"

definition look_ClusterList where
  "look_ClusterList look = look_struct el_TypeMeta (\<lambda>v. (el_ListMeta v, el_Items v))
     (look_pair look (look_slice cluster_items (look_Cluster look)))"

definition look_IdentitySpec where
  "look_IdentitySpec look = look_struct
     (\<lambda>v. (ws_ApplicationName v, ws_Namespace v, ws_SPIFFEIDTemplate v, ws_ParentIDTemplate v, ws_TTL v, ws_JWTTTL v,
        ws_Admin v, ws_Downstream v, ws_AutoPopulateDNSNames v, ws_Hint v))
     (\<lambda>v. (ws_PodSelector v, ws_DNSNameTemplates v, ws_WorkloadSelectorTemplates v, ws_FederatesWith v, ws_ClusterSelector v))
     (look_pair (look_ptr an_external look) (look_pair (look_slice strings plain) (look_pair (look_slice strings plain)
       (look_pair (look_slice strings plain) (look_ptr an_external look)))))"

definition look_IdentityStatus where
  "look_IdentityStatus look = look_struct wt_Stats wt_LastReconciliation (look_ptr an_external look)"

definition look_Identity where
  "look_Identity look = look_struct wr_TypeMeta (\<lambda>v. (wr_ObjectMeta v, wr_Spec v, wr_Status v))
     (look_pair look (look_pair (look_IdentitySpec look) (look_IdentityStatus look)))"

definition look_IdentityList where
  "look_IdentityList look = look_struct wl_TypeMeta (\<lambda>v. (wl_ListMeta v, wl_Items v))
     (look_pair look (look_slice identity_items (look_Identity look)))"

subsection \<open>Every generated copy keeps the contract\<close>

lemma deep_copier_guarded:
  assumes "deep_copier copy (look_ptr k look)"
  shows "deep_copier (\<lambda>p h. if p \<noteq> None then copy p h else Some (None, h)) (look_ptr k look)"
proof
  fix p h d A
  assume v: "look_ptr k look p h = Some (d, A)"
  then show "look_ptr k look p h' = Some (d, A)" if "agree A h h'" for h' using deep_copier.look_agree [OF assms] that by blast
  show "x < length h" if "x \<in> A" for x using deep_copier.look_bound [OF assms v that] .
  show "\<exists>out t B. (if p \<noteq> None then copy p h else Some (None, h)) = Some (out, h @ t) \<and> look_ptr k look out (h @ t) = Some (d, B) \<and>
      (\<forall>b \<in> B. length h \<le> b)"
  proof (cases p)
    case None
    then show ?thesis using v by (intro exI [of _ None] exI [of _ "[]"] exI [of _ "{}"]) (simp add: look_ptr_def)
  qed (use deep_copier.copy_law [OF assms v] in simp)
qed

lemmas deep_copier_parts = deep_copier_pair deep_copier_ptr deep_copier_slice deep_copier_map deep_copier_guarded assigned.deep_copier_axioms kinds

interpretation aws_config: deep_copier AWSConfig_DeepCopyInto look_AWSConfig
  unfolding look_AWSConfig_def
  by (rule deep_copier_struct [where copy = "copy_slice strings assign" and put = "\<lambda>f v. v\<lparr>aws_AccountIDs := f\<rparr>"])
    (intro deep_copier_parts, simp_all add: AWSConfig_DeepCopyInto_def)

interpretation controller_webhook: deep_copier ControllerWebhook_DeepCopyInto look_ControllerWebhook
  unfolding look_ControllerWebhook_def
  by (rule deep_copier_struct [where copy = "copy_ptr an_int assign" and put = "\<lambda>f v. v\<lparr>cw_Port := f\<rparr>"])
    (intro deep_copier_parts, simp_all add: ControllerWebhook_DeepCopyInto_def)

lemma plain_structs:
  "ControllerHealth_DeepCopyInto = assign" "ControllerMetrics_DeepCopyInto = assign" "WorkloadIdentityStats_DeepCopyInto = assign"
  by (simp_all add: fun_eq_iff ControllerHealth_DeepCopyInto_def ControllerMetrics_DeepCopyInto_def
      WorkloadIdentityStats_DeepCopyInto_def assign_def)

lemmas struct_simps = copy_pair_def case_prod_unfold bind_assoc

lemma documented:
  assumes "copies_documented E look"
  shows "deep_copier (ext_DeepCopyInto E) look" "deep_copier (ext_DeepCopy E) (look_ptr an_external look)" "visits (range_Labels E)"
  using assms by (simp_all add: copies_documented_def)

lemma configuration_spec:
  assumes "copies_documented E look"
  shows "deep_copier (ControllerManagerConfigurationSpec_DeepCopyInto E) (look_ConfigurationSpec look)"
  unfolding look_ConfigurationSpec_def
  by (rule deep_copier_struct [where copy = "copy_pair (copy_ptr a_duration assign) (copy_pair (copy_ptr an_external (ext_DeepCopyInto E)) ControllerWebhook_DeepCopyInto)"
        and put = "\<lambda>(s, l, w) v. v\<lparr>cs_SyncPeriod := s, cs_LeaderElection := l, cs_Webhook := w\<rparr>"])
    (intro deep_copier_parts documented [OF assms] controller_webhook.deep_copier_axioms, simp_all add: ControllerManagerConfigurationSpec_DeepCopyInto_def struct_simps)

lemma config:
  assumes "copies_documented E look"
  shows "deep_copier (ControllerManagerConfig_DeepCopyInto E) (look_Config look)"
  unfolding look_Config_def
  by (rule deep_copier_struct [where copy = "copy_pair (ControllerManagerConfigurationSpec_DeepCopyInto E) (copy_pair (copy_slice strings assign) AWSConfig_DeepCopyInto)"
        and put = "\<lambda>(s, i, a) v. v\<lparr>mc_Spec := s, mc_IgnoreNamespaces := i, mc_AWSConfig := a\<rparr>"])
    (intro deep_copier_parts documented [OF assms] configuration_spec [OF assms] aws_config.deep_copier_axioms, simp_all add: ControllerManagerConfig_DeepCopyInto_def struct_simps)

lemma cluster_spec:
  assumes "copies_documented E look"
  shows "deep_copier (EKSClusterRegistrySpec_DeepCopyInto E) (look_ClusterSpec)"
  unfolding look_ClusterSpec_def
  by (rule deep_copier_struct [where copy = "copy_map (range_Labels E)"
        and put = "\<lambda>f v. v\<lparr>es_Labels := f\<rparr>"])
    (intro deep_copier_parts documented [OF assms], simp_all add: EKSClusterRegistrySpec_DeepCopyInto_def struct_simps)

lemma cluster_status:
  assumes "copies_documented E look"
  shows "deep_copier (EKSClusterRegistryStatus_DeepCopyInto E) (look_ClusterStatus look)"
  unfolding look_ClusterStatus_def
  by (rule deep_copier_struct [where copy = "copy_pair (\<lambda>p h. if p \<noteq> None then ext_DeepCopy E p h else Some (None, h)) (copy_slice externals (ext_DeepCopyInto E))"
        and put = "\<lambda>(l, c) v. v\<lparr>et_LastSync := l, et_Conditions := c\<rparr>"])
    (intro deep_copier_parts documented [OF assms], simp_all add: EKSClusterRegistryStatus_DeepCopyInto_def struct_simps)

lemma cluster:
  assumes "copies_documented E look"
  shows "deep_copier (EKSClusterRegistry_DeepCopyInto E) (look_Cluster look)"
  unfolding look_Cluster_def
  by (rule deep_copier_struct [where copy = "copy_pair (ext_DeepCopyInto E) (copy_pair (EKSClusterRegistrySpec_DeepCopyInto E) (EKSClusterRegistryStatus_DeepCopyInto E))"
        and put = "\<lambda>(m, s, t) v. v\<lparr>er_ObjectMeta := m, er_Spec := s, er_Status := t\<rparr>"])
    (intro deep_copier_parts documented [OF assms] cluster_spec [OF assms] cluster_status [OF assms], simp_all add: EKSClusterRegistry_DeepCopyInto_def struct_simps)

lemma cluster_list:
  assumes "copies_documented E look"
  shows "deep_copier (EKSClusterRegistryList_DeepCopyInto E) (look_ClusterList look)"
  unfolding look_ClusterList_def
  by (rule deep_copier_struct [where copy = "copy_pair (ext_DeepCopyInto E) (copy_slice cluster_items (EKSClusterRegistry_DeepCopyInto E))"
        and put = "\<lambda>(m, i) v. v\<lparr>el_ListMeta := m, el_Items := i\<rparr>"])
    (intro deep_copier_parts documented [OF assms] cluster [OF assms], simp_all add: EKSClusterRegistryList_DeepCopyInto_def struct_simps)

lemma identity_spec:
  assumes "copies_documented E look"
  shows "deep_copier (WorkloadIdentitySpec_DeepCopyInto E) (look_IdentitySpec look)"
  unfolding look_IdentitySpec_def
  by (rule deep_copier_struct [where copy = "copy_pair (copy_ptr an_external (ext_DeepCopyInto E)) (copy_pair (copy_slice strings assign) (copy_pair (copy_slice strings assign)
          (copy_pair (copy_slice strings assign) (copy_ptr an_external (ext_DeepCopyInto E)))))"
        and put = "\<lambda>(p, d, w, f, c) v. v\<lparr>ws_PodSelector := p, ws_DNSNameTemplates := d, ws_WorkloadSelectorTemplates := w, ws_FederatesWith := f, ws_ClusterSelector := c\<rparr>"])
    (intro deep_copier_parts documented [OF assms], simp_all add: WorkloadIdentitySpec_DeepCopyInto_def struct_simps)

lemma identity_status:
  assumes "copies_documented E look"
  shows "deep_copier (WorkloadIdentityStatus_DeepCopyInto E) (look_IdentityStatus look)"
  unfolding look_IdentityStatus_def
  by (rule deep_copier_struct [where copy = "\<lambda>p h. if p \<noteq> None then ext_DeepCopy E p h else Some (None, h)"
        and put = "\<lambda>f v. v\<lparr>wt_LastReconciliation := f\<rparr>"])
    (intro deep_copier_parts documented [OF assms], simp_all add: WorkloadIdentityStatus_DeepCopyInto_def struct_simps)

lemma identity:
  assumes "copies_documented E look"
  shows "deep_copier (WorkloadIdentity_DeepCopyInto E) (look_Identity look)"
  unfolding look_Identity_def
  by (rule deep_copier_struct [where copy = "copy_pair (ext_DeepCopyInto E) (copy_pair (WorkloadIdentitySpec_DeepCopyInto E) (WorkloadIdentityStatus_DeepCopyInto E))"
        and put = "\<lambda>(m, s, t) v. v\<lparr>wr_ObjectMeta := m, wr_Spec := s, wr_Status := t\<rparr>"])
    (intro deep_copier_parts documented [OF assms] identity_spec [OF assms] identity_status [OF assms], simp_all add: WorkloadIdentity_DeepCopyInto_def struct_simps)

lemma identity_list:
  assumes "copies_documented E look"
  shows "deep_copier (WorkloadIdentityList_DeepCopyInto E) (look_IdentityList look)"
  unfolding look_IdentityList_def
  by (rule deep_copier_struct [where copy = "copy_pair (ext_DeepCopyInto E) (copy_slice identity_items (WorkloadIdentity_DeepCopyInto E))"
        and put = "\<lambda>(m, i) v. v\<lparr>wl_ListMeta := m, wl_Items := i\<rparr>"])
    (intro deep_copier_parts documented [OF assms] identity [OF assms], simp_all add: WorkloadIdentityList_DeepCopyInto_def struct_simps)

lemmas generated = config configuration_spec cluster_spec cluster_status cluster cluster_list identity_spec identity_status identity
  identity_list

lemmas DeepCopy_defs = AWSConfig_DeepCopy_def ControllerHealth_DeepCopy_def ControllerMetrics_DeepCopy_def ControllerWebhook_DeepCopy_def
  ControllerManagerConfigurationSpec_DeepCopy_def ControllerManagerConfig_DeepCopy_def EKSClusterRegistrySpec_DeepCopy_def
  EKSClusterRegistryStatus_DeepCopy_def EKSClusterRegistry_DeepCopy_def EKSClusterRegistryList_DeepCopy_def
  WorkloadIdentitySpec_DeepCopy_def WorkloadIdentityStats_DeepCopy_def WorkloadIdentityStatus_DeepCopy_def
  WorkloadIdentity_DeepCopy_def WorkloadIdentityList_DeepCopy_def

lemma deep_copies:
  assumes "copies_documented E look"
  shows "deep_copier AWSConfig_DeepCopy (look_ptr an_AWSConfig look_AWSConfig)"
    and "deep_copier ControllerHealth_DeepCopy (look_ptr a_ControllerHealth plain)"
    and "deep_copier ControllerMetrics_DeepCopy (look_ptr a_ControllerMetrics plain)"
    and "deep_copier ControllerWebhook_DeepCopy (look_ptr a_ControllerWebhook look_ControllerWebhook)"
    and "deep_copier (ControllerManagerConfigurationSpec_DeepCopy E) (look_ptr a_ConfigurationSpec (look_ConfigurationSpec look))"
    and "deep_copier (ControllerManagerConfig_DeepCopy E) (look_ptr a_Config (look_Config look))"
    and "deep_copier (EKSClusterRegistrySpec_DeepCopy E) (look_ptr a_ClusterSpec look_ClusterSpec)"
    and "deep_copier (EKSClusterRegistryStatus_DeepCopy E) (look_ptr a_ClusterStatus (look_ClusterStatus look))"
    and "deep_copier (EKSClusterRegistry_DeepCopy E) (look_ptr a_Cluster (look_Cluster look))"
    and "deep_copier (EKSClusterRegistryList_DeepCopy E) (look_ptr a_ClusterList (look_ClusterList look))"
    and "deep_copier (WorkloadIdentitySpec_DeepCopy E) (look_ptr an_IdentitySpec (look_IdentitySpec look))"
    and "deep_copier WorkloadIdentityStats_DeepCopy (look_ptr an_IdentityStats plain)"
    and "deep_copier (WorkloadIdentityStatus_DeepCopy E) (look_ptr an_IdentityStatus (look_IdentityStatus look))"
    and "deep_copier (WorkloadIdentity_DeepCopy E) (look_ptr an_Identity (look_Identity look))"
    and "deep_copier (WorkloadIdentityList_DeepCopy E) (look_ptr an_IdentityList (look_IdentityList look))"
  unfolding DeepCopy_defs plain_structs
  by (intro deep_copier_parts generated [OF assms] aws_config.deep_copier_axioms controller_webhook.deep_copier_axioms)+

text \<open>A copy as a \<open>runtime.Object\<close>: of the same type as the original, and nil exactly if the pointer is.\<close>

definition object_copier where
  "object_copier con copy look \<longleftrightarrow> (\<forall>p h d A. look p h = Some (d, A) \<longrightarrow>
     (\<exists>q h' B. copy p h = Some (map_option (\<lambda>b. con (Some b)) q, h') \<and> (q = None \<longleftrightarrow> p = None) \<and>
        look p h' = Some (d, A) \<and> look q h' = Some (d, B) \<and> A \<inter> B = {}))"

lemma object_copierI:
  assumes "deep_copier copy (look_ptr k look)"
  shows "object_copier con (as_object con copy) (look_ptr k look)"
  unfolding object_copier_def
proof (intro allI impI)
  fix p h d A
  assume v: "look_ptr k look p h = Some (d, A)"
  obtain q h' B where c: "copy p h = Some (q, h')" "look_ptr k look p h' = Some (d, A)" "look_ptr k look q h' = Some (d, B)" "A \<inter> B = {}"
    using deep_copier.independent [OF assms v] by blast
  have nil: "p = None \<longleftrightarrow> d = None" if "look_ptr k look p h = Some (d, A)" for p h A
    using that by (auto simp: look_ptr_def split: option.splits bind_splits)
  have "as_object con copy p h = Some (map_option (\<lambda>b. con (Some b)) q, h')" using c(1) by (cases q) (simp_all add: as_object_def)
  then show "\<exists>q h' B. as_object con copy p h = Some (map_option (\<lambda>b. con (Some b)) q, h') \<and> (q = None \<longleftrightarrow> p = None) \<and>
      look_ptr k look p h' = Some (d, A) \<and> look_ptr k look q h' = Some (d, B) \<and> A \<inter> B = {}"
    using c nil [OF v] nil [OF c(3)] by blast
qed

text \<open>What the rest of the program may do to the memory: write a cell, or allocate one.\<close>

definition write_cell :: "addr \<times> 'x cell \<Rightarrow> 'x heap \<Rightarrow> 'x heap" where
  "write_cell = (\<lambda>(a, c) h. if a < length h then h[a := c] else h @ [c])"

lemma write_agree: "\<forall>(a, c) \<in> set ws. a \<notin> B \<Longrightarrow> agree B h (fold write_cell ws h)"
proof (induction ws arbitrary: h)
  case (Cons w ws)
  then have "agree B h (write_cell w h)" by (auto simp: write_cell_def agree_def nth_append nth_list_update)
  moreover have "agree B (write_cell w h) (fold write_cell ws (write_cell w h))" using Cons by simp
  ultimately show ?case by (simp add: agree_def)
qed simp

subsection \<open>Properties\<close>

text \<open>C23: every generated \<open>DeepCopy\<close> and \<open>DeepCopyObject\<close> is a deep copy: on anything that can be read it
  returns, changes no memory there was, and what it returns has the same value in depth (nil stays
  nil and empty stays empty) and lies in new memory only; an object keeps its type and a nil pointer
  gives the nil interface. Of the copies made by other packages only the same is assumed.\<close>

theorem generated_copies_are_deep:
  assumes "copies_documented E look"
  shows "deep_copier AWSConfig_DeepCopy (look_ptr an_AWSConfig look_AWSConfig) \<and>
    deep_copier ControllerHealth_DeepCopy (look_ptr a_ControllerHealth plain) \<and>
    deep_copier ControllerMetrics_DeepCopy (look_ptr a_ControllerMetrics plain) \<and>
    deep_copier ControllerWebhook_DeepCopy (look_ptr a_ControllerWebhook look_ControllerWebhook) \<and>
    deep_copier (ControllerManagerConfigurationSpec_DeepCopy E) (look_ptr a_ConfigurationSpec (look_ConfigurationSpec look)) \<and>
    deep_copier (ControllerManagerConfig_DeepCopy E) (look_ptr a_Config (look_Config look)) \<and>
    deep_copier (EKSClusterRegistrySpec_DeepCopy E) (look_ptr a_ClusterSpec look_ClusterSpec) \<and>
    deep_copier (EKSClusterRegistryStatus_DeepCopy E) (look_ptr a_ClusterStatus (look_ClusterStatus look)) \<and>
    deep_copier (EKSClusterRegistry_DeepCopy E) (look_ptr a_Cluster (look_Cluster look)) \<and>
    deep_copier (EKSClusterRegistryList_DeepCopy E) (look_ptr a_ClusterList (look_ClusterList look)) \<and>
    deep_copier (WorkloadIdentitySpec_DeepCopy E) (look_ptr an_IdentitySpec (look_IdentitySpec look)) \<and>
    deep_copier WorkloadIdentityStats_DeepCopy (look_ptr an_IdentityStats plain) \<and>
    deep_copier (WorkloadIdentityStatus_DeepCopy E) (look_ptr an_IdentityStatus (look_IdentityStatus look)) \<and>
    deep_copier (WorkloadIdentity_DeepCopy E) (look_ptr an_Identity (look_Identity look)) \<and>
    deep_copier (WorkloadIdentityList_DeepCopy E) (look_ptr an_IdentityList (look_IdentityList look)) \<and>
    object_copier ConfigObject (ControllerManagerConfig_DeepCopyObject E) (look_ptr a_Config (look_Config look)) \<and>
    object_copier ClusterObject (EKSClusterRegistry_DeepCopyObject E) (look_ptr a_Cluster (look_Cluster look)) \<and>
    object_copier ClusterListObject (EKSClusterRegistryList_DeepCopyObject E) (look_ptr a_ClusterList (look_ClusterList look)) \<and>
    object_copier IdentityObject (WorkloadIdentity_DeepCopyObject E) (look_ptr an_Identity (look_Identity look)) \<and>
    object_copier IdentityListObject (WorkloadIdentityList_DeepCopyObject E) (look_ptr an_IdentityList (look_IdentityList look))"
  unfolding ControllerManagerConfig_DeepCopyObject_def EKSClusterRegistry_DeepCopyObject_def EKSClusterRegistryList_DeepCopyObject_def
    WorkloadIdentity_DeepCopyObject_def WorkloadIdentityList_DeepCopyObject_def
  by (intro conjI object_copierI deep_copies [OF assms])

text \<open>C22: the cluster the manager keeps is its own. \<open>AddOrUpdateCluster\<close> and \<open>createClusterConnection\<close> keep
  \<open>cluster.DeepCopy()\<close>; whatever is written afterwards to the original, or to anything but the copy,
  the kept cluster has the value the original had when it was copied, and the other way round.\<close>

theorem kept_cluster_is_independent:
  assumes "copies_documented E look" and "look_ptr a_Cluster (look_Cluster look) (Some a) h = Some (d, A)"
  shows "\<exists>b h' B. EKSClusterRegistry_DeepCopy E (Some a) h = Some (Some b, h') \<and> A \<inter> B = {} \<and>
    (\<forall>ws. (\<forall>(x, c) \<in> set ws. x \<notin> B) \<longrightarrow> look_ptr a_Cluster (look_Cluster look) (Some b) (fold write_cell ws h') = Some (d, B)) \<and>
    (\<forall>ws. (\<forall>(x, c) \<in> set ws. x \<notin> A) \<longrightarrow> look_ptr a_Cluster (look_Cluster look) (Some a) (fold write_cell ws h') = Some (d, A))"
proof -
  obtain q h' B where c: "EKSClusterRegistry_DeepCopy E (Some a) h = Some (q, h')" "look_ptr a_Cluster (look_Cluster look) q h' = Some (d, B)"
    "A \<inter> B = {}" "\<forall>h''. agree B h' h'' \<longrightarrow> look_ptr a_Cluster (look_Cluster look) q h'' = Some (d, B)"
    "\<forall>h''. agree A h' h'' \<longrightarrow> look_ptr a_Cluster (look_Cluster look) (Some a) h'' = Some (d, A)"
    using deep_copier.independent [OF deep_copies(9) [OF assms(1)] assms(2)] by blast
  moreover obtain b where "q = Some b" using c(1)
    by (auto simp: EKSClusterRegistry_DeepCopy_def copy_ptr_def alloc_def split: bind_splits)
  ultimately show ?thesis
    using write_agree [of _ B h'] write_agree [of _ A h'] by (intro exI [of _ b] exI [of _ h'] exI [of _ B] conjI allI impI) auto
qed

subsection \<open>The properties on a small memory\<close>

text \<open>Structs of other packages that consist of one slice of strings, as the finalizers of an object; and
  labels visited backwards.\<close>

definition ref_external :: "slice option external" where
  "ref_external = \<lparr>ext_DeepCopyInto = copy_slice strings assign,
     ext_DeepCopy = copy_ptr an_external (copy_slice strings assign), range_Labels = rev\<rparr>"

definition ref_memory :: "slice option heap" where
  "ref_memory = [Strings [''cleanup'', ''other''], StringMap [(''env'', ''prod''), (''tier'', ''web'')],
     ClusterCell \<lparr>er_TypeMeta = \<lparr>tm_Kind = ''EKSClusterRegistry'', tm_APIVersion = ''v1alpha1''\<rparr>,
       er_ObjectMeta = Some (Slice 0 0 1),
       er_Spec = \<lparr>es_ClusterName = ''eks-east'', es_Region = ''us-east-1'', es_AccountID = ''1'', es_Enabled = True,
         es_AssumeRoleARN = [], es_Labels = Some 1\<rparr>,
       er_Status = \<lparr>et_LastSync = None, et_Conditions = None, et_NamespaceCount = 0, et_EntriesRegistered = 0\<rparr>\<rparr>]"

lemma ref_copies: "copies_documented ref_external (look_slice strings plain)"
  unfolding copies_documented_def ref_external_def external.simps
  by (intro conjI deep_copier_parts) (simp add: visits_def)

theorem generated_copies_are_deep_witness:
  "deep_copier (WorkloadIdentity_DeepCopy ref_external) (look_ptr an_Identity (look_Identity (look_slice strings plain)))"
  using generated_copies_are_deep [OF ref_copies] by blast

lemma ref_cluster_value:
  "look_ptr a_Cluster (look_Cluster (look_slice strings plain)) (Some 2) ref_memory =
     Some (Some (\<lparr>tm_Kind = ''EKSClusterRegistry'', tm_APIVersion = ''v1alpha1''\<rparr>, Some [''cleanup''],
       ((''eks-east'', ''us-east-1'', ''1'', True, []), Some [''env'' \<mapsto> ''prod'', ''tier'' \<mapsto> ''web'']),
       ((0, 0), None, None)), {0, 1, 2})"
  by (auto simp: look_ptr_def look_Cluster_def look_ClusterSpec_def look_ClusterStatus_def look_struct_def look_pair_def look_slice_def
      look_map_def plain_def load_def kind_defs ref_memory_def wf_map_def)

theorem kept_cluster_is_independent_witness:
  "\<exists>b h' B. EKSClusterRegistry_DeepCopy ref_external (Some 2) ref_memory = Some (Some b, h') \<and>
     look_ptr a_Cluster (look_Cluster (look_slice strings plain)) (Some b) (fold write_cell [(1, StringMap []), (0, Strings [])] h') =
       Some (Some (\<lparr>tm_Kind = ''EKSClusterRegistry'', tm_APIVersion = ''v1alpha1''\<rparr>, Some [''cleanup''],
         ((''eks-east'', ''us-east-1'', ''1'', True, []), Some [''env'' \<mapsto> ''prod'', ''tier'' \<mapsto> ''web'']),
         ((0, 0), None, None)), B)"
proof -
  obtain b h' B where k: "EKSClusterRegistry_DeepCopy ref_external (Some 2) ref_memory = Some (Some b, h')" "{0, 1, 2} \<inter> B = {}"
    "\<forall>ws. (\<forall>(x, c) \<in> set ws. x \<notin> B) \<longrightarrow> look_ptr a_Cluster (look_Cluster (look_slice strings plain)) (Some b) (fold write_cell ws h') =
       Some (Some (\<lparr>tm_Kind = ''EKSClusterRegistry'', tm_APIVersion = ''v1alpha1''\<rparr>, Some [''cleanup''],
         ((''eks-east'', ''us-east-1'', ''1'', True, []), Some [''env'' \<mapsto> ''prod'', ''tier'' \<mapsto> ''web'']),
         ((0, 0), None, None)), B)"
    using kept_cluster_is_independent [OF ref_copies ref_cluster_value] by blast
  have "\<forall>(x, c) \<in> set [(1, StringMap []), (0, Strings [] :: slice option cell)]. x \<notin> B" using k(2) by auto
  then show ?thesis using k(1,3) by blast
qed

end
