(* ===== verification/Manager_Lock.thy ===== *)
theory Manager_Lock
  imports Cluster_Manager
begin

text \<open>
  The lock of \<open>internal/cluster/manager.go\<close>. The other theories take an operation of the manager as one
  step because it holds \<open>mu\<close>; here goroutines call the operations at any time, wait for the lock, and
  are interrupted wherever an operation leaves the process: in the call of AWS that makes a client,
  and in \<open>WaitForCacheSync\<close>. The cleanup of the client cache has a lock of its own and may run in
  between. What runs from one of these places to the next is one step: nobody else can touch the
  manager then but the cleanup, which only drops clients that have not been used for a while.
  Shown: what the calls return and what becomes of the manager is what the operations, one after the
  other, would have done; no operation panics; every call can return while informers answer; and
  what happens when one does not.
\<close>

subsection \<open>Goroutines\<close>

text \<open>The calls, and what they return. \<open>Lookup\<close> is also the look-up in \<open>handlePodChange\<close>.\<close>

datatype mcall =
    AddOrUpdate EKSClusterRegistry
  | Remove string
  | SetReconciler
  | StopAll
  | Lookup string
  | LookupAll
  | LookupConnected string

datatype 'k reply =
    Answer "go_error option"
  | Returned
  | Found "'k ClusterConnection option"
  | FoundAll "'k ClusterConnection list"
  | FoundConnected bool

text \<open>\<open>mu.Lock\<close> against \<open>mu.RLock\<close>.\<close>

fun exclusive :: "mcall \<Rightarrow> bool" where
  "exclusive (Lookup _) = False"
| "exclusive LookupAll = False"
| "exclusive (LookupConnected _) = False"
| "exclusive _ = True"

text \<open>Where a goroutine is: not in the manager, before \<open>Lock\<close>, after it, in the call of AWS, in
  \<open>WaitForCacheSync\<close>, or before the deferred \<open>Unlock\<close>.\<close>

datatype 'k place =
    Outside
  | Waiting mcall
  | Entered mcall
  | Creating EKSClusterRegistry
  | Syncing EKSClusterRegistry "'k ClusterConnection"
  | Leaving mcall "'k reply"

text \<open>\<open>AddOrUpdateCluster\<close> from the client on to the wait for the informer.\<close>

definition keep_connection ::
  "('w, 'k) cluster_env \<Rightarrow> 'w \<Rightarrow> EKSClusterRegistry \<Rightarrow> 'k \<Rightarrow> 'k Manager \<Rightarrow> 'k place \<times> 'k Manager" where
  "keep_connection env w cluster k8sClient m =
     (let conn = \<lparr>conn_Cluster = cluster, K8sClient = k8sClient,
                  PodInformer = createPodInformer k8sClient (ec_Name cluster),
                  StopCh = made m, LastConnected = aws_Now (cl_aws env) w\<rparr>
      in (Syncing cluster conn,
          m\<lparr>made := Suc (made m), clusters := AList.update (ec_Name cluster) conn (clusters m)\<rparr>))"

text \<open>The rest of it when the client was not cached and AWS has answered.\<close>

definition client_created ::
  "('w, 'k) cluster_env \<Rightarrow> 'w \<Rightarrow> EKSClusterRegistry \<Rightarrow> 'k Manager \<Rightarrow> ('k place \<times> 'k Manager) option" where
  "client_created env w cluster m = do {
     r \<leftarrow> createClusterClient (cl_aws env) w cluster;
     Some (case r of
       Inl err \<Rightarrow> (Leaving (AddOrUpdate cluster) (Answer (Some (Wrap ''failed to create cluster connection'' err))), m)
     | Inr client \<Rightarrow>
         keep_connection env w cluster client
           (m\<lparr>awsClients := AList.update (ec_Name cluster) \<lparr>Interface = client, lastUsed = aws_Now (cl_aws env) w\<rparr> (awsClients m)\<rparr>)) }"

text \<open>From \<open>if !cluster.Spec.Enabled\<close> on, to the cached client or the call of AWS.\<close>

definition begin_connect ::
  "('w, 'k) cluster_env \<Rightarrow> 'w \<Rightarrow> EKSClusterRegistry \<Rightarrow> 'k Manager \<Rightarrow> 'k place \<times> 'k Manager" where
  "begin_connect env w cluster m =
     (if \<not> Enabled (ec_Spec cluster) then (Leaving (AddOrUpdate cluster) (Answer None), m)
      else case map_of (awsClients m) (ec_Name cluster) of
        Some client \<Rightarrow>
          keep_connection env w cluster (Interface client)
            (m\<lparr>awsClients := AList.update (ec_Name cluster) (client\<lparr>lastUsed := aws_Now (cl_aws env) w\<rparr>) (awsClients m)\<rparr>)
      | None \<Rightarrow> (Creating cluster, m))"

definition enter_add ::
  "('w, 'k) cluster_env \<Rightarrow> 'w \<Rightarrow> EKSClusterRegistry \<Rightarrow> 'k Manager \<Rightarrow> ('k place \<times> 'k Manager) option" where
  "enter_add env w cluster m =
     (case map_of (clusters m) (ec_Name cluster) of
        Some existing \<Rightarrow>
          if same_connection (conn_Cluster existing) cluster
          then Some (Leaving (AddOrUpdate cluster) (Answer None),
            m\<lparr>clusters := AList.update (ec_Name cluster) (existing\<lparr>conn_Cluster := cluster\<rparr>) (clusters m)\<rparr>)
          else do {
            m \<leftarrow> stopClusterConnection existing m;
            Some (begin_connect env w cluster (m\<lparr>clusters := AList.delete (ec_Name cluster) (clusters m)\<rparr>)) }
      | None \<Rightarrow> Some (begin_connect env w cluster m))"

type_synonym 'k order = "(string \<times> 'k ClusterConnection) list \<Rightarrow> (string \<times> 'k ClusterConnection) list"

text \<open>What a goroutine does once it has the lock, up to the next place where it stops.\<close>

definition enter ::
  "('w, 'k) cluster_env \<Rightarrow> 'k order \<Rightarrow> 'w \<Rightarrow> mcall \<Rightarrow> 'k Manager \<Rightarrow> ('k place \<times> 'k Manager) option" where
  "enter env it w c m = (case c of
     AddOrUpdate cluster \<Rightarrow> enter_add env w cluster m
   | Remove n \<Rightarrow> map_option (\<lambda>m. (Leaving c Returned, m)) (RemoveCluster n m)
   | SetReconciler \<Rightarrow> Some (Leaving c Returned, SetPodReconciler m)
   | StopAll \<Rightarrow> map_option (\<lambda>m. (Leaving c Returned, m)) (Shutdown it m)
   | Lookup n \<Rightarrow> Some (Leaving c (Found (GetClusterConnection n m)), m)
   | LookupAll \<Rightarrow> Some (Leaving c (FoundAll (GetAllConnections it m)), m)
   | LookupConnected n \<Rightarrow> Some (Leaving c (FoundConnected (IsConnected n m)), m))"

subsection \<open>The steps\<close>

text \<open>The lock is the goroutine that has it exclusively and those that share it. \<open>calls\<close> notes the calls
  whose body is done, in this order.\<close>

record ('k, 'w, 't) lock_state =
  mgr :: "'k Manager"
  world :: 'w
  place :: "'t \<Rightarrow> 'k place"
  writer :: "'t option"
  readers :: "'t set"
  panicked :: bool
  done_calls :: "('t \<times> mcall \<times> 'k reply) list"

definition goto :: "'t \<Rightarrow> 'k place \<times> 'k Manager \<Rightarrow> ('k, 'w, 't) lock_state \<Rightarrow> ('k, 'w, 't) lock_state" where
  "goto t pm s = s\<lparr>mgr := snd pm, place := (place s)(t := fst pm),
     done_calls := done_calls s @ (case fst pm of Leaving c r \<Rightarrow> [(t, c, r)] | _ \<Rightarrow> [])\<rparr>"

definition sync_answer :: "bool \<Rightarrow> go_error option" where
  "sync_answer synced = (if synced then None else Some (Errs ''failed to sync pod cache''))"

text \<open>
  \<open>moves\<close> is how the world may move by itself. The wait for an informer ends when the informer answers,
  or when its stop channel is closed.
\<close>

inductive mstep ::
  "('w, 'k) cluster_env \<Rightarrow> 'k order \<Rightarrow> ('w \<Rightarrow> 'w \<Rightarrow> bool) \<Rightarrow>
   ('k, 'w, 't) lock_state \<Rightarrow> ('k, 'w, 't) lock_state \<Rightarrow> bool"
  for env it moves where
  call: "place s t = Outside \<Longrightarrow> mstep env it moves s (s\<lparr>place := (place s)(t := Waiting c)\<rparr>)"
| lock: "place s t = Waiting c \<Longrightarrow> exclusive c \<Longrightarrow> writer s = None \<Longrightarrow> readers s = {} \<Longrightarrow>
    mstep env it moves s (s\<lparr>writer := Some t, place := (place s)(t := Entered c)\<rparr>)"
| rlock: "place s t = Waiting c \<Longrightarrow> \<not> exclusive c \<Longrightarrow> writer s = None \<Longrightarrow>
    mstep env it moves s (s\<lparr>readers := insert t (readers s), place := (place s)(t := Entered c)\<rparr>)"
| body: "place s t = Entered c \<Longrightarrow> enter env it (world s) c (mgr s) = Some pm \<Longrightarrow> mstep env it moves s (goto t pm s)"
| body_panics: "place s t = Entered c \<Longrightarrow> enter env it (world s) c (mgr s) = None \<Longrightarrow>
    mstep env it moves s (s\<lparr>panicked := True\<rparr>)"
| created: "place s t = Creating cluster \<Longrightarrow> client_created env (world s) cluster (mgr s) = Some pm \<Longrightarrow>
    mstep env it moves s (goto t pm s)"
| create_panics: "place s t = Creating cluster \<Longrightarrow> client_created env (world s) cluster (mgr s) = None \<Longrightarrow>
    mstep env it moves s (s\<lparr>panicked := True\<rparr>)"
| synced: "place s t = Syncing cluster conn \<Longrightarrow> WaitForCacheSync env (world s) (PodInformer conn) = Some (b, w) \<Longrightarrow>
    mstep env it moves s (goto t (Leaving (AddOrUpdate cluster) (Answer (sync_answer b)), mgr s) (s\<lparr>world := w\<rparr>))"
| stopped: "place s t = Syncing cluster conn \<Longrightarrow> StopCh conn \<in> set (closedChs (mgr s)) \<Longrightarrow>
    mstep env it moves s (goto t (Leaving (AddOrUpdate cluster) (Answer (sync_answer False)), mgr s) s)"
| unlock: "place s t = Leaving c r \<Longrightarrow>
    mstep env it moves s (s\<lparr>place := (place s)(t := Outside), writer := (if exclusive c then None else writer s),
      readers := (if exclusive c then readers s else readers s - {t})\<rparr>)"
| cleanup: "mstep env it moves s (s\<lparr>mgr := cleanup_tick (aws_Now (cl_aws env) (world s)) (mgr s)\<rparr>)"
| move: "moves (world s) w \<Longrightarrow> mstep env it moves s (s\<lparr>world := w\<rparr>)"

definition at_rest :: "'k Manager \<Rightarrow> 'w \<Rightarrow> ('k, 'w, 't) lock_state" where
  "at_rest m w = \<lparr>mgr = m, world = w, place = (\<lambda>t. Outside), writer = None, readers = {}, panicked = False, done_calls = []\<rparr>"

subsection \<open>The operations one after the other\<close>

text \<open>A call as one step of its own. The answer of the informer, which depends on the world during the wait,
  is left open: it only decides on the error that is returned.\<close>

definition answering :: "('w, 'k) cluster_env \<Rightarrow> bool \<Rightarrow> ('w, 'k) cluster_env" where
  "answering env b = env\<lparr>WaitForCacheSync := (\<lambda>w i. Some (b, w))\<rparr>"

definition atomic_call ::
  "('w, 'k) cluster_env \<Rightarrow> 'k order \<Rightarrow> mcall \<Rightarrow> 'k reply \<Rightarrow> 'k Manager \<Rightarrow> 'k Manager \<Rightarrow> bool" where
  "atomic_call env it c r m m' = (case c of
     AddOrUpdate cluster \<Rightarrow>
       \<exists>w b err. AddOrUpdateCluster (answering env b) cluster m w = Some (err, m', w) \<and> r = Answer err
   | Remove n \<Rightarrow> RemoveCluster n m = Some m' \<and> r = Returned
   | SetReconciler \<Rightarrow> m' = SetPodReconciler m \<and> r = Returned
   | StopAll \<Rightarrow> Shutdown it m = Some m' \<and> r = Returned
   | Lookup n \<Rightarrow> m' = m \<and> r = Found (GetClusterConnection n m)
   | LookupAll \<Rightarrow> m' = m \<and> r = FoundAll (GetAllConnections it m)
   | LookupConnected n \<Rightarrow> m' = m \<and> r = FoundConnected (IsConnected n m))"

inductive serial ::
  "('w, 'k) cluster_env \<Rightarrow> 'k order \<Rightarrow> 'k Manager \<Rightarrow> ('t \<times> mcall \<times> 'k reply) list \<Rightarrow> 'k Manager \<Rightarrow> bool"
  for env it m\<^sub>0 where
  start: "serial env it m\<^sub>0 [] m\<^sub>0"
| next_call: "serial env it m\<^sub>0 cs m \<Longrightarrow> atomic_call env it c r m m' \<Longrightarrow> serial env it m\<^sub>0 (cs @ [(t, c, r)]) m'"
| tick: "serial env it m\<^sub>0 cs m \<Longrightarrow> serial env it m\<^sub>0 cs (cleanup_tick now m)"

subsection \<open>A call in pieces is the call in one step\<close>

text \<open>What a call of \<open>AddOrUpdateCluster\<close> that got this far will return, if the informer answers \<open>b\<close>.\<close>

fun outcome :: "bool \<Rightarrow> 'k place \<Rightarrow> go_error option" where
  "outcome b (Leaving _ (Answer err)) = err"
| "outcome b _ = sync_answer b"

lemma keep_connection_place [simp]: "fst (keep_connection env w cluster k m) \<noteq> Creating c"
  by (simp add: keep_connection_def Let_def)

lemma begin_connect_creating:
  "begin_connect env w cluster m = (Creating c, m') \<longleftrightarrow>
     c = cluster \<and> m' = m \<and> Enabled (ec_Spec cluster) \<and> map_of (awsClients m) (ec_Name cluster) = None"
  by (auto simp: begin_connect_def keep_connection_def Let_def split: option.splits)

lemma connect_now:
  assumes "begin_connect env w cluster m = (p, m')" and "p \<noteq> Creating cluster"
  shows "connectCluster (answering env b) cluster m w = Some (outcome b p, m', w)"
  using assms
  by (auto simp: begin_connect_def keep_connection_def connectCluster_def createClusterConnection_def createK8sClient_def
      GetClusterClient_def answering_def sync_answer_def Let_def split: option.splits if_splits)

lemma connect_created:
  assumes "map_of (awsClients m) (ec_Name cluster) = None" and "Enabled (ec_Spec cluster)"
    and "client_created env w cluster m = Some (p, m')"
  shows "connectCluster (answering env b) cluster m w = Some (outcome b p, m', w)"
  using assms
  by (auto simp: client_created_def keep_connection_def connectCluster_def createClusterConnection_def createK8sClient_def
      GetClusterClient_def answering_def sync_answer_def Let_def split: bind_splits sum.splits)

lemma add_now:
  assumes "enter_add env w cluster m = Some (p, m')" and "p \<noteq> Creating cluster"
  shows "AddOrUpdateCluster (answering env b) cluster m w = Some (outcome b p, m', w)"
  using assms
  by (auto simp: enter_add_def AddOrUpdateCluster_def connect_now split: option.splits if_splits bind_splits)

lemma add_created:
  assumes "enter_add env w0 cluster g = Some (Creating cluster, m)" and "client_created env w cluster m = Some (p, m')"
  shows "AddOrUpdateCluster (answering env b) cluster g w = Some (outcome b p, m', w)"
  using assms
  by (auto simp: enter_add_def AddOrUpdateCluster_def begin_connect_creating connect_created split: option.splits if_splits bind_splits)

text \<open>The cleanup of the client cache may come before or after what is in between.\<close>

lemma cleanup_simps [simp]:
  "clusters (cleanup_tick now m) = clusters m" "made (cleanup_tick now m) = made m" "closedChs (cleanup_tick now m) = closedChs m"
  "clusters (fold cleanup_tick ts m) = clusters m" "closedChs (fold cleanup_tick ts m) = closedChs m"
  by (simp_all add: cleanup_tick_def) (induction ts arbitrary: m; simp add: cleanup_tick_def)+

lemma cleanup_uncached:
  "map_of clients n = None \<Longrightarrow> map_of (CleanupStaleClients now clients) n = None"
  by (auto simp: CleanupStaleClients_def Let_def map_of_eq_None_iff)

lemma enter_add_cleanup:
  assumes "enter_add env w cluster g = Some (Creating cluster, m)"
  shows "enter_add env w cluster (cleanup_tick now g) = Some (Creating cluster, cleanup_tick now m)"
  using assms
  by (auto simp: enter_add_def begin_connect_creating cleanup_uncached stopClusterConnection_def cleanup_tick_def
      split: option.splits if_splits)

lemma enter_add_creating:
  assumes "enter_add env w cluster g = Some (Creating c, m)" and "wf_manager g"
  shows "c = cluster" "wf_manager m" "map_of (clusters m) (ec_Name cluster) = None"
proof -
  show "c = cluster" using assms(1)
    by (auto simp: enter_add_def begin_connect_creating split: option.splits if_splits bind_splits)
  show "wf_manager m" "map_of (clusters m) (ec_Name cluster) = None" using assms wf_manager_shrink [OF assms(2)]
    by (auto simp: enter_add_def begin_connect_creating stopClusterConnection_wf [OF assms(2)] map_of_delete
        split: option.splits if_splits)
qed

lemma keep_connection_kept:
  "keep_connection env w cluster k m = (Syncing c conn, m') \<Longrightarrow>
     c = cluster \<and> map_of (clusters m') (ec_Name cluster) = Some conn"
  by (auto simp: keep_connection_def Let_def map_of_update)

lemma enter_add_syncing:
  "enter_add env w cluster g = Some (Syncing c conn, m) \<Longrightarrow> c = cluster \<and> map_of (clusters m) (ec_Name cluster) = Some conn"
  by (auto simp: enter_add_def begin_connect_def split: option.splits if_splits bind_splits dest: keep_connection_kept)

lemma client_created_syncing:
  "client_created env w cluster g = Some (Syncing c conn, m) \<Longrightarrow> c = cluster \<and> map_of (clusters m) (ec_Name cluster) = Some conn"
  by (auto simp: client_created_def split: sum.splits bind_splits dest: keep_connection_kept)

lemma enter_place:
  assumes "enter env it w c m = Some (p, m')"
  shows "(\<exists>r. p = Leaving c r) \<or> (\<exists>cluster. c = AddOrUpdate cluster \<and> (p = Creating cluster \<or> (\<exists>conn. p = Syncing cluster conn)))"
  using assms
  by (auto simp: enter_def enter_add_def begin_connect_def keep_connection_def Let_def split: mcall.splits option.splits if_splits bind_splits)

lemma client_created_place:
  assumes "client_created env w cluster m = Some (p, m')"
  shows "(\<exists>err. p = Leaving (AddOrUpdate cluster) (Answer err)) \<or> (\<exists>conn. p = Syncing cluster conn)"
  using assms by (auto simp: client_created_def keep_connection_def Let_def split: sum.splits bind_splits)

lemma enter_atomic:
  assumes "enter env it w c m = Some (Leaving c r, m')"
  shows "atomic_call env it c r m m'"
proof (cases c)
  case (AddOrUpdate cluster)
  then have e: "enter_add env w cluster m = Some (Leaving c r, m')" using assms by (simp add: enter_def)
  have "\<exists>err. r = Answer err" using e AddOrUpdate
    by (auto simp: enter_add_def begin_connect_def keep_connection_def Let_def split: option.splits if_splits bind_splits)
  then show ?thesis using add_now [OF e] AddOrUpdate unfolding atomic_call_def by fastforce
qed (use assms in \<open>auto simp: enter_def atomic_call_def\<close>)

subsection \<open>The invariant\<close>

lemma atomic_call_wf:
  assumes "atomic_call env it c r m m'" and "wf_manager m" and "visits it"
  shows "wf_manager m'"
proof (cases c)
  case (AddOrUpdate cluster)
  then show ?thesis using assms(1) AddOrUpdateCluster_shape [OF _ assms(2)] by (fastforce simp: atomic_call_def)
next
  case (Remove n)
  then show ?thesis using assms(1) RemoveCluster_shape [OF assms(2), of n] by (auto simp: atomic_call_def)
next
  case StopAll
  then show ?thesis using assms(1) Shutdown_run [OF assms(2,3)] by (auto simp: atomic_call_def)
qed (use assms in \<open>auto simp: atomic_call_def SetPodReconciler_def wf_manager_def\<close>)

lemma cleanup_wf: "wf_manager m \<Longrightarrow> wf_manager (cleanup_tick now m)"
  unfolding cleanup_tick_def by (intro wf_manager_clients CleanupStaleClients_wf) (simp_all add: wf_manager_def)

lemma serial_wf:
  assumes "serial env it m\<^sub>0 cs m" and "wf_manager m\<^sub>0" and "visits it"
  shows "wf_manager m"
  using assms(1) by induction (auto intro: atomic_call_wf cleanup_wf assms(2,3))

lemma serial_ticks: "serial env it m\<^sub>0 cs m \<Longrightarrow> serial env it m\<^sub>0 cs (fold cleanup_tick ts m)"
  by (induction ts arbitrary: m) (auto intro: serial.tick)

fun has_lock :: "'k place \<Rightarrow> bool" where
  "has_lock (Entered c) = exclusive c"
| "has_lock (Leaving c _) = exclusive c"
| "has_lock (Creating _) = True"
| "has_lock (Syncing _ _) = True"
| "has_lock _ = False"

fun has_rlock :: "'k place \<Rightarrow> bool" where
  "has_rlock (Entered c) = (\<not> exclusive c)"
| "has_rlock (Leaving c _) = (\<not> exclusive c)"
| "has_rlock _ = False"

definition lock_inv :: "('k, 'w, 't) lock_state \<Rightarrow> bool" where
  "lock_inv s \<longleftrightarrow> (\<forall>t. has_lock (place s t) \<longleftrightarrow> writer s = Some t) \<and> (\<forall>t. has_rlock (place s t) \<longleftrightarrow> t \<in> readers s) \<and>
     (writer s \<noteq> None \<longrightarrow> readers s = {}) \<and> finite (readers s)"

lemma goto_simps [simp]:
  "mgr (goto t pm s) = snd pm" "world (goto t pm s) = world s" "place (goto t pm s) = (place s)(t := fst pm)"
  "writer (goto t pm s) = writer s" "readers (goto t pm s) = readers s" "panicked (goto t pm s) = panicked s"
  "done_calls (goto t pm s) = done_calls s @ (case fst pm of Leaving c r \<Rightarrow> [(t, c, r)] | _ \<Rightarrow> [])"
  by (simp_all add: goto_def)

lemma lock_inv_goto:
  assumes "lock_inv s" and "has_lock (fst pm) = has_lock (place s t)" and "has_rlock (fst pm) = has_rlock (place s t)"
  shows "lock_inv (goto t pm s)"
  using assms by (auto simp: lock_inv_def)

lemma lock_inv_outside:
  "lock_inv s \<Longrightarrow> \<not> has_lock (place s t) \<Longrightarrow> writer s \<noteq> Some t"
  "lock_inv s \<Longrightarrow> \<not> has_rlock (place s t) \<Longrightarrow> t \<notin> readers s"
  by (auto simp: lock_inv_def)

lemma lock_inv_step:
  assumes "mstep env it moves s s'" and "lock_inv s"
  shows "lock_inv s'"
  using assms
proof cases
  case (call t c)
  then show ?thesis using assms(2) lock_inv_outside [OF assms(2), of t] by (auto simp: lock_inv_def)
next
  case (body t c pm)
  then show ?thesis using enter_place [of env it "world s" c "mgr s" "fst pm" "snd pm"] assms(2) by (auto intro!: lock_inv_goto)
next
  case (created t cluster pm)
  then show ?thesis using client_created_place [of env "world s" cluster "mgr s" "fst pm" "snd pm"] assms(2) by (auto intro!: lock_inv_goto)
next
  case (synced t cluster conn b w)
  have "lock_inv (s\<lparr>world := w\<rparr>)" using assms(2) by (simp add: lock_inv_def)
  then show ?thesis using synced by (auto intro!: lock_inv_goto)
next
  case (stopped t cluster conn)
  then show ?thesis using assms(2) by (auto intro!: lock_inv_goto)
next
  case (unlock t c r)
  then have "exclusive c \<longleftrightarrow> writer s = Some t" "\<not> exclusive c \<longleftrightarrow> t \<in> readers s"
    using assms(2) unfolding lock_inv_def by (metis has_lock.simps(2), metis has_rlock.simps(2))
  then show ?thesis using unlock assms(2) by (auto simp: lock_inv_def)
qed (auto simp: lock_inv_def)

text \<open>
  \<open>g\<close> is the manager after the calls that are done, with the cleanups in between. It is the manager
  of the state, unless a call of \<open>AddOrUpdateCluster\<close> is in the middle.
\<close>

definition sim :: "('w, 'k) cluster_env \<Rightarrow> ('k, 'w, 't) lock_state \<Rightarrow> 'k Manager \<Rightarrow> bool" where
  "sim env s g \<longleftrightarrow> (case map_option (place s) (writer s) of
     Some (Creating c) \<Rightarrow> \<exists>w. enter_add env w c g = Some (Creating c, mgr s)
   | Some (Syncing c conn) \<Rightarrow> map_of (clusters (mgr s)) (ec_Name c) = Some conn \<and>
       (\<exists>w g' ts. (\<forall>b. AddOrUpdateCluster (answering env b) c g w = Some (sync_answer b, g', w)) \<and> mgr s = fold cleanup_tick ts g')
   | _ \<Rightarrow> mgr s = g)"

definition serialized :: "('w, 'k) cluster_env \<Rightarrow> 'k order \<Rightarrow> 'k Manager \<Rightarrow> ('k, 'w, 't) lock_state \<Rightarrow> bool" where
  "serialized env it m\<^sub>0 s \<longleftrightarrow> lock_inv s \<and> \<not> panicked s \<and> (\<exists>g. serial env it m\<^sub>0 (done_calls s) g \<and> sim env s g)"

lemma serialized_writer:
  "lock_inv s \<Longrightarrow> place s t = Creating c \<Longrightarrow> writer s = Some t"
  "lock_inv s \<Longrightarrow> place s t = Syncing c conn \<Longrightarrow> writer s = Some t"
  "lock_inv s \<Longrightarrow> place s t = Entered c' \<Longrightarrow> exclusive c' \<Longrightarrow> writer s = Some t"
  "lock_inv s \<Longrightarrow> place s t = Entered c' \<Longrightarrow> \<not> exclusive c' \<Longrightarrow> writer s = None"
  unfolding lock_inv_def
  by (metis has_lock.simps(3), metis has_lock.simps(4), metis has_lock.simps(1), metis has_rlock.simps(1) empty_iff)

lemma sim_elsewhere: "sim env s g \<Longrightarrow> writer s' = writer s \<Longrightarrow> mgr s' = mgr s \<Longrightarrow>
    (\<And>t. writer s = Some t \<Longrightarrow> place s' t = place s t) \<Longrightarrow> sim env s' g"
  by (cases "writer s"; cases "place s (the (writer s))") (simp_all add: sim_def)

lemma sim_settled:
  assumes "sim env s g" and "\<And>t c conn. writer s = Some t \<Longrightarrow> place s t \<noteq> Creating c \<and> place s t \<noteq> Syncing c conn"
  shows "mgr s = g"
  using assms by (cases "writer s") (auto simp: sim_def split: place.splits)

lemma sim_wf:
  assumes "sim env s g" and "wf_manager g"
  shows "wf_manager (mgr s)"
proof (cases "map_option (place s) (writer s)")
  case (Some p)
  have "wf_manager (fold cleanup_tick ts m)" if "wf_manager m" for ts and m :: "'k Manager"
    using that by (induction ts arbitrary: m) (auto intro: cleanup_wf)
  note ticks = this
  show ?thesis
  proof (cases p)
    case (Creating c)
    then show ?thesis using assms(1) Some enter_add_creating(2) [OF _ assms(2)] by (auto simp: sim_def)
  next
    case (Syncing c conn)
    then obtain w g' ts where g': "AddOrUpdateCluster (answering env True) c g w = Some (sync_answer True, g', w)"
      "mgr s = fold cleanup_tick ts g'" using assms(1) Some by (auto simp: sim_def)
    show ?thesis unfolding g'(2) using AddOrUpdateCluster_shape [OF g'(1) assms(2)] by (intro ticks) blast
  qed (use assms Some in \<open>auto simp: sim_def\<close>)
qed (use assms in \<open>auto simp: sim_def\<close>)

text \<open>A body has run up to the next stop.\<close>

lemma serialized_body:
  assumes ok: "serialized env it m\<^sub>0 s" and p: "place s t = Entered c" and e: "enter env it (world s) c (mgr s) = Some pm"
  shows "\<exists>g. serial env it m\<^sub>0 (done_calls (goto t pm s)) g \<and> sim env (goto t pm s) g"
proof -
  obtain g where g: "lock_inv s" "serial env it m\<^sub>0 (done_calls s) g" "sim env s g" using ok by (auto simp: serialized_def)
  have "u = t" if "writer s = Some u" for u
    using that serialized_writer(3,4) [OF g(1) p] by (cases "exclusive c") simp_all
  then have m: "mgr s = g" using p by (intro sim_settled [OF g(3)]) auto
  obtain q m' where pm: "pm = (q, m')" by (cases pm)
  note e = e [unfolded pm m]
  consider r where "q = Leaving c r" | cl where "c = AddOrUpdate cl" "q = Creating cl"
    | cl conn where "c = AddOrUpdate cl" "q = Syncing cl conn" using enter_place [OF e] by blast
  then show ?thesis
  proof cases
    case 1
    then have "serial env it m\<^sub>0 (done_calls (goto t pm s)) m'" using g(2) e pm enter_atomic [of env it "world s" c g r m'] by (auto intro: serial.next_call)
    moreover have "sim env (goto t pm s) m'"
      using 1 pm g(1) p serialized_writer(3,4) [OF g(1) p]
      by (cases "exclusive c") (auto simp: sim_def)
    ultimately show ?thesis by blast
  next
    case 2
    then show ?thesis using g e pm serialized_writer(3) [OF g(1) p] by (auto simp: sim_def enter_def)
  next
    case 3
    then have a: "enter_add env (world s) cl g = Some (Syncing cl conn, m')" using e by (simp add: enter_def)
    have "sim env (goto t pm s) g" unfolding sim_def using 3 pm serialized_writer(3) [OF g(1) p] enter_add_syncing [OF a] add_now [OF a]
      by (auto intro!: exI [of _ "world s"] exI [of _ m'] exI [of _ "[]"])
    then show ?thesis using g(2) 3 pm by auto
  qed
qed

lemma serialized_created:
  assumes ok: "serialized env it m\<^sub>0 s" and p: "place s t = Creating c" and e: "client_created env (world s) c (mgr s) = Some pm"
  shows "\<exists>g. serial env it m\<^sub>0 (done_calls (goto t pm s)) g \<and> sim env (goto t pm s) g"
proof -
  obtain g where g: "lock_inv s" "serial env it m\<^sub>0 (done_calls s) g" "sim env s g" using ok by (auto simp: serialized_def)
  note w = serialized_writer(1) [OF g(1) p]
  obtain w0 where w0: "enter_add env w0 c g = Some (Creating c, mgr s)" using g(3) w p by (auto simp: sim_def)
  obtain q m' where pm: "pm = (q, m')" by (cases pm)
  note e = e [unfolded pm]
  note at = add_created [OF w0 e]
  consider err where "q = Leaving (AddOrUpdate c) (Answer err)" | conn where "q = Syncing c conn"
    using client_created_place [OF e] by blast
  then show ?thesis
  proof cases
    case 1
    then have "atomic_call env it (AddOrUpdate c) (Answer err) g m'" using at by (auto simp: atomic_call_def)
    then have "serial env it m\<^sub>0 (done_calls (goto t pm s)) m'" using 1 pm g(2) by (auto intro: serial.next_call)
    moreover have "sim env (goto t pm s) m'" using 1 pm w by (simp add: sim_def)
    ultimately show ?thesis by blast
  next
    case 2
    have "sim env (goto t pm s) g" unfolding sim_def using 2 pm w client_created_syncing [OF e [unfolded 2]] at
      by (auto intro!: exI [of _ "world s"] exI [of _ m'] exI [of _ "[]"])
    then show ?thesis using g(2) 2 pm by auto
  qed
qed

lemma serialized_synced:
  assumes ok: "serialized env it m\<^sub>0 s" and p: "place s t = Syncing c conn"
    and eq: "done_calls s' = done_calls s" "writer s' = writer s"
  shows "\<exists>g. serial env it m\<^sub>0 (done_calls (goto t (Leaving (AddOrUpdate c) (Answer (sync_answer b)), mgr s) s')) g \<and>
    sim env (goto t (Leaving (AddOrUpdate c) (Answer (sync_answer b)), mgr s) s') g"
proof -
  obtain g where g: "lock_inv s" "serial env it m\<^sub>0 (done_calls s) g" "sim env s g" using ok by (auto simp: serialized_def)
  note w = serialized_writer(2) [OF g(1) p]
  obtain v g' ts where v: "\<forall>b. AddOrUpdateCluster (answering env b) c g v = Some (sync_answer b, g', v)" "mgr s = fold cleanup_tick ts g'"
    using g(3) w p by (auto simp: sim_def)
  have "atomic_call env it (AddOrUpdate c) (Answer (sync_answer b)) g g'" using v(1) by (auto simp: atomic_call_def)
  then have "serial env it m\<^sub>0 (done_calls s @ [(t, AddOrUpdate c, Answer (sync_answer b))]) (mgr s)"
    unfolding v(2) using g(2) by (intro serial_ticks serial.next_call)
  then show ?thesis using w by (intro exI [of _ "mgr s"]) (simp add: sim_def eq)
qed

lemma enter_total:
  assumes "wf_manager m" and "visits it"
  shows "enter env it w c m \<noteq> None"
proof (cases c)
  case (AddOrUpdate cluster)
  then show ?thesis using stopClusterConnection_wf [OF assms(1)]
    by (auto simp: enter_def enter_add_def split: option.splits if_splits)
next
  case (Remove n)
  then show ?thesis using RemoveCluster_shape [OF assms(1), of n] by (auto simp: enter_def)
next
  case StopAll
  then show ?thesis using Shutdown_run [OF assms] by (auto simp: enter_def)
qed (simp_all add: enter_def)

lemma serialized_cleanup:
  assumes "serial env it m\<^sub>0 cs g" and "sim env s g"
  shows "\<exists>g. serial env it m\<^sub>0 cs g \<and> sim env (s\<lparr>mgr := cleanup_tick now (mgr s)\<rparr>) g"
proof (cases "\<exists>c conn. map_option (place s) (writer s) = Some (Syncing c conn)")
  case True
  then obtain c conn where p: "map_option (place s) (writer s) = Some (Syncing c conn)" by blast
  then obtain w g' ts where "map_of (clusters (mgr s)) (ec_Name c) = Some conn"
    "\<forall>b. AddOrUpdateCluster (answering env b) c g w = Some (sync_answer b, g', w)" "mgr s = fold cleanup_tick ts g'"
    using assms(2) by (auto simp: sim_def)
  then have "sim env (s\<lparr>mgr := cleanup_tick now (mgr s)\<rparr>) g" unfolding sim_def using p
    by (auto intro!: exI [of _ w] exI [of _ g'] exI [of _ "ts @ [now]"])
  then show ?thesis using assms(1) by blast
next
  case False
  then have "sim env (s\<lparr>mgr := cleanup_tick now (mgr s)\<rparr>) (cleanup_tick now g)"
    using assms(2) by (cases "writer s"; cases "place s (the (writer s))") (auto simp: sim_def dest: enter_add_cleanup)
  then show ?thesis using serial.tick [OF assms(1)] by blast
qed

definition clients_made :: "('w, 'k) cluster_env \<Rightarrow> bool" where
  "clients_made env \<longleftrightarrow> (\<forall>w cluster. createClusterClient (cl_aws env) w cluster \<noteq> None)"

lemma client_created_total:
  assumes "clients_made env"
  obtains p m' where "client_created env w cluster m = Some (p, m')"
proof -
  obtain r where "createClusterClient (cl_aws env) w cluster = Some r"
    using assms unfolding clients_made_def by blast
  then have "client_created env w cluster m \<noteq> None" by (simp add: client_created_def)
  then show thesis using that by auto
qed

lemma serialized_step:
  assumes st: "mstep env it moves s s'" and ok: "serialized env it m\<^sub>0 s"
    and env: "wf_manager m\<^sub>0" "visits it" "clients_made env"
  shows "serialized env it m\<^sub>0 s'"
proof -
  obtain g where g: "lock_inv s" "\<not> panicked s" "serial env it m\<^sub>0 (done_calls s) g" "sim env s g"
    using ok by (auto simp: serialized_def)
  have wf: "wf_manager (mgr s)" by (rule sim_wf [OF g(4) serial_wf [OF g(3) env(1,2)]])
  have "\<not> panicked s' \<and> (\<exists>g. serial env it m\<^sub>0 (done_calls s') g \<and> sim env s' g)" using st
  proof cases
    case (call t c)
    have "sim env s' g" by (rule sim_elsewhere [OF g(4)]) (use call lock_inv_outside(1) [OF g(1), of t] in auto)
    then show ?thesis using call g by auto
  next
    case (lock t c)
    then show ?thesis using g by (intro conjI exI [of _ g]) (simp_all add: sim_def)
  next
    case (rlock t c)
    then show ?thesis using g by (intro conjI exI [of _ g]) (simp_all add: sim_def)
  next
    case (body t c pm)
    then show ?thesis using serialized_body [OF ok body(2,3)] g(2) by simp
  next
    case (body_panics t c)
    then show ?thesis using enter_total [OF wf env(2), of env "world s" c] by simp
  next
    case (created t cluster pm)
    then show ?thesis using serialized_created [OF ok created(2,3)] g(2) by simp
  next
    case (create_panics t cluster)
    then show ?thesis using client_created_total [OF env(3), of "world s" cluster "mgr s"] by simp
  next
    case (synced t cluster conn b w)
    then show ?thesis using serialized_synced [OF ok synced(2), of "s\<lparr>world := w\<rparr>" b] g(2) by simp
  next
    case (stopped t cluster conn)
    then show ?thesis using serialized_synced [OF ok stopped(2), of s False] g(2) by simp
  next
    case (unlock t c r)
    show ?thesis
    proof (cases "exclusive c")
      case True
      then have "writer s = Some t" using unlock(2) g(1) by (metis has_lock.simps(2) lock_inv_def)
      then show ?thesis using unlock True g by (intro conjI exI [of _ g]) (simp_all add: sim_def)
    next
      case False
      then have "sim env s' g" by (intro sim_elsewhere [OF g(4)]) (use unlock lock_inv_outside(1) [OF g(1), of t] in auto)
      then show ?thesis using unlock g by auto
    qed
  next
    case cleanup
    then show ?thesis using serialized_cleanup [OF g(3,4)] g(2) by simp
  next
    case (move w)
    have "sim env s' g" by (rule sim_elsewhere [OF g(4)]) (use move in auto)
    then show ?thesis using move g by auto
  qed
  then show ?thesis using lock_inv_step [OF st g(1)] by (auto simp: serialized_def)
qed

lemma serialized_run:
  assumes "(mstep env it moves)\<^sup>*\<^sup>* (at_rest m\<^sub>0 w) s" and "wf_manager m\<^sub>0" "visits it" "clients_made env"
  shows "serialized env it m\<^sub>0 s"
  using assms(1)
proof induction
  case base
  show ?case by (auto simp: serialized_def at_rest_def lock_inv_def sim_def intro: serial.start)
next
  case (step s s')
  then show ?case using serialized_step [OF step(2) step.IH assms(2-4)] by blast
qed

subsection \<open>Progress\<close>

text \<open>While informers answer, whoever has the lock gets to its end and gives it back.\<close>

definition informers_answer :: "('w, 'k) cluster_env \<Rightarrow> bool" where
  "informers_answer env \<longleftrightarrow> (\<forall>w i. WaitForCacheSync env w i \<noteq> None)"

lemma run_trans1: "mstep env it moves s s1 \<Longrightarrow> (mstep env it moves)\<^sup>*\<^sup>* s1 s2 \<Longrightarrow> (mstep env it moves)\<^sup>*\<^sup>* s s2"
  by (rule converse_rtranclp_into_rtranclp)

lemma serialized_wf:
  assumes "serialized env it m\<^sub>0 s" and "wf_manager m\<^sub>0" "visits it"
  shows "wf_manager (mgr s)"
  using assms sim_wf serial_wf unfolding serialized_def by blast

text \<open>The goroutine runs on alone and is outside in the end; the others stay where they are.\<close>

definition leaves where
  "leaves env it moves t s s' \<longleftrightarrow> (mstep env it moves)\<^sup>*\<^sup>* s s' \<and> place s' = (place s)(t := Outside) \<and>
     (if has_lock (place s t) then writer s' = None \<and> readers s' = readers s else writer s' = writer s \<and> readers s' = readers s - {t})"

lemma leaves_Leaving:
  assumes "place s t = Leaving c r"
  shows "\<exists>s'. leaves env it moves t s s'"
  using mstep.unlock [OF assms] by (intro exI) (auto simp: leaves_def assms intro!: r_into_rtranclp split: if_splits)

lemma leaves_step:
  assumes "mstep env it moves s (goto t pm s1)" and "place s1 = place s" "writer s1 = writer s" "readers s1 = readers s"
    and "has_lock (fst pm) = has_lock (place s t)" and "\<exists>s'. leaves env it moves t (goto t pm s1) s'"
  shows "\<exists>s'. leaves env it moves t s s'"
proof -
  obtain s' where "leaves env it moves t (goto t pm s1) s'" using assms(6) by blast
  then have "leaves env it moves t s s'" using assms(1-5) by (auto simp: leaves_def intro: run_trans1 split: if_splits)
  then show ?thesis ..
qed

lemma leaves_Syncing:
  assumes "informers_answer env" and "place s t = Syncing c conn"
  shows "\<exists>s'. leaves env it moves t s s'"
proof -
  obtain b w where "WaitForCacheSync env (world s) (PodInformer conn) = Some (b, w)"
    using assms(1) unfolding informers_answer_def by (metis not_Some_eq surj_pair)
  from mstep.synced [OF assms(2) this] show ?thesis
    by (rule leaves_step) (simp_all add: assms(2) leaves_Leaving)
qed

lemma leaves_Creating:
  assumes "informers_answer env" "clients_made env" and "place s t = Creating c"
  shows "\<exists>s'. leaves env it moves t s s'"
proof -
  obtain p m where c: "client_created env (world s) c (mgr s) = Some (p, m)"
    by (rule client_created_total [OF assms(2)])
  from mstep.created [OF assms(3) c] show ?thesis
    by (rule leaves_step) (use client_created_place [OF c] assms in \<open>auto intro: leaves_Leaving leaves_Syncing\<close>)
qed

lemma leaves_Entered:
  assumes "informers_answer env" "clients_made env" "visits it" and "wf_manager (mgr s)" and "place s t = Entered c"
  shows "\<exists>s'. leaves env it moves t s s'"
proof -
  obtain p m where e: "enter env it (world s) c (mgr s) = Some (p, m)" using enter_total [OF assms(4,3), of env "world s" c] by auto
  from mstep.body [OF assms(5) e] show ?thesis
    by (rule leaves_step) (use enter_place [OF e] assms(1,2,5) in \<open>auto intro: leaves_Leaving leaves_Syncing leaves_Creating\<close>)
qed

lemma leaves_holder:
  assumes "informers_answer env" "clients_made env" "visits it" "wf_manager m\<^sub>0" and "serialized env it m\<^sub>0 s"
    and "has_lock (place s t) \<or> has_rlock (place s t)"
  shows "\<exists>s'. leaves env it moves t s s' \<and> serialized env it m\<^sub>0 s'"
proof -
  have "\<exists>s'. leaves env it moves t s s'"
    using assms(6) leaves_Entered [OF assms(1-3) serialized_wf [OF assms(5,4,3)]] leaves_Creating [OF assms(1,2)]
      leaves_Syncing [OF assms(1)] leaves_Leaving
    by (cases "place s t") auto
  moreover have "serialized env it m\<^sub>0 s'" if "(mstep env it moves)\<^sup>*\<^sup>* s s'" for s'
    using that assms(5) by induction (blast intro: serialized_step [OF _ _ assms(4,3,2)])+
  ultimately show ?thesis unfolding leaves_def by blast
qed

lemma readers_leave:
  assumes "informers_answer env" "clients_made env" "visits it" "wf_manager m\<^sub>0" and "serialized env it m\<^sub>0 s" and "writer s = None"
  shows "\<exists>s'. (mstep env it moves)\<^sup>*\<^sup>* s s' \<and> serialized env it m\<^sub>0 s' \<and> writer s' = None \<and> readers s' = {} \<and>
    (\<forall>t. place s' t = place s t \<or> place s' t = Outside)"
  using assms(5,6)
proof (induction "card (readers s)" arbitrary: s)
  case 0
  then have "readers s = {}" by (auto simp: serialized_def lock_inv_def)
  then show ?case using 0 by blast
next
  case (Suc n)
  have fin: "finite (readers s)" using Suc.prems(1) by (auto simp: serialized_def lock_inv_def)
  obtain t where t: "t \<in> readers s" using Suc.hyps(2) by fastforce
  have p: "has_rlock (place s t)" "\<not> has_lock (place s t)" using Suc.prems t by (auto simp: serialized_def lock_inv_def)
  obtain s1 where s1: "leaves env it moves t s s1" "serialized env it m\<^sub>0 s1"
    using leaves_holder [OF assms(1-4) Suc.prems(1)] p by blast
  then have "n = card (readers s1)" "writer s1 = None" using Suc.hyps(2) Suc.prems(2) fin t p by (auto simp: leaves_def)
  then obtain s' where s': "(mstep env it moves)\<^sup>*\<^sup>* s1 s'" "serialized env it m\<^sub>0 s'" "writer s' = None" "readers s' = {}"
    "\<forall>t. place s' t = place s1 t \<or> place s' t = Outside" using Suc.hyps(1) s1(2) by blast
  have run: "(mstep env it moves)\<^sup>*\<^sup>* s s'" using s1(1) s'(1) by (auto simp: leaves_def)
  have "place s' u = place s u \<or> place s' u = Outside" for u
    using s1(1) s'(5) by (metis leaves_def fun_upd_apply)
  then show ?case using run s'(2-4) by blast
qed

lemma outside_lock: "\<not> has_lock p \<Longrightarrow> \<not> has_rlock p \<Longrightarrow> p = Outside \<or> (\<exists>c. p = Waiting c)"
  by (cases p) auto

lemma lock_free:
  assumes "informers_answer env" "clients_made env" "visits it" "wf_manager m\<^sub>0" and "serialized env it m\<^sub>0 s"
  shows "\<exists>s'. (mstep env it moves)\<^sup>*\<^sup>* s s' \<and> serialized env it m\<^sub>0 s' \<and> writer s' = None \<and> readers s' = {} \<and>
    (\<forall>t. place s' t = place s t \<or> place s' t = Outside)"
proof (cases "writer s")
  case None
  then show ?thesis using readers_leave [OF assms] by blast
next
  case (Some t)
  then have t: "has_lock (place s t)" "readers s = {}" using assms(5) by (auto simp: serialized_def lock_inv_def)
  then obtain s' where "leaves env it moves t s s'" "serialized env it m\<^sub>0 s'" using leaves_holder [OF assms] by blast
  then show ?thesis using t by (intro exI [of _ s']) (simp add: leaves_def)
qed

text \<open>While one goroutine waits for an informer that does not answer.\<close>

lemma blocked_step:
  assumes "mstep env it moves s s'" and "serialized env it m\<^sub>0 s" and "wf_manager m\<^sub>0" "visits it"
    and p: "place s t = Syncing c conn" and never: "\<And>w. WaitForCacheSync env w (PodInformer conn) = None"
  shows "place s' t = Syncing c conn \<and> done_calls s' = done_calls s \<and> clusters (mgr s') = clusters (mgr s) \<and>
    closedChs (mgr s') = closedChs (mgr s)"
proof -
  obtain g where g: "lock_inv s" "sim env s g" using assms(2) by (auto simp: serialized_def)
  note w = serialized_writer(2) [OF g(1) p]
  have alone: "\<not> has_lock (place s u)" "\<not> has_rlock (place s u)" if "u \<noteq> t" for u
    using that g(1) w by (auto simp: lock_inv_def)
  have here: "u = t" if "has_lock (place s u) \<or> has_rlock (place s u)" for u using that alone by blast
  have kept: "map_of (clusters (mgr s)) (ec_Name c) = Some conn" using g(2) w p by (simp add: sim_def)
  have not_closed: "StopCh conn \<notin> set (closedChs (mgr s))"
    by (rule wf_managerD(3) [OF serialized_wf [OF assms(2-4)] kept])
  show ?thesis using assms(1)
  proof cases
    case (body u c')
    then show ?thesis using here [of u] p by (cases "exclusive c'") auto
  next
    case (created u cl)
    then show ?thesis using here [of u] p by auto
  next
    case (synced u cl conn' b w)
    then have "u = t" using here [of u] by simp
    then show ?thesis using synced p never by simp
  next
    case (stopped u cl conn')
    then have "u = t" using here [of u] by simp
    then show ?thesis using stopped p not_closed by simp
  next
    case (unlock u c' r)
    then show ?thesis using here [of u] p by (cases "exclusive c'") auto
  qed (use p in auto)
qed

subsection \<open>Properties\<close>

text \<open>C6: the lock makes the operations of the manager one step each. However goroutines call them, wait and
  are interrupted in calls of AWS and in the wait for an informer, with the cleanup of the client
  cache at any time: the calls that are done returned what they return when they are executed one
  after the other, in the order in which they were done, and the manager is the one this leaves. No
  stop channel is closed twice, and a goroutine with the exclusive lock is alone.\<close>

theorem locked_calls_are_serial:
  assumes "wf_manager m" and "visits it" and "clients_made env"
    and "(mstep env it moves)\<^sup>*\<^sup>* (at_rest m w) s"
  shows "\<not> panicked s \<and> wf_manager (mgr s) \<and>
    (\<exists>g. serial env it m (done_calls s) g \<and> ((\<forall>t c conn. place s t \<noteq> Creating c \<and> place s t \<noteq> Syncing c conn) \<longrightarrow> mgr s = g)) \<and>
    (\<forall>t u. has_lock (place s t) \<longrightarrow> has_lock (place s u) \<or> has_rlock (place s u) \<longrightarrow> t = u)"
proof -
  note ok = serialized_run [OF assms(4,1-3)]
  then obtain g where g: "lock_inv s" "\<not> panicked s" "serial env it m (done_calls s) g" "sim env s g"
    by (auto simp: serialized_def)
  have "t = u" if "has_lock (place s t)" "has_lock (place s u) \<or> has_rlock (place s u)" for t u
    using that g(1) unfolding lock_inv_def by (metis empty_iff option.distinct(1) option.inject)
  then show ?thesis using g(2,3) sim_settled [OF g(4)] serialized_wf [OF ok assms(1,2)] by blast
qed

text \<open>C8: no deadlock. While informers answer, any call can come to its end from any state, whoever waits or
  has the lock.\<close>

theorem every_call_can_return:
  assumes "wf_manager m" and "visits it" and "clients_made env" and "informers_answer env"
    and "(mstep env it moves)\<^sup>*\<^sup>* (at_rest m w) s"
  shows "\<exists>s'. (mstep env it moves)\<^sup>*\<^sup>* s s' \<and> place s' t = Outside"
proof -
  note ok = serialized_run [OF assms(5,1-3)]
  obtain s1 where s1: "(mstep env it moves)\<^sup>*\<^sup>* s s1" "serialized env it m s1" "writer s1 = None" "readers s1 = {}"
    using lock_free [OF assms(4,3,2,1) ok] by blast
  have "place s1 t = Outside \<or> (\<exists>c. place s1 t = Waiting c)"
    using s1(2-4) by (intro outside_lock) (auto simp: serialized_def lock_inv_def)
  then show ?thesis
  proof
    assume "\<exists>c. place s1 t = Waiting c"
    then obtain c where c: "place s1 t = Waiting c" ..
    obtain s2 where s2: "mstep env it moves s1 s2" "place s2 t = Entered c"
      using mstep.lock [OF c _ s1(3,4)] mstep.rlock [OF c _ s1(3)] by (cases "exclusive c") force+
    have "serialized env it m s2" by (rule serialized_step [OF s2(1) s1(2) assms(1-3)])
    then obtain s3 where "leaves env it moves t s2 s3"
      using leaves_Entered [OF assms(4,3,2) serialized_wf s2(2)] assms(1,2) by blast
    then show ?thesis using s1(1) s2(1) by (intro exI [of _ s3]) (auto simp: leaves_def)
  qed (use s1(1) in blast)
qed

text \<open>C7: an informer that does not answer stops the manager for good. \<open>AddOrUpdateCluster\<close> waits with the
  lock, the wait also ends when the stop channel is closed, and only calls that need the lock close it:
  so the channel stays open, the goroutine waits on, no call is done any more, not even a
  look-up or the shutdown, and every other goroutine that calls stays before the lock.\<close>

theorem unanswered_informer_blocks_manager:
  assumes "wf_manager m" and "visits it" and "clients_made env"
    and "(mstep env it moves)\<^sup>*\<^sup>* (at_rest m w) s" and "place s t = Syncing c conn"
    and "\<And>w. WaitForCacheSync env w (PodInformer conn) = None" and "(mstep env it moves)\<^sup>*\<^sup>* s s'"
  shows "place s' t = Syncing c conn \<and> done_calls s' = done_calls s \<and> clusters (mgr s') = clusters (mgr s) \<and>
    StopCh conn \<notin> set (closedChs (mgr s')) \<and> (\<forall>u. u = t \<or> place s' u = Outside \<or> (\<exists>c. place s' u = Waiting c))"
proof -
  have run: "place s' t = Syncing c conn \<and> done_calls s' = done_calls s \<and> clusters (mgr s') = clusters (mgr s) \<and> serialized env it m s'"
    using assms(7)
  proof induction
    case base
    then show ?case using assms(5) serialized_run [OF assms(4,1-3)] by blast
  next
    case (step s1 s2)
    then show ?case using blocked_step [OF step(2) _ assms(1,2) _ assms(6)] serialized_step [OF step(2) _ assms(1-3)] by metis
  qed
  then obtain g where g: "lock_inv s'" "sim env s' g" by (auto simp: serialized_def)
  have w: "writer s' = Some t" by (rule serialized_writer(2) [OF g(1)]) (use run in blast)
  have "map_of (clusters (mgr s')) (ec_Name c) = Some conn" using g(2) w run by (simp add: sim_def)
  then have "StopCh conn \<notin> set (closedChs (mgr s'))"
    using wf_managerD(3) serialized_wf [OF _ assms(1,2)] run by blast
  moreover have "place s' u = Outside \<or> (\<exists>c. place s' u = Waiting c)" if "u \<noteq> t" for u
    using that g(1) w by (intro outside_lock) (auto simp: lock_inv_def)
  ultimately show ?thesis using run by blast
qed

subsection \<open>The properties on a small manager\<close>

text \<open>The region of a connected cluster has changed: its old channel is closed, its client is cached, and
  the goroutine gets to the wait for the informer.\<close>

abbreviation (input) ref_update :: EKSClusterRegistry where
  "ref_update \<equiv> ref_registry ''eu''"

lemma ref_update_enters:
  "\<exists>conn m. enter env it () (AddOrUpdate ref_update) ref_manager = Some (Syncing ref_update conn, m)"
  by (simp add: enter_def enter_add_def begin_connect_def keep_connection_def ref_manager_def ref_registry_def zero_meta_def
      same_connection_def stopClusterConnection_def Let_def)

lemma ref_run:
  fixes env :: "(unit, string \<times> string list) cluster_env"
  obtains s :: "(string \<times> string list, unit, nat) lock_state" and conn where
    "(mstep env rev (\<lambda>_ _. False))\<^sup>*\<^sup>* (at_rest ref_manager ()) s" "place s = (\<lambda>_. Outside)(0 := Syncing ref_update conn)"
    "done_calls s = []"
proof -
  let ?step = "mstep env rev (\<lambda>_ _. False)" and ?s0 = "at_rest ref_manager () :: (string \<times> string list, unit, nat) lock_state"
  obtain conn m where e: "enter env rev () (AddOrUpdate ref_update) ref_manager = Some (Syncing ref_update conn, m)"
    using ref_update_enters by blast
  let ?s1 = "?s0\<lparr>place := (place ?s0)(0 := Waiting (AddOrUpdate ref_update))\<rparr>"
  let ?s2 = "?s1\<lparr>writer := Some 0, place := (place ?s1)(0 := Entered (AddOrUpdate ref_update))\<rparr>"
  let ?s3 = "goto 0 (Syncing ref_update conn, m) ?s2"
  have 1: "?step ?s0 ?s1" by (rule mstep.call) (simp add: at_rest_def)
  have 2: "?step ?s1 ?s2" by (rule mstep.lock) (simp_all add: at_rest_def)
  have w: "world ?s2 = ()" "mgr ?s2 = ref_manager" by (simp_all add: at_rest_def)
  have 3: "?step ?s2 ?s3" by (rule mstep.body [where c = "AddOrUpdate ref_update"]) (simp, unfold w, rule e)
  have "?step\<^sup>*\<^sup>* ?s0 ?s3"
    by (rule run_trans1 [OF 1], rule run_trans1 [OF 2], rule r_into_rtranclp, rule 3)
  then show thesis by (rule that [where conn = conn]) (simp_all add: at_rest_def fun_eq_iff)
qed

lemma ref_clients_made: "clients_made (ref_cluster_env\<lparr>WaitForCacheSync := f\<rparr>)"
  by (simp add: clients_made_def createClusterClient_def cluster_kubeconfig_def ref_cluster_env_def ref_aws_def
      NewKubeConfigForCluster_def)

lemma ref_env_same: "ref_cluster_env\<lparr>WaitForCacheSync := (\<lambda>w i. Some (True, w))\<rparr> = ref_cluster_env"
  by (simp add: ref_cluster_env_def)

lemma ref_visits_rev: "visits (rev :: (string \<times> (string \<times> string list) ClusterConnection) list \<Rightarrow> _)"
  by (simp add: visits_def)

theorem locked_calls_are_serial_witness:
  "\<exists>s :: (string \<times> string list, unit, nat) lock_state.
     (mstep ref_cluster_env rev (\<lambda>_ _. False))\<^sup>*\<^sup>* (at_rest ref_manager ()) s \<and>
     done_calls s = [(0, AddOrUpdate ref_update, Answer None)] \<and> serial ref_cluster_env rev ref_manager (done_calls s) (mgr s)"
proof -
  let ?step = "mstep ref_cluster_env rev (\<lambda>_ _. False)"
  obtain s :: "(string \<times> string list, unit, nat) lock_state" and conn where
    s: "?step\<^sup>*\<^sup>* (at_rest ref_manager ()) s" "place s = (\<lambda>_. Outside)(0 := Syncing ref_update conn)" "done_calls s = []"
    by (rule ref_run)
  let ?s = "goto 0 (Leaving (AddOrUpdate ref_update) (Answer (sync_answer True)), mgr s) (s\<lparr>world := ()\<rparr>)"
  have "?step s ?s" by (rule mstep.synced [where conn = conn]) (simp_all add: s(2) ref_cluster_env_def)
  with s(1) have run: "?step\<^sup>*\<^sup>* (at_rest ref_manager ()) ?s" by (rule rtranclp.rtrancl_into_rtrancl)
  note result = locked_calls_are_serial [OF ref_manager_wf ref_visits_rev ref_clients_made [of "\<lambda>w i. Some (True, w)", unfolded ref_env_same] run]
  have "place ?s t \<noteq> Creating c \<and> place ?s t \<noteq> Syncing c conn" for t c conn by (simp add: s(2))
  then have "serial ref_cluster_env rev ref_manager (done_calls ?s) (mgr ?s)" using result by blast
  then show ?thesis using run by (intro exI [of _ ?s]) (simp add: s(3) sync_answer_def)
qed

theorem every_call_can_return_witness:
  "\<exists>(s :: (string \<times> string list, unit, nat) lock_state) s' conn.
     (mstep ref_cluster_env rev (\<lambda>_ _. False))\<^sup>*\<^sup>* (at_rest ref_manager ()) s \<and> place s 0 = Syncing ref_update conn \<and>
     (mstep ref_cluster_env rev (\<lambda>_ _. False))\<^sup>*\<^sup>* s s' \<and> place s' 0 = Outside"
proof -
  obtain s :: "(string \<times> string list, unit, nat) lock_state" and conn where
    s: "(mstep ref_cluster_env rev (\<lambda>_ _. False))\<^sup>*\<^sup>* (at_rest ref_manager ()) s"
      "place s = (\<lambda>_. Outside)(0 := Syncing ref_update conn)" "done_calls s = []" by (rule ref_run)
  have "informers_answer ref_cluster_env" by (simp add: informers_answer_def ref_cluster_env_def)
  from every_call_can_return [OF ref_manager_wf ref_visits_rev ref_clients_made [of "\<lambda>w i. Some (True, w)", unfolded ref_env_same] this s(1), of 0]
  show ?thesis using s(1,2) by auto
qed

theorem unanswered_informer_blocks_manager_witness:
  "\<exists>(s :: (string \<times> string list, unit, nat) lock_state) conn.
     (mstep (ref_cluster_env\<lparr>WaitForCacheSync := \<lambda>w i. None\<rparr>) rev (\<lambda>_ _. False))\<^sup>*\<^sup>* (at_rest ref_manager ()) s \<and>
     place s 0 = Syncing ref_update conn \<and>
     (\<forall>s'. (mstep (ref_cluster_env\<lparr>WaitForCacheSync := \<lambda>w i. None\<rparr>) rev (\<lambda>_ _. False))\<^sup>*\<^sup>* s s' \<longrightarrow> done_calls s' = [])"
proof -
  let ?env = "ref_cluster_env\<lparr>WaitForCacheSync := \<lambda>w i. None\<rparr>"
  obtain s :: "(string \<times> string list, unit, nat) lock_state" and conn where
    s: "(mstep ?env rev (\<lambda>_ _. False))\<^sup>*\<^sup>* (at_rest ref_manager ()) s"
      "place s = (\<lambda>_. Outside)(0 := Syncing ref_update conn)" "done_calls s = []" by (rule ref_run)
  have "place s 0 = Syncing ref_update conn" by (simp add: s(2))
  from unanswered_informer_blocks_manager [OF ref_manager_wf ref_visits_rev ref_clients_made s(1) this]
  have "done_calls s' = []" if "(mstep ?env rev (\<lambda>_ _. False))\<^sup>*\<^sup>* s s'" for s' using that s(3) by simp
  then show ?thesis using s(1,2) by auto
qed

end
